(* ===== verification/Prelude.thy ===== *)
theory Prelude
  imports Main "HOL-Library.Char_ord" "HOL-Library.List_Lexorder"
begin

text \<open>
  Shared vocabulary of the development: the named collections of simplification facts, the
  pieces of the Python language and standard library that several components use (string
  splitting and joining, decimal printing and parsing of integers), and the generic lemmas
  on lists that carry the component proofs.

  Strings are lists of characters and stand for Python \<open>str\<close> values over the ASCII range.
  Python integers are \<^typ>\<open>int\<close>. Instants are \<^typ>\<open>int\<close> microseconds since the Unix epoch, in UTC:
  every component that stores a time stores a UTC instant, as the source does after
  \<open>astimezone(UTC)\<close>, and compares such instants only with each other.
\<close>

section \<open>Collections and type names\<close>

named_theorems table_simps "equations of the keyed-table operations"
named_theorems text_simps "equations of splitting, joining and decimal conversion"

type_synonym instant = int
  \<comment> \<open>microseconds since the Unix epoch\<close>

type_synonym clock = "nat \<Rightarrow> instant"
  \<comment> \<open>the successive readings of the wall clock during one call: \<open>clk 0\<close> is the first\<close>

section \<open>Splitting and joining on one character\<close>

text \<open>Python's \<open>s.split(sep)\<close> for a one-character separator.\<close>

fun split_on :: "char \<Rightarrow> string \<Rightarrow> string list" where
  "split_on c [] = [[]]"
| "split_on c (x # xs) =
     (if x = c then [] # split_on c xs
      else (case split_on c xs of [] \<Rightarrow> [[x]] | y # ys \<Rightarrow> (x # y) # ys))"

text \<open>Python's \<open>sep.join(parts)\<close>.\<close>

fun join_with :: "char \<Rightarrow> string list \<Rightarrow> string" where
  "join_with c [] = []"
| "join_with c [x] = x"
| "join_with c (x # y # ys) = x @ c # join_with c (y # ys)"

text \<open>
  Python's \<open>s.rsplit(sep, 1)\<close>: \<open>None\<close> stands for the one-element list (no separator in the
  string), \<open>Some (front, back)\<close> for the two-element list around the last separator.
\<close>

fun rsplit1 :: "char \<Rightarrow> string \<Rightarrow> (string \<times> string) option" where
  "rsplit1 c [] = None"
| "rsplit1 c (x # xs) =
     (case rsplit1 c xs of
        Some (p, m) \<Rightarrow> Some (x # p, m)
      | None \<Rightarrow> if x = c then Some ([], xs) else None)"

lemma split_on_not_Nil [simp]: "split_on c s \<noteq> []"
  by (induction s) (auto split: list.splits)

lemma split_on_no_sep [text_simps]: "c \<notin> set s \<Longrightarrow> split_on c s = [s]"
  by (induction s) auto

lemma split_on_append_sep [text_simps]:
  "c \<notin> set x \<Longrightarrow> split_on c (x @ c # s) = x # split_on c s"
  by (induction x) auto

lemma split_on_append: "split_on c (p @ c # s) = split_on c p @ split_on c s"
  by (induction p) (auto split: list.splits)

lemma split_on_join [text_simps]:
  "xs \<noteq> [] \<Longrightarrow> (\<And>x. x \<in> set xs \<Longrightarrow> c \<notin> set x) \<Longrightarrow> split_on c (join_with c xs) = xs"
  by (induction c xs rule: join_with.induct) (auto simp: text_simps)

lemma join_split_on [text_simps]: "join_with c (split_on c s) = s"
proof (induction s)
  case Nil
  then show ?case by simp
next
  case (Cons x xs)
  obtain y ys where y: "split_on c xs = y # ys"
    by (cases "split_on c xs") auto
  show ?case
  proof (cases "x = c")
    case True
    then show ?thesis using Cons y by simp
  next
    case False
    have "join_with c ((x # y) # ys) = x # join_with c (y # ys)"
      by (cases ys) auto
    then show ?thesis using False Cons y by simp
  qed
qed

lemma split_on_parts_no_sep: "p \<in> set (split_on c s) \<Longrightarrow> c \<notin> set p"
  by (induction s arbitrary: p) (auto split: list.splits if_splits)

lemma rsplit1_None: "rsplit1 c s = None \<longleftrightarrow> c \<notin> set s"
  by (induction s) (auto split: option.splits)

lemma rsplit1_append [text_simps]: "c \<notin> set m \<Longrightarrow> rsplit1 c (p @ c # m) = Some (p, m)"
  by (induction p) (auto simp: rsplit1_None [THEN iffD2] split: option.splits)

lemma rsplit1_Some: "rsplit1 c s = Some (p, m) \<Longrightarrow> s = p @ c # m \<and> c \<notin> set m"
  by (induction s arbitrary: p) (auto simp: rsplit1_None split: option.splits if_splits)

section \<open>Decimal integers\<close>

definition digit_char :: "nat \<Rightarrow> char" where
  "digit_char d = char_of (48 + d)"

definition is_digit :: "char \<Rightarrow> bool" where
  "is_digit c \<longleftrightarrow> 48 \<le> (of_char c :: nat) \<and> (of_char c :: nat) \<le> 57"

definition digit_val :: "char \<Rightarrow> nat" where
  "digit_val c = of_char c - 48"

text \<open>Python's \<open>str(n)\<close>.\<close>

fun nat_str :: "nat \<Rightarrow> string" where
  "nat_str n = (if n < 10 then [digit_char n] else nat_str (n div 10) @ [digit_char (n mod 10)])"

declare nat_str.simps [simp del]

definition py_str :: "int \<Rightarrow> string" where
  "py_str i = (if i < 0 then CHR ''-'' # nat_str (nat (- i)) else nat_str (nat i))"

text \<open>
  Python's \<open>int(s)\<close> on an ASCII string: surrounding whitespace is dropped, one sign is
  allowed, single underscores may separate digits; anything else is a \<open>ValueError\<close>, here
  \<open>None\<close>. The interpreter's 4300-digit conversion limit is not modelled.
\<close>

definition is_py_space :: "char \<Rightarrow> bool" where
  "is_py_space c \<longleftrightarrow> (of_char c :: nat) = 32 \<or> (9 \<le> (of_char c :: nat) \<and> (of_char c :: nat) \<le> 13)"

definition py_strip :: "string \<Rightarrow> string" where
  "py_strip s = rev (dropWhile is_py_space (rev (dropWhile is_py_space s)))"

fun parse_digits :: "nat \<Rightarrow> string \<Rightarrow> nat option" where
  "parse_digits acc [] = Some acc"
| "parse_digits acc [c] = (if is_digit c then Some (10 * acc + digit_val c) else None)"
| "parse_digits acc (c # d # ds) =
     (if is_digit c then parse_digits (10 * acc + digit_val c) (d # ds)
      else if c = CHR ''_'' \<and> is_digit d then parse_digits (10 * acc + digit_val d) ds
      else None)"

fun py_uint :: "string \<Rightarrow> nat option" where
  "py_uint [] = None"
| "py_uint (c # cs) = (if is_digit c then parse_digits (digit_val c) cs else None)"

definition py_int :: "string \<Rightarrow> int option" where
  "py_int s =
     (case py_strip s of
        [] \<Rightarrow> None
      | c # cs \<Rightarrow>
          if c = CHR ''-'' then map_option (\<lambda>n. - int n) (py_uint cs)
          else if c = CHR ''+'' then map_option int (py_uint cs)
          else map_option int (py_uint (c # cs)))"

lemma of_char_digit_char [simp]: "d < 10 \<Longrightarrow> of_char (digit_char d) = 48 + d"
  by (simp add: digit_char_def)

lemma is_digit_digit_char [simp]: "d < 10 \<Longrightarrow> is_digit (digit_char d)"
  by (simp add: is_digit_def)

lemma digit_val_digit_char [simp]: "d < 10 \<Longrightarrow> digit_val (digit_char d) = d"
  by (simp add: digit_val_def)

lemma is_digit_not_special:
  assumes "is_digit c"
  shows "c \<noteq> CHR ''-''" "c \<noteq> CHR ''+''" "c \<noteq> CHR ''_''" "c \<noteq> CHR ''|''" "\<not> is_py_space c"
  using assms by (auto simp: is_digit_def is_py_space_def)

lemma nat_str_not_Nil [simp]: "nat_str n \<noteq> []"
  by (subst nat_str.simps) simp

lemma nat_str_digits: "\<forall>c \<in> set (nat_str n). is_digit c"
proof (induction n rule: nat_str.induct)
  case (1 n)
  then show ?case by (subst nat_str.simps) auto
qed

lemma parse_digits_all:
  "\<forall>c \<in> set s. is_digit c \<Longrightarrow>
     parse_digits acc s = Some (foldl (\<lambda>a c. 10 * a + digit_val c) acc s)"
  by (induction acc s rule: parse_digits.induct) auto

lemma py_uint_all:
  assumes "\<forall>c \<in> set s. is_digit c" and "s \<noteq> []"
  shows "py_uint s = Some (foldl (\<lambda>a c. 10 * a + digit_val c) 0 s)"
  using assms by (cases s) (auto simp: parse_digits_all)

lemma foldl_nat_str: "foldl (\<lambda>a c. 10 * a + digit_val c) 0 (nat_str n) = n"
proof (induction n rule: nat_str.induct)
  case (1 n)
  then show ?case by (subst nat_str.simps) auto
qed

lemma py_uint_nat_str [text_simps]: "py_uint (nat_str n) = Some n"
  using py_uint_all [OF nat_str_digits nat_str_not_Nil] by (simp add: foldl_nat_str)

lemma py_strip_id:
  assumes "s \<noteq> []" and "\<not> is_py_space (hd s)" and "\<not> is_py_space (last s)"
  shows "py_strip s = s"
proof -
  have "dropWhile is_py_space s = s" using assms(1,2) by (cases s) auto
  moreover have "dropWhile is_py_space (rev s) = rev s"
    using assms(1,3) by (cases "rev s") (auto simp: hd_rev [symmetric])
  ultimately show ?thesis by (simp add: py_strip_def)
qed

text \<open>Printing and parsing an integer are inverse.\<close>

lemma py_int_py_str [text_simps]: "py_int (py_str i) = Some i"
proof -
  have ends: "\<not> is_py_space (hd (nat_str n))" "\<not> is_py_space (last (nat_str n))" for n
    using nat_str_digits [of n] nat_str_not_Nil [of n]
    by (meson hd_in_set last_in_set is_digit_not_special(5))+
  have minus: "\<not> is_py_space (CHR ''-'')" by (simp add: is_py_space_def)
  show ?thesis
  proof (cases "i < 0")
    case True
    have "py_strip (py_str i) = py_str i"
      by (rule py_strip_id) (simp_all add: True minus ends py_str_def)
    then show ?thesis using True
      by (simp add: py_int_def py_str_def text_simps)
  next
    case False
    have strip: "py_strip (py_str i) = py_str i"
      by (rule py_strip_id) (simp_all add: False ends py_str_def)
    obtain c cs where c: "nat_str (nat i) = c # cs"
      by (cases "nat_str (nat i)") auto
    have "is_digit c" using nat_str_digits [of "nat i"] c by simp
    then have "c \<noteq> CHR ''-''" "c \<noteq> CHR ''+''" by (auto dest: is_digit_not_special)
    then show ?thesis using False c strip py_uint_nat_str [of "nat i"]
      by (simp add: py_int_def py_str_def)
  qed
qed

lemma py_str_no_bar [simp]: "CHR ''|'' \<notin> set (py_str i)"
  using nat_str_digits is_digit_not_special(4) by (auto simp: py_str_def)

lemma py_str_inject [simp]: "py_str i = py_str j \<longleftrightarrow> i = j"
  by (metis py_int_py_str option.inject)

end
