(* ===== verification/Sql_Table.thy ===== *)
theory Sql_Table
  imports Prelude
begin

text \<open>
  Relational tables as lists of rows, in insertion order, with the statement forms the
  source sends to SQLite and PostgreSQL: a lookup by key, \<open>INSERT ... ON CONFLICT DO
  NOTHING\<close>, \<open>INSERT OR REPLACE\<close>, an upsert, conditional \<open>UPDATE\<close> and \<open>DELETE\<close> with
  their rowcounts. The primary key is a function from rows to keys. Two interfaces are
  stated as locales: a store in which the first row written under a key wins, and a
  machine whose operations keep an invariant; both are proved once here and interpreted
  where the components provide them.
\<close>

section \<open>Statements\<close>

definition tbl_find :: "('r \<Rightarrow> 'k) \<Rightarrow> 'k \<Rightarrow> 'r list \<Rightarrow> 'r option" where
  "tbl_find key k t = List.find (\<lambda>r. key r = k) t"

definition tbl_has :: "('r \<Rightarrow> 'k) \<Rightarrow> 'k \<Rightarrow> 'r list \<Rightarrow> bool" where
  "tbl_has key k t \<longleftrightarrow> (\<exists>r \<in> set t. key r = k)"

definition rowcount :: "('r \<Rightarrow> bool) \<Rightarrow> 'r list \<Rightarrow> nat" where
  "rowcount P t = length (filter P t)"

definition update_where :: "('r \<Rightarrow> bool) \<Rightarrow> ('r \<Rightarrow> 'r) \<Rightarrow> 'r list \<Rightarrow> 'r list" where
  "update_where P f t = map (\<lambda>r. if P r then f r else r) t"

definition delete_where :: "('r \<Rightarrow> bool) \<Rightarrow> 'r list \<Rightarrow> 'r list" where
  "delete_where P t = filter (\<lambda>r. \<not> P r) t"

definition insert_ignore :: "('r \<Rightarrow> 'k) \<Rightarrow> 'r \<Rightarrow> 'r list \<Rightarrow> 'r list" where
  "insert_ignore key r t = (if tbl_has key (key r) t then t else t @ [r])"

definition insert_replace :: "('r \<Rightarrow> 'k) \<Rightarrow> 'r \<Rightarrow> 'r list \<Rightarrow> 'r list" where
  "insert_replace key r t = delete_where (\<lambda>x. key x = key r) t @ [r]"

definition upsert :: "('r \<Rightarrow> 'k) \<Rightarrow> 'r \<Rightarrow> ('r \<Rightarrow> 'r) \<Rightarrow> 'r list \<Rightarrow> 'r list" where
  "upsert key r f t =
     (if tbl_has key (key r) t then update_where (\<lambda>x. key x = key r) f t else t @ [r])"

text \<open>The primary-key constraint.\<close>

definition pk_ok :: "('r \<Rightarrow> 'k) \<Rightarrow> 'r list \<Rightarrow> bool" where
  "pk_ok key t \<longleftrightarrow> distinct (map key t)"

section \<open>Facts about the statements\<close>

lemma tbl_find_Nil [simp, table_simps]: "tbl_find key k [] = None"
  by (simp add: tbl_find_def)

lemma tbl_find_Cons [simp, table_simps]:
  "tbl_find key k (r # t) = (if key r = k then Some r else tbl_find key k t)"
  by (simp add: tbl_find_def)

lemma tbl_has_Nil [simp, table_simps]: "\<not> tbl_has key k []"
  by (simp add: tbl_has_def)

lemma tbl_has_Cons [simp, table_simps]:
  "tbl_has key k (r # t) \<longleftrightarrow> key r = k \<or> tbl_has key k t"
  by (auto simp: tbl_has_def)

lemma tbl_has_append [simp, table_simps]:
  "tbl_has key k (t @ u) \<longleftrightarrow> tbl_has key k t \<or> tbl_has key k u"
  by (auto simp: tbl_has_def)

lemma tbl_find_append [table_simps]:
  "tbl_find key k (t @ u) =
     (case tbl_find key k t of None \<Rightarrow> tbl_find key k u | Some r \<Rightarrow> Some r)"
  by (induction t) auto

lemma tbl_find_None [simp, table_simps]: "tbl_find key k t = None \<longleftrightarrow> \<not> tbl_has key k t"
  by (induction t) auto

lemma tbl_find_absent [simp, table_simps]: "\<not> tbl_has key k t \<Longrightarrow> tbl_find key k t = None"
  by simp

lemma tbl_find_SomeD: "tbl_find key k t = Some r \<Longrightarrow> r \<in> set t \<and> key r = k"
  by (induction t) (auto split: if_splits)

lemma tbl_find_has: "tbl_find key k t = Some r \<Longrightarrow> tbl_has key k t"
  by (auto simp: tbl_has_def dest: tbl_find_SomeD)

lemma tbl_has_findE:
  assumes "tbl_has key k t"
  obtains r where "tbl_find key k t = Some r"
  using assms by (metis tbl_find_None option.exhaust)

lemma tbl_find_pk: "pk_ok key t \<Longrightarrow> r \<in> set t \<Longrightarrow> tbl_find key (key r) t = Some r"
  by (induction t) (auto simp: pk_ok_def image_iff)

lemma pk_ok_Nil [simp]: "pk_ok key []"
  by (simp add: pk_ok_def)

lemma pk_ok_snoc [simp]: "pk_ok key (t @ [r]) \<longleftrightarrow> pk_ok key t \<and> \<not> tbl_has key (key r) t"
  by (auto simp: pk_ok_def tbl_has_def image_iff)

lemma pk_ok_eq: "pk_ok key t \<Longrightarrow> r \<in> set t \<Longrightarrow> s \<in> set t \<Longrightarrow> key r = key s \<Longrightarrow> r = s"
  by (metis tbl_find_pk option.inject)

lemma set_update_where: "set (update_where P f t) = (\<lambda>r. if P r then f r else r) ` set t"
  by (simp add: update_where_def)

lemma set_delete_where [simp, table_simps]: "set (delete_where P t) = {r \<in> set t. \<not> P r}"
  by (simp add: delete_where_def)

lemma update_where_Nil [simp, table_simps]: "update_where P f [] = []"
  by (simp add: update_where_def)

lemma update_where_Cons [simp, table_simps]:
  "update_where P f (r # t) = (if P r then f r else r) # update_where P f t"
  by (simp add: update_where_def)

lemma delete_where_Nil [simp, table_simps]: "delete_where P [] = []"
  by (simp add: delete_where_def)

lemma delete_where_Cons [simp, table_simps]:
  "delete_where P (r # t) = (if P r then delete_where P t else r # delete_where P t)"
  by (simp add: delete_where_def)

lemma map_update_where: "(\<And>r. key (f r) = key r) \<Longrightarrow> map key (update_where P f t) = map key t"
  by (induction t) auto

lemma pk_ok_update_where [simp]:
  "(\<And>r. key (f r) = key r) \<Longrightarrow> pk_ok key (update_where P f t) \<longleftrightarrow> pk_ok key t"
  by (simp add: pk_ok_def map_update_where)

lemma tbl_has_update_where:
  "(\<And>r. key (f r) = key r) \<Longrightarrow> tbl_has key k (update_where P f t) \<longleftrightarrow> tbl_has key k t"
  by (induction t) auto

lemma tbl_find_update_where:
  "(\<And>r. key (f r) = key r) \<Longrightarrow>
     tbl_find key k (update_where P f t) = map_option (\<lambda>r. if P r then f r else r) (tbl_find key k t)"
  by (induction t) auto

lemma tbl_find_update_key:
  "(\<And>r. key (f r) = key r) \<Longrightarrow>
     tbl_find key k (update_where (\<lambda>r. key r = q) f t) =
       (if k = q then map_option f (tbl_find key k t) else tbl_find key k t)"
  by (induction t) auto

lemma pk_ok_filter: "pk_ok key t \<Longrightarrow> pk_ok key (filter P t)"
  by (induction t) (auto simp: pk_ok_def)

lemma pk_ok_delete_where [simp]: "pk_ok key t \<Longrightarrow> pk_ok key (delete_where P t)"
  by (simp add: delete_where_def pk_ok_filter)

lemma tbl_has_delete_key [simp, table_simps]:
  "tbl_has key k (delete_where (\<lambda>r. key r = q) t) \<longleftrightarrow> k \<noteq> q \<and> tbl_has key k t"
  by (induction t) auto

lemma tbl_find_delete_where_pk:
  "pk_ok key t \<Longrightarrow>
     tbl_find key k (delete_where P t) =
       (case tbl_find key k t of None \<Rightarrow> None | Some r \<Rightarrow> if P r then None else Some r)"
proof (induction t)
  case Nil
  then show ?case by simp
next
  case (Cons r t)
  then have "pk_ok key t" and "\<not> tbl_has key (key r) t"
    by (auto simp: pk_ok_def tbl_has_def image_iff)
  then show ?case using Cons.IH by auto
qed

lemma pk_ok_insert_ignore [simp]: "pk_ok key t \<Longrightarrow> pk_ok key (insert_ignore key r t)"
  by (simp add: insert_ignore_def)

lemma pk_ok_insert_replace [simp]: "pk_ok key t \<Longrightarrow> pk_ok key (insert_replace key r t)"
  by (simp add: insert_replace_def)

lemma pk_ok_upsert [simp]:
  "(\<And>r. key (f r) = key r) \<Longrightarrow> pk_ok key t \<Longrightarrow> pk_ok key (upsert key r f t)"
  by (simp add: upsert_def)

lemma tbl_has_insert_ignore [simp, table_simps]:
  "tbl_has key k (insert_ignore key r t) \<longleftrightarrow> key r = k \<or> tbl_has key k t"
  by (auto simp: insert_ignore_def)

lemma tbl_has_insert_replace [simp, table_simps]:
  "tbl_has key k (insert_replace key r t) \<longleftrightarrow> key r = k \<or> tbl_has key k t"
  by (auto simp: insert_replace_def)

lemma tbl_find_insert_ignore:
  "tbl_find key k (insert_ignore key r t) =
     (case tbl_find key k t of
        Some x \<Rightarrow> Some x
      | None \<Rightarrow> if key r = k then Some r else None)"
  by (auto simp: insert_ignore_def tbl_find_append split: option.splits)

lemma tbl_find_insert_replace:
  "tbl_find key k (insert_replace key r t) =
     (if key r = k then Some r else tbl_find key k t)"
proof -
  have "tbl_find key k (delete_where (\<lambda>x. key x = q) t) =
          (if k = q then None else tbl_find key k t)" for q
    by (induction t) auto
  then show ?thesis
    by (auto simp: insert_replace_def tbl_find_append split: option.splits)
qed

lemma tbl_find_upsert:
  assumes "\<And>r. key (f r) = key r"
  shows "tbl_find key k (upsert key r f t) =
     (if key r = k then (case tbl_find key k t of None \<Rightarrow> Some r | Some x \<Rightarrow> Some (f x))
      else tbl_find key k t)"
  using assms
  by (auto simp: upsert_def tbl_find_append tbl_find_update_key
      split: option.splits dest: tbl_find_has)

lemma rowcount_pk_key:
  assumes "pk_ok key t"
  shows "rowcount (\<lambda>r. key r = k \<and> P r) t =
           (case tbl_find key k t of None \<Rightarrow> 0 | Some r \<Rightarrow> if P r then 1 else 0)"
  using assms
proof (induction t)
  case Nil
  then show ?case by (simp add: rowcount_def)
next
  case (Cons r t)
  then have pk: "pk_ok key t" and new: "\<not> tbl_has key (key r) t"
    by (auto simp: pk_ok_def tbl_has_def image_iff)
  have "rowcount (\<lambda>r. key r = k \<and> P r) t = 0" if "key r = k"
    using new that by (auto simp: rowcount_def tbl_has_def filter_empty_conv)
  then show ?case using Cons.IH [OF pk] by (auto simp: rowcount_def)
qed

lemma update_where_no_match: "rowcount P t = 0 \<Longrightarrow> update_where P f t = t"
  by (induction t) (auto simp: rowcount_def split: if_splits)

section \<open>The interface of a table written with \<open>ON CONFLICT DO NOTHING\<close>\<close>

text \<open>
  The client sees a lookup and an insert. The provider promises that the key constraint is
  kept, that an insert under a free key is visible, and that an insert under a taken key
  changes nothing. What follows for any such store is that the first row written under a
  key stays and that repeating an insert is harmless.
\<close>

locale first_wins =
  fixes lookup :: "'k \<Rightarrow> 't \<Rightarrow> 'r option"
    and insert_new :: "'r \<Rightarrow> 't \<Rightarrow> 't"
    and key :: "'r \<Rightarrow> 'k"
    and wf :: "'t \<Rightarrow> bool"
  assumes wf_insert: "wf t \<Longrightarrow> wf (insert_new r t)"
    and lookup_fresh: "wf t \<Longrightarrow> lookup (key r) t = None \<Longrightarrow> lookup (key r) (insert_new r t) = Some r"
    and insert_taken: "wf t \<Longrightarrow> lookup (key r) t = Some x \<Longrightarrow> insert_new r t = t"
    and lookup_other: "wf t \<Longrightarrow> k \<noteq> key r \<Longrightarrow> lookup k (insert_new r t) = lookup k t"
begin

lemma first_stays: "wf t \<Longrightarrow> lookup k t = Some x \<Longrightarrow> lookup k (insert_new r t) = Some x"
  by (cases "k = key r") (auto simp: insert_taken lookup_other)

lemma insert_idem: "wf t \<Longrightarrow> insert_new r (insert_new r t) = insert_new r t"
proof (cases "lookup (key r) t")
  case None
  assume wf: "wf t"
  then have "lookup (key r) (insert_new r t) = Some r"
    using None by (rule lookup_fresh)
  then show ?thesis using wf_insert [OF wf] by (rule insert_taken [rotated])
next
  case (Some x)
  assume "wf t"
  then show ?thesis using Some by (simp add: insert_taken)
qed

lemma fold_first_stays:
  "wf t \<Longrightarrow> lookup k t = Some x \<Longrightarrow> lookup k (fold insert_new rs t) = Some x"
  by (induction rs arbitrary: t) (auto simp: wf_insert first_stays)

end

lemma insert_ignore_first_wins:
  "first_wins (tbl_find key) (insert_ignore key) key (pk_ok key)"
  by unfold_locales
    (auto simp: tbl_find_insert_ignore insert_ignore_def tbl_find_append
        split: option.splits dest: tbl_find_has)

section \<open>Machines that keep an invariant\<close>

text \<open>
  A component is a state with operations; an operation takes an event (the call with its
  arguments and what the environment supplied during it), returns an output and the next
  state. A run executes a list of events.
\<close>

fun run_ops :: "('e \<Rightarrow> 's \<Rightarrow> 'o \<times> 's) \<Rightarrow> 'e list \<Rightarrow> 's \<Rightarrow> 'o list \<times> 's" where
  "run_ops ex [] s = ([], s)"
| "run_ops ex (e # es) s =
     (case ex e s of (x, s') \<Rightarrow> (case run_ops ex es s' of (xs, s'') \<Rightarrow> (x # xs, s'')))"

lemma run_ops_append:
  "run_ops ex (es @ fs) s =
     (case run_ops ex es s of (xs, s') \<Rightarrow>
        (case run_ops ex fs s' of (ys, s'') \<Rightarrow> (xs @ ys, s'')))"
  by (induction es arbitrary: s) (auto split: prod.splits)

lemma length_run_ops: "length (fst (run_ops ex es s)) = length es"
  by (induction es arbitrary: s) (auto split: prod.splits, metis fst_conv)

locale op_machine =
  fixes exec :: "'e \<Rightarrow> 's \<Rightarrow> 'o \<times> 's"
    and inv :: "'s \<Rightarrow> bool"
  assumes exec_inv: "inv s \<Longrightarrow> inv (snd (exec e s))"
begin

lemma run_inv: "inv s \<Longrightarrow> inv (snd (run_ops exec es s))"
proof (induction es arbitrary: s)
  case Nil
  then show ?case by simp
next
  case (Cons e es)
  from Cons.prems have "inv (snd (exec e s))" by (rule exec_inv)
  then show ?case using Cons.IH [of "snd (exec e s)"] by (auto split: prod.splits)
qed

text \<open>A condition that every operation keeps holds at the end of every run.\<close>

lemma run_stable:
  assumes keep: "\<And>s e. inv s \<Longrightarrow> P s \<Longrightarrow> P (snd (exec e s))"
  shows "inv s \<Longrightarrow> P s \<Longrightarrow> P (snd (run_ops exec es s))"
proof (induction es arbitrary: s)
  case Nil
  then show ?case by simp
next
  case (Cons e es)
  have "inv (snd (exec e s))" "P (snd (exec e s))"
    using Cons.prems exec_inv keep by auto
  then show ?case using Cons.IH [of "snd (exec e s)"] by (auto split: prod.splits)
qed

text \<open>If a stable condition rules an output out, no run from it has that output.\<close>

lemma run_never:
  assumes keep: "\<And>s e. inv s \<Longrightarrow> P s \<Longrightarrow> P (snd (exec e s))"
    and never: "\<And>s e. inv s \<Longrightarrow> P s \<Longrightarrow> \<not> bad (fst (exec e s))"
  shows "inv s \<Longrightarrow> P s \<Longrightarrow> x \<in> set (fst (run_ops exec es s)) \<Longrightarrow> \<not> bad x"
proof (induction es arbitrary: s)
  case Nil
  then show ?case by simp
next
  case (Cons e es)
  let ?s = "snd (exec e s)"
  have "inv ?s" "P ?s" using Cons.prems exec_inv keep by auto
  moreover have "\<not> bad (fst (exec e s))" using Cons.prems never by blast
  ultimately show ?case
    using Cons.IH [of ?s] Cons.prems(3) by (auto split: prod.splits)
qed

text \<open>
  The same for runs whose events satisfy a condition, with outputs judged together with the
  events that produced them.
\<close>

lemma run_never_on:
  assumes keep: "\<And>s e. inv s \<Longrightarrow> P s \<Longrightarrow> A e \<Longrightarrow> P (snd (exec e s))"
    and never: "\<And>s e. inv s \<Longrightarrow> P s \<Longrightarrow> A e \<Longrightarrow> \<not> bad (e, fst (exec e s))"
  shows "inv s \<Longrightarrow> P s \<Longrightarrow> (\<And>e. e \<in> set es \<Longrightarrow> A e) \<Longrightarrow>
     P (snd (run_ops exec es s)) \<and> filter bad (zip es (fst (run_ops exec es s))) = []"
proof (induction es arbitrary: s)
  case Nil
  then show ?case by simp
next
  case (Cons e es)
  let ?s = "snd (exec e s)"
  have "inv ?s" "P ?s" using Cons.prems exec_inv keep by auto
  moreover have "\<not> bad (e, fst (exec e s))" using Cons.prems never by simp
  ultimately show ?case
    using Cons.IH [of ?s] Cons.prems(3) by (auto split: prod.splits)
qed

text \<open>If the output itself establishes that condition, it occurs at most once in a run.\<close>

lemma run_once:
  assumes keep: "\<And>s e. inv s \<Longrightarrow> P s \<Longrightarrow> P (snd (exec e s))"
    and never: "\<And>s e. inv s \<Longrightarrow> P s \<Longrightarrow> \<not> bad (fst (exec e s))"
    and makes: "\<And>s e. inv s \<Longrightarrow> bad (fst (exec e s)) \<Longrightarrow> P (snd (exec e s))"
  shows "inv s \<Longrightarrow> length (filter bad (fst (run_ops exec es s))) \<le> 1"
proof (induction es arbitrary: s)
  case Nil
  then show ?case by simp
next
  case (Cons e es)
  let ?s = "snd (exec e s)"
  have inv: "inv ?s" using Cons.prems by (rule exec_inv)
  have run: "fst (run_ops exec (e # es) s) = fst (exec e s) # fst (run_ops exec es ?s)"
    by (auto split: prod.splits)
  show ?case
  proof (cases "bad (fst (exec e s))")
    case True
    then have "P ?s" using makes Cons.prems by blast
    then have "\<forall>x \<in> set (fst (run_ops exec es ?s)). \<not> bad x"
      using run_never [of P bad, OF keep never] inv by blast
    then show ?thesis unfolding run by (simp add: filter_False)
  next
    case False
    then show ?thesis unfolding run using Cons.IH [OF inv] by simp
  qed
qed

lemma run_once_on:
  assumes keep: "\<And>s e. inv s \<Longrightarrow> P s \<Longrightarrow> P (snd (exec e s))"
    and never: "\<And>s e. inv s \<Longrightarrow> P s \<Longrightarrow> \<not> bad (e, fst (exec e s))"
    and makes: "\<And>s e. inv s \<Longrightarrow> bad (e, fst (exec e s)) \<Longrightarrow> P (snd (exec e s))"
  shows "inv s \<Longrightarrow> length (filter bad (zip es (fst (run_ops exec es s)))) \<le> 1"
proof (induction es arbitrary: s)
  case Nil
  then show ?case by simp
next
  case (Cons e es)
  let ?s = "snd (exec e s)"
  have inv: "inv ?s" using Cons.prems by (rule exec_inv)
  have run: "fst (run_ops exec (e # es) s) = fst (exec e s) # fst (run_ops exec es ?s)"
    by (auto split: prod.splits)
  show ?case
  proof (cases "bad (e, fst (exec e s))")
    case True
    then have "P ?s" using makes Cons.prems by blast
    then have "filter bad (zip es (fst (run_ops exec es ?s))) = []"
      using run_never_on [of P "\<lambda>_. True" bad] keep never inv by blast
    then show ?thesis unfolding run by simp
  next
    case False
    then show ?thesis unfolding run using Cons.IH [OF inv] by simp
  qed
qed

text \<open>A quantity that no operation decreases is not decreased by a run.\<close>

lemma run_mono:
  fixes f :: "'s \<Rightarrow> 'b::preorder"
  assumes mono: "\<And>s e. inv s \<Longrightarrow> f s \<le> f (snd (exec e s))"
  shows "inv s \<Longrightarrow> f s \<le> f (snd (run_ops exec es s))"
proof (induction es arbitrary: s)
  case Nil
  then show ?case by simp
next
  case (Cons e es)
  have "f s \<le> f (snd (exec e s))" using Cons.prems by (rule mono)
  also have "\<dots> \<le> f (snd (run_ops exec es (snd (exec e s))))"
    using Cons.IH exec_inv Cons.prems by blast
  finally show ?case by (auto split: prod.splits)
qed

end

end
