(* ===== verification/Auth_Tokens.thy ===== *)
theory Auth_Tokens
  imports Prelude
begin

text \<open>
  The start-authorization tokens of \<open>tram/agent/auth_tokens.py\<close>: minting, parsing and
  validation. The HMAC-SHA256 hex digest is a parameter \<open>sign\<close> (payload, then secret);
  theorems that need it state that a hex digest contains no separator and is ASCII.
\<close>

section \<open>Data\<close>

record auth_result =
  ar_valid :: bool
  ar_reason :: "string option"
  ar_attempt_id :: "string option"
  ar_run_id :: "string option"
  ar_generation :: "int option"
  ar_slot_id :: "string option"
  ar_issued_at_unix :: "int option"
  ar_ttl_s :: "int option"

datatype py_error = ValueError string | TypeError string

definition field_count :: nat where
  "field_count = 7"

abbreviation bar :: char where
  "bar \<equiv> CHR ''|''"

definition invalid_auth :: "string \<Rightarrow> auth_result" where
  "invalid_auth why =
     \<lparr>ar_valid = False, ar_reason = Some why, ar_attempt_id = None, ar_run_id = None,
      ar_generation = None, ar_slot_id = None, ar_issued_at_unix = None, ar_ttl_s = None\<rparr>"

section \<open>Minting\<close>

definition payload_fields ::
  "string \<Rightarrow> string \<Rightarrow> int \<Rightarrow> string \<Rightarrow> string \<Rightarrow> int \<Rightarrow> int \<Rightarrow> string list" where
  "payload_fields attempt_id run_id generation slot_id worker_session issued_at_unix ttl_s =
     [attempt_id, run_id, py_str generation, slot_id, worker_session,
      py_str issued_at_unix, py_str ttl_s]"

definition auth_payload ::
  "string \<Rightarrow> string \<Rightarrow> int \<Rightarrow> string \<Rightarrow> string \<Rightarrow> int \<Rightarrow> int \<Rightarrow> string" where
  "auth_payload attempt_id run_id generation slot_id worker_session issued_at_unix ttl_s =
     join_with bar
       (payload_fields attempt_id run_id generation slot_id worker_session issued_at_unix ttl_s)"

definition mint_start_authorization ::
  "(string \<Rightarrow> string \<Rightarrow> string) \<Rightarrow> string \<Rightarrow> string \<Rightarrow> int \<Rightarrow> string \<Rightarrow> string \<Rightarrow> int \<Rightarrow> string \<Rightarrow> int
    \<Rightarrow> py_error + string" where
  "mint_start_authorization sign attempt_id run_id generation slot_id worker_session ttl_s secret
       issued_at_unix =
     (if list_ex (\<lambda>f. bar \<in> set f)
           (payload_fields attempt_id run_id generation slot_id worker_session issued_at_unix ttl_s)
      then Inl (ValueError ''start-authorization fields must not contain '|' '')
      else
        (let payload =
           auth_payload attempt_id run_id generation slot_id worker_session issued_at_unix ttl_s
         in Inr (payload @ [bar] @ sign payload secret)))"

section \<open>Validation\<close>

definition is_ascii :: "string \<Rightarrow> bool" where
  "is_ascii s \<longleftrightarrow> list_all (\<lambda>c. (of_char c :: nat) < 128) s"

text \<open>\<open>hmac.compare_digest\<close> on strings raises \<open>TypeError\<close> unless both are ASCII.\<close>

definition compare_digest :: "string \<Rightarrow> string \<Rightarrow> py_error + bool" where
  "compare_digest a b =
     (if is_ascii a \<and> is_ascii b then Inr (a = b)
      else Inl (TypeError ''comparing strings with non-ASCII characters is not supported''))"

text \<open>
  The signature test: the current secret first, then the previous one when it is set.
\<close>

definition signature_ok ::
  "(string \<Rightarrow> string \<Rightarrow> string) \<Rightarrow> string \<Rightarrow> string \<Rightarrow> string \<Rightarrow> string option \<Rightarrow> py_error + bool" where
  "signature_ok sign payload mac current_secret previous_secret =
     (case compare_digest mac (sign payload current_secret) of
        Inl e \<Rightarrow> Inl e
      | Inr True \<Rightarrow> Inr True
      | Inr False \<Rightarrow>
          (case previous_secret of
             None \<Rightarrow> Inr False
           | Some s \<Rightarrow> compare_digest mac (sign payload s)))"

definition validate_fields ::
  "string \<Rightarrow> string \<Rightarrow> int \<Rightarrow> string \<Rightarrow> string \<Rightarrow> int \<Rightarrow> int \<Rightarrow> string \<Rightarrow> int \<Rightarrow> int \<Rightarrow> int
    \<Rightarrow> auth_result" where
  "validate_fields attempt_id run_id generation slot_id token_session issued_at_unix ttl_s
       worker_session max_ttl_s clock_skew_s now_unix =
     (if token_session \<noteq> worker_session then invalid_auth ''worker session mismatch''
      else if issued_at_unix > now_unix + clock_skew_s then invalid_auth ''issued in the future''
      else if ttl_s < 0 then invalid_auth ''negative ttl''
      else if ttl_s > max_ttl_s then invalid_auth ''ttl exceeds max''
      else if issued_at_unix + ttl_s < now_unix then invalid_auth ''expired''
      else
        \<lparr>ar_valid = True, ar_reason = None, ar_attempt_id = Some attempt_id,
         ar_run_id = Some run_id, ar_generation = Some generation, ar_slot_id = Some slot_id,
         ar_issued_at_unix = Some issued_at_unix, ar_ttl_s = Some ttl_s\<rparr>)"

definition validate_start_authorization ::
  "(string \<Rightarrow> string \<Rightarrow> string) \<Rightarrow> string \<Rightarrow> string \<Rightarrow> string \<Rightarrow> string option \<Rightarrow> int \<Rightarrow> int \<Rightarrow> int
    \<Rightarrow> py_error + auth_result" where
  "validate_start_authorization sign token worker_session current_secret previous_secret
       max_ttl_s clock_skew_s now_unix =
     (case rsplit1 bar token of
        None \<Rightarrow> Inr (invalid_auth ''malformed token'')
      | Some (payload, mac) \<Rightarrow>
          (case split_on bar payload of
             [attempt_id, run_id, generation_raw, slot_id, token_session, issued_at_raw, ttl_raw] \<Rightarrow>
               (case (py_int generation_raw, py_int issued_at_raw, py_int ttl_raw) of
                  (Some generation, Some issued_at_unix, Some ttl_s) \<Rightarrow>
                    if current_secret = [] \<and> (previous_secret = None \<or> previous_secret = Some [])
                    then Inr (invalid_auth ''no session secret configured'')
                    else
                      (case signature_ok sign payload mac current_secret previous_secret of
                         Inl e \<Rightarrow> Inl e
                       | Inr False \<Rightarrow> Inr (invalid_auth ''bad signature'')
                       | Inr True \<Rightarrow>
                           Inr (validate_fields attempt_id run_id generation slot_id token_session
                                  issued_at_unix ttl_s worker_session max_ttl_s clock_skew_s
                                  now_unix))
                | _ \<Rightarrow> Inr (invalid_auth ''malformed token fields''))
           | _ \<Rightarrow> Inr (invalid_auth ''malformed token payload'')))"

section \<open>Facts\<close>

lemma payload_fields_nonempty [simp]: "payload_fields a r g s w i t \<noteq> []"
  by (simp add: payload_fields_def)

lemma validate_fields_valid:
  "ar_valid (validate_fields a r g s w i t ws mx sk now) \<longleftrightarrow>
     w = ws \<and> i \<le> now + sk \<and> 0 \<le> t \<and> t \<le> mx \<and> now \<le> i + t"
  by (auto simp: validate_fields_def invalid_auth_def)

text \<open>What a successful validation has established about the token.\<close>

lemma validate_validE:
  assumes "validate_start_authorization sign token ws cur prev mx sk now = Inr res"
    and "ar_valid res"
  obtains payload mac attempt_id run_id generation_raw slot_id issued_raw ttl_raw
      generation issued ttl
  where "rsplit1 bar token = Some (payload, mac)"
    and "split_on bar payload =
           [attempt_id, run_id, generation_raw, slot_id, ws, issued_raw, ttl_raw]"
    and "py_int generation_raw = Some generation" and "py_int issued_raw = Some issued"
    and "py_int ttl_raw = Some ttl"
    and "signature_ok sign payload mac cur prev = Inr True"
    and "\<not> (cur = [] \<and> (prev = None \<or> prev = Some []))"
    and "issued \<le> now + sk" and "0 \<le> ttl" and "ttl \<le> mx" and "now \<le> issued + ttl"
    and "res = \<lparr>ar_valid = True, ar_reason = None, ar_attempt_id = Some attempt_id,
         ar_run_id = Some run_id, ar_generation = Some generation, ar_slot_id = Some slot_id,
         ar_issued_at_unix = Some issued, ar_ttl_s = Some ttl\<rparr>"
  using assms
  by (fastforce simp: validate_start_authorization_def validate_fields_def invalid_auth_def
      split: option.splits list.splits sum.splits bool.splits if_splits prod.splits)

lemma signature_ok_True:
  "signature_ok sign payload mac cur prev = Inr True \<Longrightarrow>
     mac = sign payload cur \<or> (\<exists>s. prev = Some s \<and> mac = sign payload s)"
  by (auto simp: signature_ok_def compare_digest_def split: sum.splits bool.splits option.splits
      if_splits)

text \<open>The token carries its lifetime: two acceptances differ only in the time of the check.\<close>

lemma validate_times_agree:
  assumes "validate_start_authorization sign token ws cur prev mx sk now = Inr res"
    and "ar_valid res"
    and "validate_start_authorization sign' token ws' cur' prev' mx' sk' now' = Inr res'"
    and "ar_valid res'"
  shows "ar_issued_at_unix res = ar_issued_at_unix res' \<and> ar_ttl_s res = ar_ttl_s res'"
  using assms(1,2) by (rule validate_validE, use assms(3,4) in \<open>rule validate_validE\<close>) auto

lemma mint_Inr:
  "mint_start_authorization sign a r g s w t sec i = Inr tok \<Longrightarrow>
     bar \<notin> set a \<and> bar \<notin> set r \<and> bar \<notin> set s \<and> bar \<notin> set w \<and>
     tok = auth_payload a r g s w i t @ [bar] @ sign (auth_payload a r g s w i t) sec"
  by (auto simp: mint_start_authorization_def payload_fields_def Let_def split: if_splits)

lemma auth_payload_split:
  assumes "bar \<notin> set a" "bar \<notin> set r" "bar \<notin> set s" "bar \<notin> set w"
  shows "split_on bar (auth_payload a r g s w i t) =
           [a, r, py_str g, s, w, py_str i, py_str t]"
proof -
  have "split_on bar (join_with bar (payload_fields a r g s w i t)) = payload_fields a r g s w i t"
    using assms by (intro split_on_join) (auto simp: payload_fields_def)
  then show ?thesis by (simp add: auth_payload_def payload_fields_def)
qed

lemma signature_ok_known:
  assumes "is_ascii (sign p cur)" "is_ascii (sign p sec)" "cur = sec \<or> prev = Some sec"
  shows "signature_ok sign p (sign p sec) cur prev = Inr True"
  using assms by (auto simp: signature_ok_def compare_digest_def split: bool.splits)

section \<open>Properties\<close>

text \<open>The two documented facts about a hex digest that minting and validation rely on.\<close>

definition hex_digest :: "(string \<Rightarrow> string \<Rightarrow> string) \<Rightarrow> bool" where
  "hex_digest sign \<longleftrightarrow> (\<forall>p s. bar \<notin> set (sign p s) \<and> is_ascii (sign p s))"

text \<open>C6. A minted token is accepted, with exactly the fields it was minted for, by a worker that
  holds the minting secret as its current or as its previous one, at any time from the skew
  before its issue to the end of its lifetime.\<close>

theorem mint_validate_roundtrip:
  assumes "hex_digest sign"
    and "mint_start_authorization sign a r g s w ttl sec issued = Inr tok"
    and "cur = sec \<or> prev = Some sec" "sec \<noteq> []"
    and "0 \<le> ttl" "ttl \<le> mx" "issued \<le> now + sk" "now \<le> issued + ttl"
  shows "validate_start_authorization sign tok w cur prev mx sk now =
     Inr \<lparr>ar_valid = True, ar_reason = None, ar_attempt_id = Some a, ar_run_id = Some r,
          ar_generation = Some g, ar_slot_id = Some s, ar_issued_at_unix = Some issued,
          ar_ttl_s = Some ttl\<rparr>"
proof -
  let ?p = "auth_payload a r g s w issued ttl"
  from mint_Inr [OF assms(2)] have tok: "tok = ?p @ bar # sign ?p sec"
    and bars: "bar \<notin> set a" "bar \<notin> set r" "bar \<notin> set s" "bar \<notin> set w" by auto
  have "rsplit1 bar tok = Some (?p, sign ?p sec)"
    unfolding tok using assms(1) by (intro rsplit1_append) (simp add: hex_digest_def)
  moreover have "signature_ok sign ?p (sign ?p sec) cur prev = Inr True"
    using assms(1,3) by (intro signature_ok_known) (auto simp: hex_digest_def)
  moreover have "\<not> (cur = [] \<and> (prev = None \<or> prev = Some []))" using assms(3,4) by auto
  ultimately show ?thesis
    using assms(5-8)
    by (auto simp: validate_start_authorization_def auth_payload_split [OF bars] py_int_py_str
        validate_fields_def)
qed

theorem mint_validate_roundtrip_witness:
  "\<exists>tok. mint_start_authorization (\<lambda>p s. ''00ff'') ''a'' ''r'' 3 '''' ''w'' 60 ''old'' 100 = Inr tok \<and>
     validate_start_authorization (\<lambda>p s. ''00ff'') tok ''w'' ''new'' (Some ''old'') 300 30 150 =
     Inr \<lparr>ar_valid = True, ar_reason = None, ar_attempt_id = Some ''a'', ar_run_id = Some ''r'',
          ar_generation = Some 3, ar_slot_id = Some '''', ar_issued_at_unix = Some 100,
          ar_ttl_s = Some 60\<rparr>"
proof -
  let ?sign = "\<lambda>(p::string) (s::string). ''00ff''"
  obtain tok where tok: "mint_start_authorization ?sign ''a'' ''r'' 3 '''' ''w'' 60 ''old'' 100 = Inr tok"
    by (simp add: mint_start_authorization_def payload_fields_def)
  have "hex_digest ?sign" by (simp add: hex_digest_def is_ascii_def)
  from mint_validate_roundtrip [OF this tok, of "''new''" "Some ''old''" 300 150 30] tok
  show ?thesis by simp
qed

text \<open>C7. Every accepted token names this worker session and carries a signature of its payload
  under the current or the previous secret.\<close>

theorem accepted_token_authentic:
  assumes "validate_start_authorization sign tok ws cur prev mx sk now = Inr res" "ar_valid res"
  shows "\<exists>payload k. tok = payload @ [bar] @ sign payload k \<and> (k = cur \<or> prev = Some k) \<and>
           split_on bar payload ! 4 = ws \<and> length (split_on bar payload) = field_count"
  using assms
proof (rule validate_validE)
  fix payload mac and attempt_id run_id generation_raw slot_id issued_raw ttl_raw :: string
  assume "rsplit1 bar tok = Some (payload, mac)"
    and split: "split_on bar payload =
           [attempt_id, run_id, generation_raw, slot_id, ws, issued_raw, ttl_raw]"
    and sig: "signature_ok sign payload mac cur prev = Inr True"
  then have "tok = payload @ [bar] @ mac" using rsplit1_Some by fastforce
  moreover obtain k where "mac = sign payload k" "k = cur \<or> prev = Some k"
    using signature_ok_True [OF sig] by blast
  ultimately show ?thesis using split by (intro exI [of _ payload] exI [of _ k])
      (simp add: field_count_def)
qed

theorem accepted_token_authentic_witness:
  "\<exists>payload k. ''a|r|1||w|100|60|fk'' = payload @ [bar] @ (''f'' @ k) \<and> (k = ''k'' \<or> None = Some k) \<and>
     split_on bar payload ! 4 = ''w'' \<and> length (split_on bar payload) = field_count"
proof -
  have v: "case validate_start_authorization (\<lambda>p s. ''f'' @ s) ''a|r|1||w|100|60|fk'' ''w'' ''k'' None 300 30 110
        of Inl e \<Rightarrow> False | Inr res \<Rightarrow> ar_valid res"
    by code_simp
  then obtain res where "validate_start_authorization (\<lambda>p s. ''f'' @ s) ''a|r|1||w|100|60|fk'' ''w'' ''k'' None
      300 30 110 = Inr res" "ar_valid res" by (auto split: sum.splits)
  from accepted_token_authentic [OF this] show ?thesis by simp
qed

text \<open>C8. The rotation overlap is bounded: a token accepted once is refused at every time later
  than the maximal lifetime plus the skew after that acceptance, whichever secrets are then in
  force.\<close>

theorem acceptance_window_bounded:
  assumes "validate_start_authorization sign tok ws cur prev mx sk now = Inr res" "ar_valid res"
    and "validate_start_authorization sign tok ws cur' prev' mx sk now' = Inr res'" "ar_valid res'"
  shows "now' \<le> now + mx + sk"
  using assms(1,2)
proof (rule validate_validE)
  fix generation issued ttl and attempt_id run_id slot_id :: string
  assume a: "issued \<le> now + sk"
    and "res = \<lparr>ar_valid = True, ar_reason = None, ar_attempt_id = Some attempt_id,
         ar_run_id = Some run_id, ar_generation = Some generation, ar_slot_id = Some slot_id,
         ar_issued_at_unix = Some issued, ar_ttl_s = Some ttl\<rparr>"
  then have "ar_issued_at_unix res' = Some issued"
    using validate_times_agree [OF assms] by simp
  then show ?thesis using assms(3,4) a by (auto elim!: validate_validE)
qed

theorem acceptance_window_bounded_witness:
  "\<exists>res res'. validate_start_authorization (\<lambda>p s. ''f'' @ s) ''a|r|1||w|100|60|fk'' ''w'' ''k'' None 300 30 110 = Inr res \<and>
     validate_start_authorization (\<lambda>p s. ''f'' @ s) ''a|r|1||w|100|60|fk'' ''w'' ''n'' (Some ''k'') 300 30 150 = Inr res' \<and>
     (150::int) \<le> 110 + 300 + 30"
proof -
  let ?v = "validate_start_authorization (\<lambda>p s. ''f'' @ s) ''a|r|1||w|100|60|fk'' ''w''"
  have "case ?v ''k'' None 300 30 110 of Inl e \<Rightarrow> False | Inr res \<Rightarrow> ar_valid res"
    and "case ?v ''n'' (Some ''k'') 300 30 150 of Inl e \<Rightarrow> False | Inr res \<Rightarrow> ar_valid res" by code_simp+
  then obtain res res' where r: "?v ''k'' None 300 30 110 = Inr res" "ar_valid res"
      "?v ''n'' (Some ''k'') 300 30 150 = Inr res'" "ar_valid res'"
    by (auto split: sum.splits)
  from acceptance_window_bounded [OF this] r show ?thesis by blast
qed

text \<open>A well-formed token whose signature part has a character outside ASCII makes validation
  raise \<open>TypeError\<close> instead of answering that the signature is bad.\<close>

theorem non_ascii_mac_raises:
  assumes "rsplit1 bar tok = Some (payload, mac)" "\<not> is_ascii mac"
    and "split_on bar payload = [a, r, g, s, w, i, t]"
    and "py_int g = Some gi" "py_int i = Some ii" "py_int t = Some ti" "cur \<noteq> []"
  shows "\<exists>m. validate_start_authorization sign tok ws cur prev mx sk now = Inl (TypeError m)"
  using assms by (simp add: validate_start_authorization_def signature_ok_def compare_digest_def)

theorem non_ascii_mac_raises_witness:
  "\<exists>m. validate_start_authorization (\<lambda>p s. ''f'') (''a|r|1||w|100|60|'' @ [char_of (200::nat)]) ''w'' ''k'' None
     300 30 110 = Inl (TypeError m)"
  by (rule non_ascii_mac_raises [where payload = "''a|r|1||w|100|60''" and mac = "[char_of (200::nat)]"])
    (code_simp, code_simp, code_simp, code_simp, code_simp, code_simp, code_simp)

end
