(* ===== verification/Journal.thy ===== *)
theory Journal
  imports Sql_Table Auth_Tokens
begin

text \<open>
  The worker journal of \<open>tram/agent/journal.py\<close>: the SQLite tables as lists of rows
  (\<open>jdb\<close>), the process-local state of \<open>WorkerJournal\<close> around them (\<open>wjournal\<close>), and one
  definition per method. A transaction that raises or rolls back returns the database it
  started from. What the outside supplies to a call is an argument: the clock readings
  (\<open>clk i\<close> is the call's reading number \<open>i\<close>), the outcome of opening and probing the file
  and its size (\<open>disk\<close>), the configuration read from the environment (\<open>jcfg\<close>), and the two
  hash functions. Timestamps are instants; the source stores them as UTC ISO-8601 text,
  whose byte order is the order of the instants.
\<close>

section \<open>Data\<close>

datatype rstate = Reserved | Running | Completed | Interrupted

record reservation =
  r_attempt :: string
  r_run :: string
  r_pipeline :: string
  r_generation :: int
  r_slot :: string
  r_session :: string
  r_reserved_at :: instant
  r_state :: rstate
  r_thread_started :: bool

record tombstone =
  t_attempt :: string
  t_run :: string
  t_reason :: string
  t_revoked_at :: instant
  t_epoch :: int

record start_auth =
  a_attempt :: string
  a_run :: string
  a_epoch :: int
  a_token_hash :: string
  a_issued_at :: instant
  a_expires_at :: instant

record watermark =
  w_epoch :: int
  w_ms :: int
  w_updated_at :: instant

record completion =
  c_attempt :: string
  c_run :: string
  c_result :: string
  c_completed_at :: instant
  c_acked :: bool
  c_acked_at :: "instant option"

record outbox_row =
  o_seq :: int
  o_attempt :: string
  o_kind :: string
  o_payload :: string
  o_created_at :: instant
  o_next_at :: instant
  o_attempts :: int
  o_last_error :: "string option"

text \<open>
  The database. \<open>meta_epoch\<close> is the \<open>session_epoch\<close> row of \<open>journal_meta\<close>; \<open>last_seq\<close> is
  the \<open>AUTOINCREMENT\<close> counter of \<open>outbox\<close>. The table \<open>spool_entries\<close> is created by the schema
  and read or written by no method.
\<close>

record jdb =
  meta_epoch :: "int option"
  reservations :: "reservation list"
  tombstones :: "tombstone list"
  authorizations :: "start_auth list"
  watermarks :: "watermark list"
  completions :: "completion list"
  outbox :: "outbox_row list"
  last_seq :: int

datatype fatal_kind = Unavailable | Corrupt

record wjournal =
  jdb_of :: jdb
  conn_open :: bool
  fatal :: "(fatal_kind \<times> string) option"
  quarantined :: bool
  quota_bytes :: int
  headroom_bytes :: int

datatype jerror =
    JournalErr string
  | JournalUnavailable string
  | AdmissionClosed string
  | AdmissionConflict string
  | PyError py_error
  | OverflowErr

text \<open>What SQLite answers to opening the file and to the health probe.\<close>

datatype sq_outcome = SqOk | SqOperational string | SqDatabase string | SqOther string

datatype probe_outcome = ProbeOk | ProbeOperational string | ProbeDatabase string

record disk =
  dk_open :: sq_outcome
  dk_probe :: probe_outcome
  dk_size :: int

record jcfg =
  cfg_max_ttl_s :: int
  cfg_skew_s :: int
  cfg_audit_retention_s :: int
  cfg_replay_retention_s :: int

definition empty_jdb :: jdb where
  "empty_jdb = \<lparr>meta_epoch = None, reservations = [], tombstones = [], authorizations = [],
     watermarks = [], completions = [], outbox = [], last_seq = 0\<rparr>"

section \<open>Opening and transactions\<close>

text \<open>Schema creation: \<open>INSERT OR IGNORE\<close> of the first session epoch.\<close>

definition init_schema :: "jdb \<Rightarrow> jdb" where
  "init_schema d = (case meta_epoch d of None \<Rightarrow> d\<lparr>meta_epoch := Some 1\<rparr> | Some _ \<Rightarrow> d)"

definition set_fatal :: "fatal_kind \<Rightarrow> string \<Rightarrow> wjournal \<Rightarrow> wjournal" where
  "set_fatal k m j = j\<lparr>fatal := Some (k, m)\<rparr>"

definition quarantine_if_corrupt :: "wjournal \<Rightarrow> wjournal" where
  "quarantine_if_corrupt j = j\<lparr>quarantined := True\<rparr>"

text \<open>The error mapping shared by the constructor, \<open>_ensure_open\<close> and the health probe.\<close>

definition classify_failure :: "sq_outcome \<Rightarrow> wjournal \<Rightarrow> wjournal" where
  "classify_failure oc j =
     (case oc of
        SqOk \<Rightarrow> j
      | SqOperational m \<Rightarrow> set_fatal Unavailable m j
      | SqDatabase m \<Rightarrow> quarantine_if_corrupt (set_fatal Corrupt m j)
      | SqOther m \<Rightarrow> set_fatal Unavailable m j)"

definition open_journal :: "disk \<Rightarrow> wjournal \<Rightarrow> wjournal" where
  "open_journal dk j =
     (case dk_open dk of
        SqOk \<Rightarrow> j\<lparr>jdb_of := init_schema (jdb_of j), conn_open := True\<rparr>
      | oc \<Rightarrow> classify_failure oc j)"

definition init_journal :: "disk \<Rightarrow> jdb \<Rightarrow> int \<Rightarrow> int \<Rightarrow> wjournal" where
  "init_journal dk d quota_mb headroom_mb =
     open_journal dk
       \<lparr>jdb_of = d, conn_open = False, fatal = None, quarantined = False,
        quota_bytes = max quota_mb 0 * 1024 * 1024,
        headroom_bytes = max headroom_mb 0 * 1024 * 1024\<rparr>"

definition close_journal :: "wjournal \<Rightarrow> wjournal" where
  "close_journal j = j\<lparr>conn_open := False\<rparr>"

definition fatal_text :: "fatal_kind \<Rightarrow> string" where
  "fatal_text k = (case k of Unavailable \<Rightarrow> ''unavailable'' | Corrupt \<Rightarrow> ''corrupt'')"

definition fatal_error :: "fatal_kind \<Rightarrow> string \<Rightarrow> jerror" where
  "fatal_error k m = JournalUnavailable (''journal '' @ fatal_text k @ '': '' @ m)"

definition ensure_open :: "disk \<Rightarrow> wjournal \<Rightarrow> jerror option \<times> wjournal" where
  "ensure_open dk j =
     (case fatal j of
        Some (k, m) \<Rightarrow> (Some (fatal_error k m), j)
      | None \<Rightarrow>
          if conn_open j then (None, j)
          else
            (let j' = open_journal dk j
             in case fatal j' of
                  Some (k, m) \<Rightarrow> (Some (fatal_error k m), j')
                | None \<Rightarrow> (None, j')))"

text \<open>
  \<open>_txn\<close>: the body returns its result and the new database, or an error, after which the
  rollback leaves the database as it was.
\<close>

definition txn :: "(jdb \<Rightarrow> jerror + ('a \<times> jdb)) \<Rightarrow> disk \<Rightarrow> wjournal \<Rightarrow> (jerror + 'a) \<times> wjournal" where
  "txn body dk j =
     (case ensure_open dk j of
        (Some e, j') \<Rightarrow> (Inl e, j')
      | (None, j') \<Rightarrow>
          (case body (jdb_of j') of
             Inl e \<Rightarrow> (Inl e, j')
           | Inr (x, d) \<Rightarrow> (Inr x, j'\<lparr>jdb_of := d\<rparr>)))"

text \<open>Reads outside a transaction.\<close>

definition jread :: "(jdb \<Rightarrow> 'a) \<Rightarrow> disk \<Rightarrow> wjournal \<Rightarrow> (jerror + 'a) \<times> wjournal" where
  "jread f dk j =
     (case ensure_open dk j of
        (Some e, j') \<Rightarrow> (Inl e, j')
      | (None, j') \<Rightarrow> (Inr (f (jdb_of j')), j'))"

definition session_epoch_locked :: "jdb \<Rightarrow> int" where
  "session_epoch_locked d = (case meta_epoch d of None \<Rightarrow> 0 | Some e \<Rightarrow> e)"

definition advance_watermark_locked :: "int \<Rightarrow> int \<Rightarrow> instant \<Rightarrow> jdb \<Rightarrow> jdb" where
  "advance_watermark_locked epoch now_ms now_iso d =
     d\<lparr>watermarks :=
         upsert w_epoch \<lparr>w_epoch = epoch, w_ms = now_ms, w_updated_at = now_iso\<rparr>
           (\<lambda>w. w\<lparr>w_ms := max (w_ms w) now_ms, w_updated_at := now_iso\<rparr>) (watermarks d)\<rparr>"

definition watermark_of :: "int \<Rightarrow> jdb \<Rightarrow> int option" where
  "watermark_of epoch d = map_option w_ms (tbl_find w_epoch epoch (watermarks d))"

section \<open>Health\<close>

datatype health_state = Ok | HUnavailable | HCorrupt | HQuota

definition health_of_fatal :: "fatal_kind \<Rightarrow> health_state" where
  "health_of_fatal k = (case k of Unavailable \<Rightarrow> HUnavailable | Corrupt \<Rightarrow> HCorrupt)"

definition health_text :: "health_state \<Rightarrow> string" where
  "health_text h =
     (case h of
        Ok \<Rightarrow> ''ok''
      | HUnavailable \<Rightarrow> ''unavailable''
      | HCorrupt \<Rightarrow> ''corrupt''
      | HQuota \<Rightarrow> ''quota'')"

record journal_health =
  jh_state :: health_state
  jh_detail :: string
  jh_size_bytes :: int
  jh_quota_bytes :: "int option"
  jh_headroom_bytes :: "int option"

definition quota_enabled :: "wjournal \<Rightarrow> bool" where
  "quota_enabled j \<longleftrightarrow> quota_bytes j > 0"

definition quota_threshold :: "wjournal \<Rightarrow> int" where
  "quota_threshold j = max 0 (quota_bytes j - headroom_bytes j)"

text \<open>\<open>dk_size\<close> is the sum of the sizes of the file and its WAL sidecars.\<close>

definition health_report :: "disk \<Rightarrow> wjournal \<Rightarrow> health_state \<Rightarrow> string \<Rightarrow> journal_health" where
  "health_report dk j st detail =
     \<lparr>jh_state = st, jh_detail = detail, jh_size_bytes = dk_size dk,
      jh_quota_bytes = (if quota_enabled j then Some (quota_bytes j) else None),
      jh_headroom_bytes = (if quota_enabled j then Some (headroom_bytes j) else None)\<rparr>"

definition health_locked :: "disk \<Rightarrow> wjournal \<Rightarrow> journal_health \<times> wjournal" where
  "health_locked dk j =
     (case fatal j of
        Some (k, m) \<Rightarrow> (health_report dk j (health_of_fatal k) m, j)
      | None \<Rightarrow>
          (case ensure_open dk j of
             (Some e, j') \<Rightarrow>
               (case fatal j' of
                  Some (k, m) \<Rightarrow> (health_report dk j' (health_of_fatal k) m, j')
                | None \<Rightarrow> (health_report dk j' HUnavailable [], j'))
           | (None, j') \<Rightarrow>
               (case dk_probe dk of
                  ProbeOk \<Rightarrow>
                    if quota_enabled j' \<and> dk_size dk \<ge> quota_threshold j'
                    then (health_report dk j' HQuota
                            (''journal size '' @ py_str (dk_size dk) @ '' bytes >= quota threshold ''
                              @ py_str (quota_threshold j') @ '' bytes''), j')
                    else (health_report dk j' Ok [], j')
                | ProbeOperational m \<Rightarrow>
                    (health_report dk j' HUnavailable m, classify_failure (SqOperational m) j')
                | ProbeDatabase m \<Rightarrow>
                    (health_report dk j' HCorrupt m, classify_failure (SqDatabase m) j'))))"

definition ensure_admitting :: "disk \<Rightarrow> wjournal \<Rightarrow> jerror option \<times> wjournal" where
  "ensure_admitting dk j =
     (case health_locked dk j of
        (h, j') \<Rightarrow>
          if jh_state h \<noteq> Ok
          then (Some (AdmissionClosed (''journal '' @ health_text (jh_state h) @ '': admission closed'')), j')
          else (None, j'))"

section \<open>Attempt records\<close>

datatype attempt_kind = KTombstone | KCompletion | KActive | KInterrupted

record attempt_record =
  ar_kind :: attempt_kind
  ar_attempt :: string
  ar_run :: "string option"
  ar_tomb :: "tombstone option"
  ar_comp :: "completion option"
  ar_resv :: "reservation option"

definition attempt_from_reservation :: "reservation \<Rightarrow> attempt_record" where
  "attempt_from_reservation r =
     \<lparr>ar_kind =
        (case r_state r of
           Reserved \<Rightarrow> KActive
         | Running \<Rightarrow> KActive
         | Interrupted \<Rightarrow> KInterrupted
         | Completed \<Rightarrow> KCompletion),
      ar_attempt = r_attempt r, ar_run = Some (r_run r), ar_tomb = None, ar_comp = None,
      ar_resv = Some r\<rparr>"

definition attempt_from_completion :: "completion \<Rightarrow> attempt_record" where
  "attempt_from_completion c =
     \<lparr>ar_kind = KCompletion, ar_attempt = c_attempt c, ar_run = Some (c_run c), ar_tomb = None,
      ar_comp = Some c, ar_resv = None\<rparr>"

text \<open>\<open>get_attempt\<close>: tombstone before completion before reservation.\<close>

definition get_attempt_db :: "string \<Rightarrow> jdb \<Rightarrow> attempt_record option" where
  "get_attempt_db a d =
     (case tbl_find t_attempt a (tombstones d) of
        Some t \<Rightarrow>
          Some \<lparr>ar_kind = KTombstone, ar_attempt = t_attempt t, ar_run = Some (t_run t),
                ar_tomb = Some t, ar_comp = None, ar_resv = None\<rparr>
      | None \<Rightarrow>
          (case tbl_find c_attempt a (completions d) of
             Some c \<Rightarrow> Some (attempt_from_completion c)
           | None \<Rightarrow>
               map_option attempt_from_reservation (tbl_find r_attempt a (reservations d))))"

definition get_attempt :: "string \<Rightarrow> disk \<Rightarrow> wjournal \<Rightarrow> (jerror + attempt_record option) \<times> wjournal" where
  "get_attempt a = jread (get_attempt_db a)"

section \<open>Admission\<close>

text \<open>The decision that \<open>admit\<close> receives, and its fields once all are known to be present.\<close>

record auth_decision =
  ad_valid :: bool
  ad_reason :: "string option"
  ad_attempt :: "string option"
  ad_run :: "string option"
  ad_generation :: "int option"
  ad_slot :: "string option"
  ad_session :: "string option"
  ad_epoch :: "int option"
  ad_token_hash :: "string option"
  ad_issued_at :: "instant option"
  ad_expires_at :: "instant option"

record auth_fields =
  af_attempt :: string
  af_run :: string
  af_generation :: int
  af_slot :: string
  af_session :: string
  af_epoch :: int
  af_token_hash :: string
  af_issued_at :: instant
  af_expires_at :: instant

definition required_fields :: "auth_decision \<Rightarrow> auth_fields option" where
  "required_fields ad =
     (case (ad_attempt ad, ad_run ad, ad_generation ad, ad_slot ad, ad_session ad, ad_epoch ad,
            ad_token_hash ad, ad_issued_at ad, ad_expires_at ad) of
        (Some a, Some r, Some g, Some s, Some w, Some e, Some h, Some i, Some x) \<Rightarrow>
          Some \<lparr>af_attempt = a, af_run = r, af_generation = g, af_slot = s, af_session = w,
                af_epoch = e, af_token_hash = h, af_issued_at = i, af_expires_at = x\<rparr>
      | _ \<Rightarrow> None)"

definition refused_decision :: "string option \<Rightarrow> string option \<Rightarrow> auth_decision" where
  "refused_decision why att =
     \<lparr>ad_valid = False, ad_reason = why, ad_attempt = att, ad_run = None, ad_generation = None,
      ad_slot = None, ad_session = None, ad_epoch = None, ad_token_hash = None,
      ad_issued_at = None, ad_expires_at = None\<rparr>"

datatype admission_result =
    Admitted string
  | AlreadyAdmitted string attempt_record
  | Revoked string string instant
  | RefusedAuth "string option" "string option"

text \<open>
  Step 1: \<open>INSERT INTO start_authorizations ... ON CONFLICT(attempt_id) DO NOTHING\<close>; a
  token hash in use by another attempt violates the \<open>UNIQUE\<close> constraint.
\<close>

definition record_authorization :: "auth_fields \<Rightarrow> jdb \<Rightarrow> jdb option" where
  "record_authorization f d =
     (if tbl_has a_attempt (af_attempt f) (authorizations d) then Some d
      else if tbl_has a_token_hash (af_token_hash f) (authorizations d) then None
      else Some (d\<lparr>authorizations := authorizations d @
             [\<lparr>a_attempt = af_attempt f, a_run = af_run f, a_epoch = af_epoch f,
               a_token_hash = af_token_hash f, a_issued_at = af_issued_at f,
               a_expires_at = af_expires_at f\<rparr>]\<rparr>))"

definition new_reservation :: "auth_fields \<Rightarrow> string \<Rightarrow> instant \<Rightarrow> reservation" where
  "new_reservation f pipeline_name now_iso =
     \<lparr>r_attempt = af_attempt f, r_run = af_run f, r_pipeline = pipeline_name,
      r_generation = af_generation f, r_slot = af_slot f, r_session = af_session f,
      r_reserved_at = now_iso, r_state = Reserved, r_thread_started = False\<rparr>"

definition same_identity :: "reservation \<Rightarrow> auth_fields \<Rightarrow> bool" where
  "same_identity r f \<longleftrightarrow>
     (r_run r, r_generation r, r_slot r) = (af_run f, af_generation f, af_slot f)"

text \<open>
  The admission transaction. Clock readings: 0 is \<open>now_ms\<close>, 1 the watermark's
  \<open>updated_at\<close>, 2 the reservation's \<open>reserved_at\<close>. Only the \<open>admitted\<close> outcome commits.
\<close>

definition admit_txn ::
  "jcfg \<Rightarrow> clock \<Rightarrow> auth_fields \<Rightarrow> string \<Rightarrow> jdb \<Rightarrow> (jerror + admission_result) \<times> jdb" where
  "admit_txn cfg clk f pipeline_name d =
     (let epoch = session_epoch_locked d;
          now_ms = clk 0 div 1000;
          d1 = advance_watermark_locked epoch now_ms (clk 1) d;
          watermark_ms = the (watermark_of epoch d1);
          skew_ms = cfg_skew_s cfg * 1000
      in if now_ms < watermark_ms - skew_ms
         then (Inl (AdmissionClosed ''local clock below watermark''), d)
         else
           (case record_authorization f d1 of
              None \<Rightarrow> (Inl (AdmissionConflict (af_attempt f)), d)
            | Some d2 \<Rightarrow>
                (case tbl_find t_attempt (af_attempt f) (tombstones d2) of
                   Some t \<Rightarrow> (Inr (Revoked (af_attempt f) (t_reason t) (t_revoked_at t)), d)
                 | None \<Rightarrow>
                     (case tbl_find r_attempt (af_attempt f) (reservations d2) of
                        Some ex \<Rightarrow>
                          if same_identity ex f
                          then (Inr (AlreadyAdmitted (af_attempt f) (attempt_from_reservation ex)), d)
                          else (Inl (AdmissionConflict (af_attempt f)), d)
                      | None \<Rightarrow>
                          (Inr (Admitted (af_attempt f)),
                           d2\<lparr>reservations := reservations d2 @
                               [new_reservation f pipeline_name (clk 2)]\<rparr>)))))"

definition admit ::
  "jcfg \<Rightarrow> disk \<Rightarrow> clock \<Rightarrow> auth_decision \<Rightarrow> string \<Rightarrow> wjournal
    \<Rightarrow> (jerror + admission_result) \<times> wjournal" where
  "admit cfg dk clk ad pipeline_name j =
     (if \<not> ad_valid ad then (Inr (RefusedAuth (ad_attempt ad) (ad_reason ad)), j)
      else
        (case required_fields ad of
           None \<Rightarrow> (Inl (JournalErr ''valid AuthorizationDecision missing fields''), j)
         | Some f \<Rightarrow>
             (case ensure_admitting dk j of
                (Some e, j') \<Rightarrow> (Inl e, j')
              | (None, j') \<Rightarrow>
                  (case admit_txn cfg clk f pipeline_name (jdb_of j') of
                     (r, d) \<Rightarrow> (r, j'\<lparr>jdb_of := d\<rparr>)))))"

text \<open>The decision built from a validated token; \<open>expires_at\<close> is \<open>issued_at + ttl\<close>.\<close>

definition token_decision :: "auth_result \<Rightarrow> string \<Rightarrow> int \<Rightarrow> string \<Rightarrow> auth_decision" where
  "token_decision res worker_session epoch token_hash =
     \<lparr>ad_valid = True, ad_reason = None, ad_attempt = ar_attempt_id res, ad_run = ar_run_id res,
      ad_generation = ar_generation res, ad_slot = ar_slot_id res,
      ad_session = Some worker_session, ad_epoch = Some epoch, ad_token_hash = Some token_hash,
      ad_issued_at = map_option (\<lambda>i. i * 1000000) (ar_issued_at_unix res),
      ad_expires_at =
        (case (ar_issued_at_unix res, ar_ttl_s res) of
           (Some i, Some t) \<Rightarrow> Some ((i + t) * 1000000)
         | _ \<Rightarrow> None)\<rparr>"

text \<open>
  The epoch and watermark checks of \<open>validate_and_admit\<close> on a token whose own validation
  succeeded: a reason to refuse it, or \<open>None\<close>.
\<close>

definition retirement_check :: "jcfg \<Rightarrow> string \<Rightarrow> int \<Rightarrow> int \<Rightarrow> jdb \<Rightarrow> string option" where
  "retirement_check cfg token_hash issued ttl d =
     (let epoch = session_epoch_locked d in
      case tbl_find a_token_hash token_hash (authorizations d) of
        Some row \<Rightarrow> if a_epoch row \<noteq> epoch then Some ''old session epoch'' else None
      | None \<Rightarrow>
          (case watermark_of epoch d of
             None \<Rightarrow> None
           | Some wm \<Rightarrow>
               if wm \<ge> (issued + ttl + cfg_skew_s cfg) * 1000
               then Some ''token retired by watermark'' else None))"

text \<open>
  Clock readings: 0 is the validation time (unless \<open>now\<close> is given); the admission uses
  the later ones.
\<close>

definition validate_and_admit ::
  "(string \<Rightarrow> string \<Rightarrow> string) \<Rightarrow> (string \<Rightarrow> string) \<Rightarrow> jcfg \<Rightarrow> disk \<Rightarrow> clock \<Rightarrow> string \<Rightarrow> string
    \<Rightarrow> string \<Rightarrow> string \<Rightarrow> string option \<Rightarrow> instant option \<Rightarrow> wjournal
    \<Rightarrow> (jerror + admission_result) \<times> wjournal" where
  "validate_and_admit sign sha256 cfg dk clk token pipeline_name worker_session current_secret
       previous_secret now j =
     (let now_dt = (case now of Some t \<Rightarrow> t | None \<Rightarrow> clk 0);
          clk' = (case now of Some t \<Rightarrow> clk | None \<Rightarrow> (\<lambda>i. clk (Suc i)))
      in case ensure_open dk j of
           (Some e, j') \<Rightarrow> (Inl e, j')
         | (None, j') \<Rightarrow>
             (case validate_start_authorization sign token worker_session current_secret
                     previous_secret (cfg_max_ttl_s cfg) (cfg_skew_s cfg) (now_dt div 1000000) of
                Inl e \<Rightarrow> (Inl (PyError e), j')
              | Inr res \<Rightarrow>
                  if \<not> ar_valid res
                  then admit cfg dk clk' (refused_decision (ar_reason res) (ar_attempt_id res))
                         pipeline_name j'
                  else
                    (case retirement_check cfg (sha256 token) (the (ar_issued_at_unix res))
                            (the (ar_ttl_s res)) (jdb_of j') of
                       Some why \<Rightarrow> (Inr (RefusedAuth (ar_attempt_id res) (Some why)), j')
                     | None \<Rightarrow>
                         admit cfg dk clk'
                           (token_decision res worker_session (session_epoch_locked (jdb_of j'))
                              (sha256 token))
                           pipeline_name j')))"

definition mark_running_db :: "string \<Rightarrow> jdb \<Rightarrow> bool \<times> jdb" where
  "mark_running_db a d =
     (let P = (\<lambda>r. r_attempt r = a \<and> r_state r = Reserved)
      in (rowcount P (reservations d) > 0,
          d\<lparr>reservations :=
              update_where P (\<lambda>r. r\<lparr>r_state := Running, r_thread_started := True\<rparr>)
                (reservations d)\<rparr>))"

definition mark_running :: "string \<Rightarrow> disk \<Rightarrow> wjournal \<Rightarrow> (jerror + bool) \<times> wjournal" where
  "mark_running a = txn (\<lambda>d. Inr (mark_running_db a d))"

section \<open>Revocation\<close>

definition record_tombstone_db ::
  "clock \<Rightarrow> string \<Rightarrow> string \<Rightarrow> string \<Rightarrow> jdb \<Rightarrow> tombstone \<times> jdb" where
  "record_tombstone_db clk a run why d =
     (let t = \<lparr>t_attempt = a, t_run = run, t_reason = why, t_revoked_at = clk 0,
               t_epoch = session_epoch_locked d\<rparr>
      in (t, d\<lparr>tombstones := insert_replace t_attempt t (tombstones d)\<rparr>))"

definition record_tombstone ::
  "clock \<Rightarrow> string \<Rightarrow> string \<Rightarrow> string \<Rightarrow> disk \<Rightarrow> wjournal \<Rightarrow> (jerror + tombstone) \<times> wjournal" where
  "record_tombstone clk a run why = txn (\<lambda>d. Inr (record_tombstone_db clk a run why d))"

section \<open>Completion and outbox\<close>

definition run_complete :: string where
  "run_complete = ''run-complete''"

definition outbox_entry :: "int \<Rightarrow> instant \<Rightarrow> string \<Rightarrow> string \<Rightarrow> string \<Rightarrow> outbox_row" where
  "outbox_entry seq now_iso a kind payload =
     \<lparr>o_seq = seq, o_attempt = a, o_kind = kind, o_payload = payload, o_created_at = now_iso,
      o_next_at = now_iso, o_attempts = 0, o_last_error = None\<rparr>"

text \<open>Append rows with the next \<open>AUTOINCREMENT\<close> numbers.\<close>

fun push_outbox :: "instant \<Rightarrow> (string \<times> string \<times> string) list \<Rightarrow> jdb \<Rightarrow> jdb" where
  "push_outbox now_iso [] d = d"
| "push_outbox now_iso ((a, kind, payload) # rest) d =
     push_outbox now_iso rest
       (d\<lparr>outbox := outbox d @ [outbox_entry (last_seq d + 1) now_iso a kind payload],
          last_seq := last_seq d + 1\<rparr>)"

definition has_run_complete :: "string \<Rightarrow> outbox_row list \<Rightarrow> bool" where
  "has_run_complete a rows \<longleftrightarrow> (\<exists>r \<in> set rows. o_attempt r = a \<and> o_kind r = run_complete)"

text \<open>
  \<open>INSERT INTO outbox ... SELECT\<close> of the unacknowledged completions (of one attempt, or
  all) that have no \<open>run-complete\<close> row.
\<close>

definition stranded :: "string option \<Rightarrow> jdb \<Rightarrow> completion list" where
  "stranded which d =
     filter (\<lambda>c. \<not> c_acked c \<and> (which = None \<or> which = Some (c_attempt c)) \<and>
                \<not> has_run_complete (c_attempt c) (outbox d))
       (completions d)"

definition respool_completions_locked :: "instant \<Rightarrow> string option \<Rightarrow> jdb \<Rightarrow> nat \<times> jdb" where
  "respool_completions_locked now_iso which d =
     (length (stranded which d),
      push_outbox now_iso (map (\<lambda>c. (c_attempt c, run_complete, c_result c)) (stranded which d)) d)"

text \<open>
  The two writes of a completion: the reservation is flipped, and the first result stays.
  Clock readings: 0 is \<open>completed_at\<close>, 1 the outbox entry's time.
\<close>

definition commit_completion :: "clock \<Rightarrow> string \<Rightarrow> string \<Rightarrow> string \<Rightarrow> jdb \<Rightarrow> jdb" where
  "commit_completion clk a result_json run d =
     d\<lparr>reservations :=
         update_where (\<lambda>r. r_attempt r = a) (\<lambda>r. r\<lparr>r_state := Completed\<rparr>) (reservations d),
       completions :=
         insert_ignore c_attempt
           \<lparr>c_attempt = a, c_run = run, c_result = result_json, c_completed_at = clk 0,
            c_acked = False, c_acked_at = None\<rparr>
           (completions d)\<rparr>"

definition resolve_run_id :: "string \<Rightarrow> string option \<Rightarrow> jdb \<Rightarrow> string option" where
  "resolve_run_id a run_id d =
     (case run_id of
        Some r \<Rightarrow> Some r
      | None \<Rightarrow> map_option r_run (tbl_find r_attempt a (reservations d)))"

definition record_completion_db ::
  "clock \<Rightarrow> string \<Rightarrow> string \<Rightarrow> string option \<Rightarrow> bool \<Rightarrow> jdb \<Rightarrow> jerror + (unit \<times> jdb)" where
  "record_completion_db clk a result_json run_id enqueue d =
     (case resolve_run_id a run_id d of
        None \<Rightarrow> Inl (JournalErr ''record_completion: no reservation and no run_id given'')
      | Some run \<Rightarrow>
          (let d2 = commit_completion clk a result_json run d
           in if enqueue then Inr ((), snd (respool_completions_locked (clk 1) (Some a) d2))
              else Inr ((), d2)))"

definition record_completion ::
  "clock \<Rightarrow> string \<Rightarrow> string \<Rightarrow> string option \<Rightarrow> disk \<Rightarrow> wjournal \<Rightarrow> (jerror + unit) \<times> wjournal" where
  "record_completion clk a result_json run_id =
     txn (record_completion_db clk a result_json run_id False)"

definition record_completion_and_enqueue ::
  "clock \<Rightarrow> string \<Rightarrow> string \<Rightarrow> string option \<Rightarrow> disk \<Rightarrow> wjournal \<Rightarrow> (jerror + unit) \<times> wjournal" where
  "record_completion_and_enqueue clk a result_json run_id =
     txn (record_completion_db clk a result_json run_id True)"

definition respool_unacked_completions :: "clock \<Rightarrow> disk \<Rightarrow> wjournal \<Rightarrow> (jerror + nat) \<times> wjournal" where
  "respool_unacked_completions clk = txn (\<lambda>d. Inr (respool_completions_locked (clk 0) None d))"

definition enqueue_outbox_db :: "clock \<Rightarrow> string \<Rightarrow> string \<Rightarrow> string \<Rightarrow> jdb \<Rightarrow> int \<times> jdb" where
  "enqueue_outbox_db clk a kind payload d =
     (last_seq d + 1, push_outbox (clk 0) [(a, kind, payload)] d)"

definition enqueue_outbox ::
  "clock \<Rightarrow> string \<Rightarrow> string \<Rightarrow> string \<Rightarrow> disk \<Rightarrow> wjournal \<Rightarrow> (jerror + int) \<times> wjournal" where
  "enqueue_outbox clk a kind payload = txn (\<lambda>d. Inr (enqueue_outbox_db clk a kind payload d))"

definition mark_acked_db :: "clock \<Rightarrow> string \<Rightarrow> jdb \<Rightarrow> jdb" where
  "mark_acked_db clk a d =
     d\<lparr>completions :=
         update_where (\<lambda>c. c_attempt c = a \<and> \<not> c_acked c)
           (\<lambda>c. c\<lparr>c_acked := True, c_acked_at := Some (clk 0)\<rparr>) (completions d),
       outbox := delete_where (\<lambda>o'. o_attempt o' = a) (outbox d)\<rparr>"

definition mark_acked :: "clock \<Rightarrow> string \<Rightarrow> disk \<Rightarrow> wjournal \<Rightarrow> (jerror + unit) \<times> wjournal" where
  "mark_acked clk a = txn (\<lambda>d. Inr ((), mark_acked_db clk a d))"

definition fetch_due_outbox_db :: "instant \<Rightarrow> int \<Rightarrow> jdb \<Rightarrow> outbox_row list" where
  "fetch_due_outbox_db now_iso limit d =
     take (nat (max 1 limit)) (sort_key o_seq (filter (\<lambda>r. o_next_at r \<le> now_iso) (outbox d)))"

definition fetch_due_outbox ::
  "clock \<Rightarrow> int \<Rightarrow> disk \<Rightarrow> wjournal \<Rightarrow> (jerror + outbox_row list) \<times> wjournal" where
  "fetch_due_outbox clk limit = jread (fetch_due_outbox_db (clk 0) limit)"

text \<open>
  \<open>min(1.0 * 2 ** (attempts - 1), 300.0)\<close> seconds. The product converts the integer power
  to a double, which raises \<open>OverflowError\<close> from \<open>2 ** 1024\<close> on; below that every power of
  two is exact.
\<close>

definition backoff_s :: "int \<Rightarrow> int option" where
  "backoff_s attempts =
     (if attempts - 1 \<ge> 1024 then None else Some (min (2 ^ nat (attempts - 1)) 300))"

definition record_outbox_failure_db ::
  "clock \<Rightarrow> int \<Rightarrow> string \<Rightarrow> jdb \<Rightarrow> jerror + (unit \<times> jdb)" where
  "record_outbox_failure_db clk seq err d =
     (case tbl_find o_seq seq (outbox d) of
        None \<Rightarrow> Inl (JournalErr ''record_outbox_failure: no outbox row'')
      | Some row \<Rightarrow>
          (let attempts = o_attempts row + 1 in
           case backoff_s attempts of
             None \<Rightarrow> Inl OverflowErr
           | Some delay \<Rightarrow>
               Inr ((), d\<lparr>outbox :=
                 update_where (\<lambda>o'. o_seq o' = seq)
                   (\<lambda>o'. o'\<lparr>o_attempts := attempts, o_last_error := Some err,
                           o_next_at := clk 0 + delay * 1000000\<rparr>) (outbox d)\<rparr>)))"

definition record_outbox_failure ::
  "clock \<Rightarrow> int \<Rightarrow> string \<Rightarrow> disk \<Rightarrow> wjournal \<Rightarrow> (jerror + unit) \<times> wjournal" where
  "record_outbox_failure clk seq err = txn (record_outbox_failure_db clk seq err)"

definition list_unacked_completions ::
  "disk \<Rightarrow> wjournal \<Rightarrow> (jerror + attempt_record list) \<times> wjournal" where
  "list_unacked_completions =
     jread (\<lambda>d. map attempt_from_completion
       (sort_key c_completed_at
         (sort_key c_attempt (filter (\<lambda>c. \<not> c_acked c) (completions d)))))"

section \<open>Boot, epochs, watermark status\<close>

definition active_state :: "rstate \<Rightarrow> bool" where
  "active_state s \<longleftrightarrow> s = Reserved \<or> s = Running"

definition mark_interrupted_db :: "jdb \<Rightarrow> nat \<times> jdb" where
  "mark_interrupted_db d =
     (rowcount (\<lambda>r. active_state (r_state r)) (reservations d),
      d\<lparr>reservations :=
          update_where (\<lambda>r. active_state (r_state r)) (\<lambda>r. r\<lparr>r_state := Interrupted\<rparr>)
            (reservations d)\<rparr>)"

definition mark_interrupted_on_boot :: "disk \<Rightarrow> wjournal \<Rightarrow> (jerror + nat) \<times> wjournal" where
  "mark_interrupted_on_boot = txn (\<lambda>d. Inr (mark_interrupted_db d))"

definition session_epoch :: "disk \<Rightarrow> wjournal \<Rightarrow> (jerror + int) \<times> wjournal" where
  "session_epoch = jread session_epoch_locked"

definition advance_session_epoch_db :: "jdb \<Rightarrow> int \<times> jdb" where
  "advance_session_epoch_db d =
     (session_epoch_locked d + 1, d\<lparr>meta_epoch := Some (session_epoch_locked d + 1)\<rparr>)"

definition advance_session_epoch :: "disk \<Rightarrow> wjournal \<Rightarrow> (jerror + int) \<times> wjournal" where
  "advance_session_epoch = txn (\<lambda>d. Inr (advance_session_epoch_db d))"

definition recover_clock_lowering_db :: "clock \<Rightarrow> jdb \<Rightarrow> int \<times> jdb" where
  "recover_clock_lowering_db clk d =
     (let e = session_epoch_locked d + 1
      in (e, advance_watermark_locked e (clk 0 div 1000) (clk 1) (d\<lparr>meta_epoch := Some e\<rparr>)))"

definition recover_clock_lowering :: "clock \<Rightarrow> disk \<Rightarrow> wjournal \<Rightarrow> (jerror + int) \<times> wjournal" where
  "recover_clock_lowering clk = txn (\<lambda>d. Inr (recover_clock_lowering_db clk d))"

record wm_status =
  ws_epoch :: int
  ws_watermark_ms :: "int option"
  ws_now_ms :: int
  ws_behind_ms :: int
  ws_admitting :: bool

definition watermark_status_db :: "jcfg \<Rightarrow> instant \<Rightarrow> jdb \<Rightarrow> wm_status" where
  "watermark_status_db cfg now d =
     (let epoch = session_epoch_locked d;
          wm = watermark_of epoch d;
          now_ms = now div 1000
      in \<lparr>ws_epoch = epoch, ws_watermark_ms = wm, ws_now_ms = now_ms,
          ws_behind_ms = (case wm of None \<Rightarrow> 0 | Some w \<Rightarrow> w - now_ms),
          ws_admitting =
            (case wm of None \<Rightarrow> True | Some w \<Rightarrow> now_ms \<ge> w - cfg_skew_s cfg * 1000)\<rparr>)"

definition watermark_status ::
  "jcfg \<Rightarrow> clock \<Rightarrow> disk \<Rightarrow> wjournal \<Rightarrow> (jerror + wm_status) \<times> wjournal" where
  "watermark_status cfg clk = jread (watermark_status_db cfg (clk 0))"

section \<open>Garbage collection and retention\<close>

record gc_report =
  gc_authorizations :: nat
  gc_tombstones :: nat
  gc_watermark_ms :: int

text \<open>
  With \<open>now\<close> given, reading 0 is the watermark's \<open>updated_at\<close>; otherwise reading 0 is the
  time of the call and reading 1 the \<open>updated_at\<close>.
\<close>

definition gc_expired_db :: "jcfg \<Rightarrow> clock \<Rightarrow> instant option \<Rightarrow> jdb \<Rightarrow> gc_report \<times> jdb" where
  "gc_expired_db cfg clk now d =
     (let now_dt = (case now of Some t \<Rightarrow> t | None \<Rightarrow> clk 0);
          upd = (case now of Some t \<Rightarrow> clk 0 | None \<Rightarrow> clk 1);
          now_ms = now_dt div 1000;
          cutoff = now_dt - cfg_skew_s cfg * 1000000;
          d1 = advance_watermark_locked (session_epoch_locked d) now_ms upd d;
          dead = (\<lambda>a. a_expires_at a \<le> cutoff);
          expired = map a_attempt (filter dead (authorizations d1));
          resolved = (\<lambda>t. t_attempt t \<in> set expired)
      in (\<lparr>gc_authorizations = rowcount dead (authorizations d1),
           gc_tombstones = rowcount resolved (tombstones d1), gc_watermark_ms = now_ms\<rparr>,
          d1\<lparr>authorizations := delete_where dead (authorizations d1),
             tombstones := delete_where resolved (tombstones d1)\<rparr>))"

definition gc_expired ::
  "jcfg \<Rightarrow> clock \<Rightarrow> instant option \<Rightarrow> disk \<Rightarrow> wjournal \<Rightarrow> (jerror + gc_report) \<times> wjournal" where
  "gc_expired cfg clk now = txn (\<lambda>d. Inr (gc_expired_db cfg clk now d))"

record retention_report =
  rt_completions :: nat
  rt_outbox :: nat
  rt_tombstones :: nat

definition cleanup_retention_db ::
  "jcfg \<Rightarrow> clock \<Rightarrow> instant option \<Rightarrow> jdb \<Rightarrow> retention_report \<times> jdb" where
  "cleanup_retention_db cfg clk now d =
     (let now_dt = (case now of Some t \<Rightarrow> t | None \<Rightarrow> clk 0);
          upd = (case now of Some t \<Rightarrow> clk 0 | None \<Rightarrow> clk 1);
          audit_cutoff = now_dt - cfg_audit_retention_s cfg * 1000000;
          replay_cutoff = now_dt - cfg_replay_retention_s cfg * 1000000;
          resolved_cutoff = now_dt - cfg_skew_s cfg * 1000000;
          d1 = advance_watermark_locked (session_epoch_locked d) (now_dt div 1000) upd d;
          old = (\<lambda>c. c_acked c \<and> (case c_acked_at c of None \<Rightarrow> False | Some t \<Rightarrow> t \<le> audit_cutoff));
          acked_old = map c_attempt (filter old (completions d1));
          swept = (\<lambda>o'. o_attempt o' \<in> set acked_old);
          resolved = (\<lambda>t. t_revoked_at t \<le> replay_cutoff \<and>
            (\<exists>a \<in> set (authorizations d1). a_attempt a = t_attempt t \<and> a_expires_at a \<le> resolved_cutoff))
      in (\<lparr>rt_completions = rowcount old (completions d1), rt_outbox = rowcount swept (outbox d1),
           rt_tombstones = rowcount resolved (tombstones d1)\<rparr>,
          d1\<lparr>completions := delete_where old (completions d1),
             outbox := delete_where swept (outbox d1),
             tombstones := delete_where resolved (tombstones d1)\<rparr>))"

definition cleanup_retention ::
  "jcfg \<Rightarrow> clock \<Rightarrow> instant option \<Rightarrow> disk \<Rightarrow> wjournal \<Rightarrow> (jerror + retention_report) \<times> wjournal" where
  "cleanup_retention cfg clk now = txn (\<lambda>d. Inr (cleanup_retention_db cfg clk now d))"

end
