(* ===== verification/Journal_Machine.thy ===== *)
theory Journal_Machine
  imports Journal
begin

text \<open>
  The worker journal as a machine. An event is a method call together with what the
  outside supplied during it (\<open>disk\<close>, \<open>clock\<close>); closing the connection and restarting
  the worker on the same file are events too. Below it, \<open>jdb_step\<close> is the relation of the
  effects a call can have on the database; every call is a sequence of such effects, so an
  invariant is proved once per effect and holds along every run. The relation is indexed by
  the calls a run may contain, which matters for two of them: \<open>mark_acked\<close>, and the
  compatibility method \<open>record_completion\<close> that writes a result without an outbox row.
\<close>

section \<open>Events\<close>

datatype jop =
    OAdmit auth_decision string
  | OValidate string string string string "string option" "instant option"
  | OMarkRunning string
  | OTombstone string string string
  | OComplete string string "string option"
  | OCompleteEnqueue string string "string option"
  | ORespool
  | OEnqueue string string string
  | OAck string
  | OFetch int
  | OFail int string
  | OGet string
  | OListUnacked
  | OInterrupt
  | OEpoch
  | OAdvanceEpoch
  | ORecover
  | OWatermark
  | OGc "instant option"
  | ORetention "instant option"
  | OHealth
  | OClose
  | ORestart int int

datatype jout =
    JErr jerror
  | JAdmission admission_result
  | JBool bool
  | JTomb tombstone
  | JUnit
  | JNat nat
  | JInt int
  | JRows "outbox_row list"
  | JAttempt "attempt_record option"
  | JAttempts "attempt_record list"
  | JWatermark wm_status
  | JGc gc_report
  | JRetention retention_report
  | JHealth journal_health

type_synonym jevent = "jop \<times> disk \<times> clock"

definition answer :: "('a \<Rightarrow> jout) \<Rightarrow> (jerror + 'a) \<times> wjournal \<Rightarrow> jout \<times> wjournal" where
  "answer f r = (case fst r of Inl e \<Rightarrow> JErr e | Inr x \<Rightarrow> f x, snd r)"

fun journal_op ::
  "(string \<Rightarrow> string \<Rightarrow> string) \<Rightarrow> (string \<Rightarrow> string) \<Rightarrow> jcfg \<Rightarrow> jop \<Rightarrow> disk \<Rightarrow> clock \<Rightarrow> wjournal
    \<Rightarrow> jout \<times> wjournal" where
  "journal_op sign sha256 cfg (OAdmit ad p) dk clk j = answer JAdmission (admit cfg dk clk ad p j)"
| "journal_op sign sha256 cfg (OValidate tok p ws cur prev now) dk clk j =
     answer JAdmission (validate_and_admit sign sha256 cfg dk clk tok p ws cur prev now j)"
| "journal_op sign sha256 cfg (OMarkRunning a) dk clk j = answer JBool (mark_running a dk j)"
| "journal_op sign sha256 cfg (OTombstone a r why) dk clk j =
     answer JTomb (record_tombstone clk a r why dk j)"
| "journal_op sign sha256 cfg (OComplete a res r) dk clk j =
     answer (\<lambda>_. JUnit) (record_completion clk a res r dk j)"
| "journal_op sign sha256 cfg (OCompleteEnqueue a res r) dk clk j =
     answer (\<lambda>_. JUnit) (record_completion_and_enqueue clk a res r dk j)"
| "journal_op sign sha256 cfg ORespool dk clk j = answer JNat (respool_unacked_completions clk dk j)"
| "journal_op sign sha256 cfg (OEnqueue a k pl) dk clk j = answer JInt (enqueue_outbox clk a k pl dk j)"
| "journal_op sign sha256 cfg (OAck a) dk clk j = answer (\<lambda>_. JUnit) (mark_acked clk a dk j)"
| "journal_op sign sha256 cfg (OFetch n) dk clk j = answer JRows (fetch_due_outbox clk n dk j)"
| "journal_op sign sha256 cfg (OFail s err) dk clk j =
     answer (\<lambda>_. JUnit) (record_outbox_failure clk s err dk j)"
| "journal_op sign sha256 cfg (OGet a) dk clk j = answer JAttempt (get_attempt a dk j)"
| "journal_op sign sha256 cfg OListUnacked dk clk j = answer JAttempts (list_unacked_completions dk j)"
| "journal_op sign sha256 cfg OInterrupt dk clk j = answer JNat (mark_interrupted_on_boot dk j)"
| "journal_op sign sha256 cfg OEpoch dk clk j = answer JInt (session_epoch dk j)"
| "journal_op sign sha256 cfg OAdvanceEpoch dk clk j = answer JInt (advance_session_epoch dk j)"
| "journal_op sign sha256 cfg ORecover dk clk j = answer JInt (recover_clock_lowering clk dk j)"
| "journal_op sign sha256 cfg OWatermark dk clk j = answer JWatermark (watermark_status cfg clk dk j)"
| "journal_op sign sha256 cfg (OGc now) dk clk j = answer JGc (gc_expired cfg clk now dk j)"
| "journal_op sign sha256 cfg (ORetention now) dk clk j =
     answer JRetention (cleanup_retention cfg clk now dk j)"
| "journal_op sign sha256 cfg OHealth dk clk j = map_prod JHealth id (health_locked dk j)"
| "journal_op sign sha256 cfg OClose dk clk j = (JUnit, close_journal j)"
| "journal_op sign sha256 cfg (ORestart q h) dk clk j = (JUnit, init_journal dk (jdb_of j) q h)"

definition journal_step ::
  "(string \<Rightarrow> string \<Rightarrow> string) \<Rightarrow> (string \<Rightarrow> string) \<Rightarrow> jcfg \<Rightarrow> jevent \<Rightarrow> wjournal \<Rightarrow> jout \<times> wjournal" where
  "journal_step sign sha256 cfg e j =
     (case e of (op, dk, clk) \<Rightarrow> journal_op sign sha256 cfg op dk clk j)"

section \<open>Effects on the database\<close>

inductive jdb_step :: "jcfg \<Rightarrow> (jop \<Rightarrow> bool) \<Rightarrow> jdb \<Rightarrow> jdb \<Rightarrow> bool"
  for cfg :: jcfg and allow :: "jop \<Rightarrow> bool" where
  S_schema: "jdb_step cfg allow d (init_schema d)"
| S_admit: "admit_txn cfg clk f p d = (Inr (Admitted a), d') \<Longrightarrow> jdb_step cfg allow d d'"
| S_running: "jdb_step cfg allow d (snd (mark_running_db a d))"
| S_tombstone: "jdb_step cfg allow d (snd (record_tombstone_db clk a r why d))"
| S_complete:
    "enqueue \<or> allow (OComplete a res r) \<Longrightarrow> record_completion_db clk a res r enqueue d = Inr (u, d')
      \<Longrightarrow> jdb_step cfg allow d d'"
| S_respool: "jdb_step cfg allow d (snd (respool_completions_locked now None d))"
| S_enqueue: "jdb_step cfg allow d (snd (enqueue_outbox_db clk a k pl d))"
| S_ack: "allow (OAck a) \<Longrightarrow> jdb_step cfg allow d (mark_acked_db clk a d)"
| S_fail: "record_outbox_failure_db clk s err d = Inr (u, d') \<Longrightarrow> jdb_step cfg allow d d'"
| S_interrupt: "jdb_step cfg allow d (snd (mark_interrupted_db d))"
| S_epoch: "jdb_step cfg allow d (snd (advance_session_epoch_db d))"
| S_recover: "jdb_step cfg allow d (snd (recover_clock_lowering_db clk d))"
| S_gc: "jdb_step cfg allow d (snd (gc_expired_db cfg clk now d))"
| S_retention: "jdb_step cfg allow d (snd (cleanup_retention_db cfg clk now d))"

abbreviation jdb_steps :: "jcfg \<Rightarrow> (jop \<Rightarrow> bool) \<Rightarrow> jdb \<Rightarrow> jdb \<Rightarrow> bool" where
  "jdb_steps cfg allow \<equiv> (jdb_step cfg allow)\<^sup>*\<^sup>*"

section \<open>Every call is a sequence of effects\<close>

lemma snd_answer [simp]: "snd (answer f r) = snd r"
  by (simp add: answer_def)

lemma open_journal_effect: "jdb_steps cfg allow (jdb_of j) (jdb_of (open_journal dk j))"
  by (cases "dk_open dk")
    (auto simp: open_journal_def classify_failure_def set_fatal_def quarantine_if_corrupt_def
      intro: S_schema)

lemma ensure_open_effect: "jdb_steps cfg allow (jdb_of j) (jdb_of (snd (ensure_open dk j)))"
  using open_journal_effect [of cfg allow j dk]
  by (auto simp: ensure_open_def Let_def split: option.splits)

lemma ensure_open_db: "jdb_of (snd (ensure_open dk j)) \<in> {jdb_of j, init_schema (jdb_of j)}"
  by (auto simp: ensure_open_def open_journal_def classify_failure_def set_fatal_def
      quarantine_if_corrupt_def Let_def split: option.splits sq_outcome.splits)

lemma classify_failure_db [simp]: "jdb_of (classify_failure oc j) = jdb_of j"
  by (cases oc) (auto simp: classify_failure_def set_fatal_def quarantine_if_corrupt_def)

lemma health_db: "jdb_of (snd (health_locked dk j)) \<in> {jdb_of j, init_schema (jdb_of j)}"
  using ensure_open_db [of dk j]
  by (auto simp: health_locked_def split: option.splits prod.splits probe_outcome.splits)

lemma init_schema_frame [simp]:
  "authorizations (init_schema d) = authorizations d" "watermarks (init_schema d) = watermarks d"
  by (simp_all add: init_schema_def split: option.splits)

lemma health_effect: "jdb_steps cfg allow (jdb_of j) (jdb_of (snd (health_locked dk j)))"
  using health_db [of dk j] S_schema [of cfg allow "jdb_of j"] by auto

lemma ensure_admitting_snd [simp]: "snd (ensure_admitting dk j) = snd (health_locked dk j)"
  by (simp add: ensure_admitting_def split: prod.splits)

lemma txn_effect:
  assumes "\<And>d x d'. body d = Inr (x, d') \<Longrightarrow> jdb_step cfg allow d d'"
  shows "jdb_steps cfg allow (jdb_of j) (jdb_of (snd (txn body dk j)))"
proof -
  obtain e j' where o: "ensure_open dk j = (e, j')" by (cases "ensure_open dk j") auto
  then have "jdb_steps cfg allow (jdb_of j) (jdb_of j')"
    using ensure_open_effect [of cfg allow j dk] by simp
  then show ?thesis
    using assms o by (auto simp: txn_def split: option.splits sum.splits
        intro: rtranclp.rtrancl_into_rtrancl)
qed

lemma jread_effect: "jdb_steps cfg allow (jdb_of j) (jdb_of (snd (jread f dk j)))"
  using ensure_open_effect [of cfg allow j dk]
  by (auto simp: jread_def split: prod.splits option.splits)

lemma admit_txn_cases:
  assumes "admit_txn cfg clk f p d = (r, d')"
  shows "d' = d \<and> (\<forall>a. r \<noteq> Inr (Admitted a)) \<or> r = Inr (Admitted (af_attempt f))"
  using assms by (auto simp: admit_txn_def Let_def split: if_splits option.splits)

lemma admit_effect: "jdb_steps cfg allow (jdb_of j) (jdb_of (snd (admit cfg dk clk ad p j)))"
proof -
  obtain e j' where h: "ensure_admitting dk j = (e, j')" by (cases "ensure_admitting dk j") auto
  then have eff: "jdb_steps cfg allow (jdb_of j) (jdb_of j')"
    using health_effect [of cfg allow j dk] ensure_admitting_snd [of dk j] by simp
  have "jdb_steps cfg allow (jdb_of j) (snd (admit_txn cfg clk f p (jdb_of j')))" for f
    using eff admit_txn_cases [of cfg clk f p "jdb_of j'"]
    by (metis S_admit prod.collapse rtranclp.rtrancl_into_rtrancl)
  then show ?thesis using eff h
    by (auto simp: admit_def case_prod_unfold split: option.splits)
qed

lemma validate_and_admit_effect:
  "jdb_steps cfg allow (jdb_of j)
     (jdb_of (snd (validate_and_admit sign sha256 cfg dk clk tok p ws cur prev now j)))"
proof -
  obtain e j' where o: "ensure_open dk j = (e, j')" by (cases "ensure_open dk j") auto
  then have eff: "jdb_steps cfg allow (jdb_of j) (jdb_of j')"
    using ensure_open_effect [of cfg allow j dk] by simp
  have "jdb_steps cfg allow (jdb_of j) (jdb_of (snd (admit cfg dk c ad p j')))" for c ad
    using eff admit_effect by (rule rtranclp_trans)
  then show ?thesis using eff o
    by (auto simp: validate_and_admit_def Let_def split: option.splits sum.splits)
qed

lemmas journal_op_defs =
  mark_running_def record_tombstone_def record_completion_def record_completion_and_enqueue_def
  respool_unacked_completions_def enqueue_outbox_def mark_acked_def fetch_due_outbox_def
  record_outbox_failure_def get_attempt_def list_unacked_completions_def
  mark_interrupted_on_boot_def session_epoch_def advance_session_epoch_def
  recover_clock_lowering_def watermark_status_def gc_expired_def cleanup_retention_def

lemma restart_effect: "jdb_steps cfg allow (jdb_of j) (jdb_of (init_journal dk (jdb_of j) q h))"
  using open_journal_effect
  by (metis init_journal_def wjournal.select_convs(1))

lemma close_journal_db [simp]: "jdb_of (close_journal j) = jdb_of j"
  by (simp add: close_journal_def)

lemma txn_pure_effect:
  "(\<And>d. jdb_step cfg allow d (snd (g d))) \<Longrightarrow>
     jdb_steps cfg allow (jdb_of j) (jdb_of (snd (txn (\<lambda>d. Inr (g d)) dk j)))"
  by (rule txn_effect) (metis sum.inject(2) snd_conv)

lemmas op_effects =
  txn_pure_effect [OF S_running] txn_pure_effect [OF S_tombstone] txn_pure_effect [OF S_respool]
  txn_pure_effect [OF S_enqueue] txn_pure_effect [OF S_interrupt]
  txn_pure_effect [OF S_epoch] txn_pure_effect [OF S_recover] txn_pure_effect [OF S_gc]
  txn_pure_effect [OF S_retention] txn_effect [OF S_fail]
  jread_effect health_effect restart_effect admit_effect validate_and_admit_effect

theorem journal_op_effect:
  assumes "allow op"
  shows "jdb_steps cfg allow (jdb_of j) (jdb_of (snd (journal_op sign sha256 cfg op dk clk j)))"
proof (cases op)
  case (OComplete a res r)
  have "jdb_steps cfg allow (jdb_of j)
      (jdb_of (snd (txn (record_completion_db clk a res r False) dk j)))"
    by (intro txn_effect) (rule S_complete, use assms OComplete in auto)
  then show ?thesis by (simp add: OComplete record_completion_def)
next
  case (OAck a)
  then have "jdb_steps cfg allow (jdb_of j) (jdb_of (snd (txn (\<lambda>d. Inr ((), mark_acked_db clk a d)) dk j)))"
    using assms by (intro txn_pure_effect) (simp add: S_ack)
  then show ?thesis by (simp add: OAck mark_acked_def)
next
  case (OCompleteEnqueue a res r)
  have "jdb_steps cfg allow (jdb_of j)
      (jdb_of (snd (txn (record_completion_db clk a res r True) dk j)))"
    by (intro txn_effect) (rule S_complete, auto)
  then show ?thesis by (simp add: OCompleteEnqueue record_completion_and_enqueue_def)
qed (simp_all only: journal_op.simps journal_op_defs snd_answer op_effects snd_conv snd_map_prod
      id_apply close_journal_db rtranclp.rtrancl_refl)

section \<open>The invariant of the database\<close>

text \<open>
  The key constraints of the schema; outbox numbers grow and stay within the counter; an
  acknowledged completion carries its time; and, which no constraint states, an
  authorization row is always accompanied by the reservation it admitted.
\<close>

definition outbox_ok :: "int \<Rightarrow> outbox_row list \<Rightarrow> bool" where
  "outbox_ok n rows \<longleftrightarrow>
     sorted_wrt (<) (map o_seq rows) \<and> (\<forall>r \<in> set rows. o_seq r \<le> n \<and> o_attempts r \<ge> 0)"

definition keys_ok :: "jdb \<Rightarrow> bool" where
  "keys_ok d \<longleftrightarrow>
     pk_ok r_attempt (reservations d) \<and> pk_ok t_attempt (tombstones d) \<and>
     pk_ok a_attempt (authorizations d) \<and> pk_ok a_token_hash (authorizations d) \<and>
     pk_ok w_epoch (watermarks d) \<and> pk_ok c_attempt (completions d)"

definition jdb_ok :: "jdb \<Rightarrow> bool" where
  "jdb_ok d \<longleftrightarrow>
     keys_ok d \<and> outbox_ok (last_seq d) (outbox d) \<and>
     (\<forall>a \<in> set (authorizations d). tbl_has r_attempt (a_attempt a) (reservations d)) \<and>
     (\<forall>c \<in> set (completions d). c_acked c = (c_acked_at c \<noteq> None))"

lemma jdb_okD:
  assumes "jdb_ok d"
  shows "pk_ok r_attempt (reservations d)" "pk_ok t_attempt (tombstones d)"
    "pk_ok a_attempt (authorizations d)" "pk_ok a_token_hash (authorizations d)"
    "pk_ok w_epoch (watermarks d)" "pk_ok c_attempt (completions d)"
    "outbox_ok (last_seq d) (outbox d)"
    "\<And>a. tbl_has a_attempt a (authorizations d) \<Longrightarrow> tbl_has r_attempt a (reservations d)"
    "\<And>c. c \<in> set (completions d) \<Longrightarrow> c_acked c = (c_acked_at c \<noteq> None)"
  using assms by (auto simp: jdb_ok_def keys_ok_def tbl_has_def)

lemma empty_jdb_ok: "jdb_ok empty_jdb"
  by (simp add: jdb_ok_def keys_ok_def outbox_ok_def empty_jdb_def)

lemma outbox_ok_snoc:
  "outbox_ok n rows \<Longrightarrow> o_attempts r \<ge> 0 \<Longrightarrow> o_seq r = n + 1 \<Longrightarrow> outbox_ok (n + 1) (rows @ [r])"
  by (fastforce simp: outbox_ok_def sorted_wrt_append)

lemma sorted_wrt_filter_map: "sorted_wrt P (map f xs) \<Longrightarrow> sorted_wrt P (map f (filter Q xs))"
  by (induction xs) auto

lemma outbox_ok_delete: "outbox_ok n rows \<Longrightarrow> outbox_ok n (delete_where P rows)"
  by (auto simp: outbox_ok_def delete_where_def sorted_wrt_filter_map)

lemma outbox_ok_update:
  "outbox_ok n rows \<Longrightarrow> (\<And>r. o_seq (f r) = o_seq r) \<Longrightarrow> (\<And>r. o_attempts r \<ge> 0 \<Longrightarrow> o_attempts (f r) \<ge> 0)
    \<Longrightarrow> outbox_ok n (update_where P f rows)"
  by (auto simp: outbox_ok_def map_update_where set_update_where)

text \<open>The rows a call appends to the outbox, as one list.\<close>

fun number_rows :: "int \<Rightarrow> instant \<Rightarrow> (string \<times> string \<times> string) list \<Rightarrow> outbox_row list" where
  "number_rows n now [] = []"
| "number_rows n now ((a, k, pl) # rest) =
     outbox_entry (n + 1) now a k pl # number_rows (n + 1) now rest"

lemma push_outbox_eq:
  "push_outbox now es d =
     d\<lparr>outbox := outbox d @ number_rows (last_seq d) now es, last_seq := last_seq d + int (length es)\<rparr>"
  by (induction now es d rule: push_outbox.induct) auto

lemma outbox_ok_push: "outbox_ok n rows \<Longrightarrow> outbox_ok (n + int (length es)) (rows @ number_rows n now es)"
proof (induction n now es arbitrary: rows rule: number_rows.induct)
  case (2 n now a k pl rest)
  have "outbox_ok (n + 1) (rows @ [outbox_entry (n + 1) now a k pl])"
    by (rule outbox_ok_snoc [OF 2(2)]) (simp_all add: outbox_entry_def)
  from 2(1) [OF this] show ?case by (simp add: algebra_simps)
qed simp

lemma set_number_rows:
  "r \<in> set (number_rows n now es) \<Longrightarrow> (o_attempt r, o_kind r, o_payload r) \<in> set es"
  by (induction n now es rule: number_rows.induct) (auto simp: outbox_entry_def)

lemma has_run_complete_number_rows:
  "has_run_complete a (number_rows n now es) \<longleftrightarrow> (\<exists>pl. (a, run_complete, pl) \<in> set es)"
  by (induction n now es rule: number_rows.induct) (auto simp: outbox_entry_def has_run_complete_def)

lemma has_run_complete_append [simp]:
  "has_run_complete a (rows @ news) \<longleftrightarrow> has_run_complete a rows \<or> has_run_complete a news"
  by (auto simp: has_run_complete_def)

lemma has_run_complete_update:
  "(\<And>r. o_attempt (f r) = o_attempt r) \<Longrightarrow> (\<And>r. o_kind (f r) = o_kind r) \<Longrightarrow>
     has_run_complete a (update_where P f rows) = has_run_complete a rows"
  by (induction rows) (auto simp: has_run_complete_def)

section \<open>Every effect keeps the invariant\<close>

lemma advance_watermark_ok: "jdb_ok d \<Longrightarrow> jdb_ok (advance_watermark_locked e n i d)"
  by (simp add: jdb_ok_def keys_ok_def advance_watermark_locked_def)

lemma meta_epoch_ok [simp]: "jdb_ok (d\<lparr>meta_epoch := e\<rparr>) = jdb_ok d"
  by (simp add: jdb_ok_def keys_ok_def)

lemma advance_watermark_frame [simp]:
  "reservations (advance_watermark_locked e n i d) = reservations d"
  "tombstones (advance_watermark_locked e n i d) = tombstones d"
  "authorizations (advance_watermark_locked e n i d) = authorizations d"
  "completions (advance_watermark_locked e n i d) = completions d"
  "outbox (advance_watermark_locked e n i d) = outbox d"
  "last_seq (advance_watermark_locked e n i d) = last_seq d"
  "meta_epoch (advance_watermark_locked e n i d) = meta_epoch d"
  by (simp_all add: advance_watermark_locked_def)

lemma watermark_of_advance:
  "watermark_of k (advance_watermark_locked e n i d) =
     (if k = e then Some (case watermark_of e d of None \<Rightarrow> n | Some w \<Rightarrow> max w n)
      else watermark_of k d)"
  by (auto simp: watermark_of_def advance_watermark_locked_def tbl_find_upsert split: option.splits)

text \<open>What an admission did, when it admitted.\<close>

lemma admit_txn_admitted:
  assumes "admit_txn cfg clk f p d = (Inr (Admitted a), d')"
  obtains d1 where "d1 = advance_watermark_locked (session_epoch_locked d) (clk 0 div 1000) (clk 1) d"
    and "a = af_attempt f" and "\<not> tbl_has t_attempt a (tombstones d)"
    and "\<not> tbl_has r_attempt a (reservations d)"
    and "clk 0 div 1000 \<ge> the (watermark_of (session_epoch_locked d) d1) - cfg_skew_s cfg * 1000"
    and "tbl_has a_attempt a (authorizations d) \<or> \<not> tbl_has a_token_hash (af_token_hash f) (authorizations d)"
    and "d' = (the (record_authorization f d1))\<lparr>reservations :=
                 reservations d @ [new_reservation f p (clk 2)]\<rparr>"
    and "record_authorization f d1 \<noteq> None"
  using assms
  by (fastforce simp: admit_txn_def Let_def record_authorization_def
      split: if_splits option.splits)

lemma record_authorization_ok:
  assumes "jdb_ok d" "record_authorization f d = Some d'"
    and "pk_ok r_attempt (reservations d @ rs)" "tbl_has r_attempt (af_attempt f) (reservations d @ rs)"
  shows "jdb_ok (d'\<lparr>reservations := reservations d @ rs\<rparr>)"
  using assms
  by (auto simp: record_authorization_def jdb_ok_def keys_ok_def split: if_splits)

lemma admit_txn_ok:
  assumes "jdb_ok d" "admit_txn cfg clk f p d = (Inr (Admitted a), d')"
  shows "jdb_ok d'"
proof -
  let ?d1 = "advance_watermark_locked (session_epoch_locked d) (clk 0 div 1000) (clk 1) d"
  from assms(2) obtain d2 where d2: "record_authorization f ?d1 = Some d2"
    and d': "d' = d2\<lparr>reservations := reservations ?d1 @ [new_reservation f p (clk 2)]\<rparr>"
    and free: "\<not> tbl_has r_attempt (af_attempt f) (reservations ?d1)"
    by (auto elim!: admit_txn_admitted)
  have "jdb_ok ?d1" using assms(1) by (rule advance_watermark_ok)
  then show ?thesis unfolding d'
    by (rule record_authorization_ok [OF _ d2])
      (use assms(1) free in \<open>auto simp: new_reservation_def jdb_okD\<close>)
qed

lemma push_outbox_ok: "jdb_ok d \<Longrightarrow> jdb_ok (push_outbox now es d)"
  by (auto simp: push_outbox_eq jdb_ok_def keys_ok_def intro: outbox_ok_push)

lemma update_reservations_ok:
  assumes "jdb_ok d" "\<And>r. r_attempt (g r) = r_attempt r"
  shows "jdb_ok (d\<lparr>reservations := update_where P g (reservations d)\<rparr>)"
  using assms by (simp add: jdb_ok_def keys_ok_def tbl_has_update_where)

lemma record_completion_InrE:
  assumes "record_completion_db clk a res r enqueue d = Inr (u, d')"
  obtains run where "resolve_run_id a r d = Some run"
    and "d' = (if enqueue
               then snd (respool_completions_locked (clk 1) (Some a) (commit_completion clk a res run d))
               else commit_completion clk a res run d)"
  using assms by (auto simp: record_completion_db_def Let_def split: option.splits if_splits)

lemma commit_completion_ok:
  assumes "jdb_ok d"
  shows "jdb_ok (commit_completion clk a res run d)"
  using update_reservations_ok [OF assms, of "\<lambda>r. r\<lparr>r_state := Completed\<rparr>" "\<lambda>r. r_attempt r = a"]
  by (auto simp: commit_completion_def jdb_ok_def keys_ok_def insert_ignore_def)

lemma record_completion_ok:
  assumes "jdb_ok d" "record_completion_db clk a res r enqueue d = Inr (u, d')"
  shows "jdb_ok d'"
  using assms(2)
  by (rule record_completion_InrE)
    (simp add: respool_completions_locked_def push_outbox_ok commit_completion_ok [OF assms(1)])

lemma mark_acked_ok: "jdb_ok d \<Longrightarrow> jdb_ok (mark_acked_db clk a d)"
  by (auto simp: mark_acked_db_def jdb_ok_def keys_ok_def outbox_ok_delete set_update_where)

lemma record_outbox_failure_ok:
  assumes "jdb_ok d" "record_outbox_failure_db clk s err d = Inr (u, d')"
  shows "jdb_ok d'"
proof -
  from assms(2) obtain row delay where row: "tbl_find o_seq s (outbox d) = Some row"
    and d': "d' = d\<lparr>outbox := update_where (\<lambda>o'. o_seq o' = s)
        (\<lambda>o'. o'\<lparr>o_attempts := o_attempts row + 1, o_last_error := Some err,
                o_next_at := clk 0 + delay * 1000000\<rparr>) (outbox d)\<rparr>"
    by (auto simp: record_outbox_failure_db_def Let_def split: option.splits)
  have "o_attempts row \<ge> 0"
    using tbl_find_SomeD [OF row] assms(1) by (auto simp: jdb_ok_def outbox_ok_def)
  then show ?thesis using assms(1) unfolding d'
    by (auto simp: jdb_ok_def keys_ok_def intro!: outbox_ok_update)
qed

lemma gc_expired_ok: "jdb_ok d \<Longrightarrow> jdb_ok (snd (gc_expired_db cfg clk now d))"
  using advance_watermark_ok [of d] by (auto simp: gc_expired_db_def Let_def jdb_ok_def keys_ok_def)

lemma cleanup_retention_ok: "jdb_ok d \<Longrightarrow> jdb_ok (snd (cleanup_retention_db cfg clk now d))"
  using advance_watermark_ok [of d]
  by (auto simp: cleanup_retention_db_def Let_def jdb_ok_def keys_ok_def outbox_ok_delete)

theorem jdb_step_ok: "jdb_step cfg allow d d' \<Longrightarrow> jdb_ok d \<Longrightarrow> jdb_ok d'"
proof (induction rule: jdb_step.induct)
  case (S_schema d)
  then show ?case by (auto simp: init_schema_def jdb_ok_def keys_ok_def split: option.splits)
next
  case (S_tombstone d clk a r why)
  then show ?case by (simp add: record_tombstone_db_def Let_def jdb_ok_def keys_ok_def)
next
  case (S_running d a)
  then show ?case by (simp add: mark_running_db_def Let_def update_reservations_ok)
next
  case (S_interrupt d)
  then show ?case by (simp add: mark_interrupted_db_def update_reservations_ok)
next
  case (S_epoch d)
  then show ?case by (simp add: advance_session_epoch_db_def)
next
  case (S_recover d clk)
  then show ?case
    by (simp add: recover_clock_lowering_db_def Let_def advance_watermark_ok)
qed (auto intro: admit_txn_ok record_completion_ok push_outbox_ok mark_acked_ok
      record_outbox_failure_ok gc_expired_ok cleanup_retention_ok
      simp: respool_completions_locked_def enqueue_outbox_db_def simp del: push_outbox.simps)

lemma jdb_steps_ok: "jdb_steps cfg allow d d' \<Longrightarrow> jdb_ok d \<Longrightarrow> jdb_ok d'"
  by (induction rule: rtranclp_induct) (auto intro: jdb_step_ok)

section \<open>What effects never undo\<close>

text \<open>A reservation row is never deleted.\<close>

definition reserved_attempt :: "string \<Rightarrow> jdb \<Rightarrow> bool" where
  "reserved_attempt a d \<longleftrightarrow> tbl_has r_attempt a (reservations d)"

text \<open>An attempt that no later admission may admit: reserved already, or revoked.\<close>

definition closed_attempt :: "string \<Rightarrow> jdb \<Rightarrow> bool" where
  "closed_attempt a d \<longleftrightarrow> reserved_attempt a d \<or> tbl_has t_attempt a (tombstones d)"

lemma push_outbox_frame [simp]:
  "reservations (push_outbox now es d) = reservations d"
  "tombstones (push_outbox now es d) = tombstones d"
  "authorizations (push_outbox now es d) = authorizations d"
  "completions (push_outbox now es d) = completions d"
  "watermarks (push_outbox now es d) = watermarks d"
  "meta_epoch (push_outbox now es d) = meta_epoch d"
  by (simp_all add: push_outbox_eq)

lemma record_authorization_frame:
  assumes "record_authorization f d = Some d'"
  shows "reservations d' = reservations d" "tombstones d' = tombstones d"
    "completions d' = completions d" "watermarks d' = watermarks d" "outbox d' = outbox d"
    "meta_epoch d' = meta_epoch d"
  using assms by (auto simp: record_authorization_def split: if_splits)

lemma admit_txn_frame:
  assumes "admit_txn cfg clk f p d = (Inr (Admitted a), d')"
  shows "reservations d' = reservations d @ [new_reservation f p (clk 2)]"
    "tombstones d' = tombstones d" "completions d' = completions d" "outbox d' = outbox d"
    "meta_epoch d' = meta_epoch d"
    "watermarks d' = watermarks (advance_watermark_locked (session_epoch_locked d) (clk 0 div 1000) (clk 1) d)"
  using assms by (auto elim!: admit_txn_admitted simp: record_authorization_frame)

text \<open>The parts of the database the remaining effects touch, one equation per effect.\<close>

lemmas effect_defs =
  init_schema_def mark_running_db_def record_tombstone_db_def respool_completions_locked_def
  enqueue_outbox_db_def mark_acked_db_def mark_interrupted_db_def advance_session_epoch_db_def
  recover_clock_lowering_db_def gc_expired_db_def cleanup_retention_db_def Let_def

lemma record_completion_frame:
  assumes "record_completion_db clk a res r enqueue d = Inr (u, d')"
  shows "reservations d' = update_where (\<lambda>r. r_attempt r = a) (\<lambda>r. r\<lparr>r_state := Completed\<rparr>) (reservations d)"
    "tombstones d' = tombstones d" "authorizations d' = authorizations d"
    "watermarks d' = watermarks d" "meta_epoch d' = meta_epoch d"
  using assms
  by (auto elim!: record_completion_InrE simp: respool_completions_locked_def commit_completion_def)

lemma record_outbox_failure_frame:
  assumes "record_outbox_failure_db clk s err d = Inr (u, d')"
  shows "reservations d' = reservations d" "tombstones d' = tombstones d"
    "authorizations d' = authorizations d" "completions d' = completions d"
    "watermarks d' = watermarks d" "meta_epoch d' = meta_epoch d"
  using assms by (auto simp: record_outbox_failure_db_def Let_def split: option.splits)

lemma jdb_step_reserved: "jdb_step cfg allow d d' \<Longrightarrow> reserved_attempt a d \<Longrightarrow> reserved_attempt a d'"
  by (induction rule: jdb_step.induct)
    (auto simp: reserved_attempt_def effect_defs tbl_has_update_where admit_txn_frame
      record_completion_frame record_outbox_failure_frame simp del: push_outbox.simps
      split: option.splits)

lemma jdb_steps_reserved: "jdb_steps cfg allow d d' \<Longrightarrow> reserved_attempt a d \<Longrightarrow> reserved_attempt a d'"
  by (induction rule: rtranclp_induct) (auto intro: jdb_step_reserved)

lemma tbl_has_delete_where:
  "tbl_has key k t \<Longrightarrow> (\<And>r. r \<in> set t \<Longrightarrow> key r = k \<Longrightarrow> \<not> P r) \<Longrightarrow> tbl_has key k (delete_where P t)"
  by (auto simp: tbl_has_def)

text \<open>
  Garbage collection and retention delete a tombstone only where an authorization row of
  the attempt exists, and then the attempt has its reservation.
\<close>

lemma gc_tombstone_kept:
  assumes "jdb_ok d" "closed_attempt a d"
  shows "closed_attempt a (snd (gc_expired_db cfg clk now d))"
    and "closed_attempt a (snd (cleanup_retention_db cfg clk now d))"
proof -
  have "closed_attempt a (snd (gc_expired_db cfg clk now d)) \<and>
        closed_attempt a (snd (cleanup_retention_db cfg clk now d))"
  proof (cases "reserved_attempt a d")
    case True
    then show ?thesis
      by (simp add: closed_attempt_def reserved_attempt_def gc_expired_db_def
          cleanup_retention_db_def Let_def)
  next
    case False
    then have tomb: "tbl_has t_attempt a (tombstones d)"
      and unauth: "\<forall>x \<in> set (authorizations d). a_attempt x \<noteq> a"
      using assms jdb_okD(8) [OF assms(1), of a]
      by (auto simp: closed_attempt_def reserved_attempt_def tbl_has_def)
    have keep: "tbl_has t_attempt a (delete_where P (tombstones d))"
      if "\<And>t. P t \<Longrightarrow> \<exists>x \<in> set (authorizations d). a_attempt x = t_attempt t" for P
      using tomb unauth that by (fastforce intro: tbl_has_delete_where)
    show ?thesis
      by (auto simp: closed_attempt_def gc_expired_db_def cleanup_retention_db_def Let_def intro!: keep)
  qed
  then show "closed_attempt a (snd (gc_expired_db cfg clk now d))"
    and "closed_attempt a (snd (cleanup_retention_db cfg clk now d))" by auto
qed

lemma jdb_step_closed:
  "jdb_step cfg allow d d' \<Longrightarrow> jdb_ok d \<Longrightarrow> closed_attempt a d \<Longrightarrow> closed_attempt a d'"
proof (induction rule: jdb_step.induct)
  case (S_gc d clk now)
  then show ?case by (rule gc_tombstone_kept(1))
next
  case (S_retention d clk now)
  then show ?case by (rule gc_tombstone_kept(2))
qed (auto simp: closed_attempt_def reserved_attempt_def effect_defs tbl_has_update_where
      admit_txn_frame record_completion_frame record_outbox_failure_frame
      simp del: push_outbox.simps split: option.splits)

lemma jdb_steps_closed:
  "jdb_steps cfg allow d d' \<Longrightarrow> jdb_ok d \<Longrightarrow> closed_attempt a d \<Longrightarrow> closed_attempt a d'"
  by (induction rule: rtranclp_induct) (auto intro: jdb_step_closed jdb_steps_ok)

section \<open>Epochs and watermarks\<close>

definition wm_le :: "jdb \<Rightarrow> jdb \<Rightarrow> bool" where
  "wm_le d d' \<longleftrightarrow> (\<forall>e w. watermark_of e d = Some w \<longrightarrow> (\<exists>w'. watermark_of e d' = Some w' \<and> w \<le> w'))"

lemma wm_le_refl [simp]: "wm_le d d"
  by (simp add: wm_le_def)

lemma wm_le_trans: "wm_le d1 d2 \<Longrightarrow> wm_le d2 d3 \<Longrightarrow> wm_le d1 d3"
  unfolding wm_le_def by (meson order_trans)

lemma wm_le_cong: "watermarks d2 = watermarks d2' \<Longrightarrow> wm_le d1 d2 = wm_le d1 d2'"
  by (simp add: wm_le_def watermark_of_def)

lemma wm_le_same: "watermarks d' = watermarks d \<Longrightarrow> wm_le d d'"
  using wm_le_cong wm_le_refl by metis

lemma wm_le_advance: "watermarks d0 = watermarks d \<Longrightarrow> wm_le d (advance_watermark_locked e n i d0)"
proof -
  assume "watermarks d0 = watermarks d"
  then have "watermark_of k d0 = watermark_of k d" for k by (simp add: watermark_of_def)
  then show ?thesis by (simp add: wm_le_def watermark_of_advance)
qed

lemma jdb_step_wm: "jdb_step cfg allow d d' \<Longrightarrow> wm_le d d'"
proof (induction rule: jdb_step.induct)
  case (S_admit clk f p d a d')
  then show ?case using wm_le_cong admit_txn_frame(6) wm_le_advance by metis
next
  case (S_recover d clk)
  show ?case by (simp add: recover_clock_lowering_db_def Let_def wm_le_advance)
next
  case (S_gc d clk now)
  show ?case unfolding gc_expired_db_def Let_def snd_conv
    by (rule wm_le_cong [THEN iffD1, OF _ wm_le_advance]) auto
next
  case (S_retention d clk now)
  show ?case unfolding cleanup_retention_db_def Let_def snd_conv
    by (rule wm_le_cong [THEN iffD1, OF _ wm_le_advance]) auto
qed (auto intro!: wm_le_same simp: effect_defs record_completion_frame record_outbox_failure_frame
      simp del: push_outbox.simps split: option.splits)

lemma jdb_steps_wm: "jdb_steps cfg allow d d' \<Longrightarrow> wm_le d d'"
  by (induction rule: rtranclp_induct) (auto intro: wm_le_trans jdb_step_wm)

text \<open>The schema gives the first epoch; from then on the epoch only grows.\<close>

lemma jdb_step_epoch: "jdb_step cfg allow d d' \<Longrightarrow> session_epoch_locked d \<ge> 0 \<Longrightarrow> session_epoch_locked d \<le> session_epoch_locked d'"
  by (induction rule: jdb_step.induct)
    (auto simp: session_epoch_locked_def effect_defs admit_txn_frame record_completion_frame
      record_outbox_failure_frame simp del: push_outbox.simps split: option.splits)

lemma jdb_steps_epoch:
  "jdb_steps cfg allow d d' \<Longrightarrow> session_epoch_locked d \<ge> 0 \<Longrightarrow> session_epoch_locked d \<le> session_epoch_locked d'"
proof (induction rule: rtranclp_induct)
  case (step d1 d2)
  then show ?case using jdb_step_epoch [OF step(2)] by linarith
qed simp

section \<open>Delivery\<close>

text \<open>No completion waiting for its acknowledgement is without a delivery row.\<close>

definition no_stranded :: "jdb \<Rightarrow> bool" where
  "no_stranded d \<longleftrightarrow> stranded None d = []"

lemma no_stranded_iff:
  "no_stranded d \<longleftrightarrow> (\<forall>c \<in> set (completions d). \<not> c_acked c \<longrightarrow> has_run_complete (c_attempt c) (outbox d))"
  by (auto simp: no_stranded_def stranded_def filter_empty_conv)

lemma no_stranded_mono:
  assumes "no_stranded d" and "\<And>c. c \<in> set (completions d') \<Longrightarrow> \<not> c_acked c \<Longrightarrow> c \<in> set (completions d)"
    and "\<And>c. c \<in> set (completions d') \<Longrightarrow> \<not> c_acked c \<Longrightarrow> has_run_complete (c_attempt c) (outbox d) \<Longrightarrow>
           has_run_complete (c_attempt c) (outbox d')"
  shows "no_stranded d'"
  using assms by (auto simp: no_stranded_iff)

lemma respool_covers:
  assumes "c \<in> set (completions d)" "\<not> c_acked c" "which = None \<or> which = Some (c_attempt c)"
  shows "has_run_complete (c_attempt c) (outbox (snd (respool_completions_locked now which d)))"
  using assms
  by (force simp: respool_completions_locked_def push_outbox_eq has_run_complete_number_rows
      stranded_def image_iff)

lemma respool_keeps:
  "has_run_complete a (outbox d) \<Longrightarrow>
     has_run_complete a (outbox (snd (respool_completions_locked now which d)))"
  by (simp add: respool_completions_locked_def push_outbox_eq)

lemma respool_no_stranded: "no_stranded (snd (respool_completions_locked now None d))"
  unfolding no_stranded_iff using respool_covers [of _ d None now]
  by (auto simp: respool_completions_locked_def)

lemma record_completion_no_stranded:
  assumes "no_stranded d" "record_completion_db clk a res r True d = Inr (u, d')"
  shows "no_stranded d'"
proof -
  from assms(2) obtain run where
    d': "d' = snd (respool_completions_locked (clk 1) (Some a) (commit_completion clk a res run d))"
    by (rule record_completion_InrE) simp
  let ?d2 = "commit_completion clk a res run d"
  have cs: "c \<in> set (completions d) \<or> c_attempt c = a" if "c \<in> set (completions ?d2)" for c
    using that by (auto simp: commit_completion_def insert_ignore_def split: if_splits)
  have "has_run_complete (c_attempt c) (outbox d')" if c: "c \<in> set (completions ?d2)" "\<not> c_acked c" for c
  proof (cases "c_attempt c = a")
    case True
    then show ?thesis unfolding d' using respool_covers [OF c] by simp
  next
    case False
    then have "has_run_complete (c_attempt c) (outbox ?d2)"
      using cs [OF c(1)] c(2) assms(1) by (auto simp: no_stranded_iff commit_completion_def)
    then show ?thesis unfolding d' by (rule respool_keeps)
  qed
  then show ?thesis by (auto simp: no_stranded_iff d' respool_completions_locked_def)
qed

lemma mark_acked_no_stranded: "no_stranded d \<Longrightarrow> no_stranded (mark_acked_db clk a d)"
  by (rule no_stranded_mono [of d])
    (auto simp: mark_acked_db_def set_update_where has_run_complete_def split: if_splits)

lemma cleanup_retention_no_stranded:
  assumes "jdb_ok d" "no_stranded d"
  shows "no_stranded (snd (cleanup_retention_db cfg clk now d))"
proof (rule no_stranded_mono [OF assms(2)])
  fix c
  assume c: "c \<in> set (completions (snd (cleanup_retention_db cfg clk now d)))" "\<not> c_acked c"
  then show "c \<in> set (completions d)" by (auto simp: cleanup_retention_db_def Let_def)
  have other: "c' = c" if "c' \<in> set (completions d)" "c_attempt c' = c_attempt c" for c'
    using pk_ok_eq [OF jdb_okD(6) [OF assms(1)]] that \<open>c \<in> set (completions d)\<close> by blast
  have kept: "\<not> c_acked x" if "x \<in> set (completions d)" "c_attempt x = c_attempt c" for x
    using other [OF that] c(2) by simp
  assume "has_run_complete (c_attempt c) (outbox d)"
  then obtain r where "r \<in> set (outbox d)" "o_attempt r = c_attempt c" "o_kind r = run_complete"
    by (auto simp: has_run_complete_def)
  then show "has_run_complete (c_attempt c) (outbox (snd (cleanup_retention_db cfg clk now d)))"
    by (auto simp: has_run_complete_def cleanup_retention_db_def Let_def intro!: exI [of _ r] dest: kept)
qed

lemma jdb_step_no_stranded:
  "jdb_step cfg allow d d' \<Longrightarrow> (\<And>a res r. \<not> allow (OComplete a res r)) \<Longrightarrow> jdb_ok d \<Longrightarrow> no_stranded d
    \<Longrightarrow> no_stranded d'"
proof (induction rule: jdb_step.induct)
  case (S_complete enqueue a res r clk d u d')
  then have enqueue by simp
  with S_complete show ?case by (simp add: record_completion_no_stranded)
next
  case (S_fail clk s err d u d')
  then show ?case
    by (auto simp: record_outbox_failure_db_def Let_def no_stranded_iff has_run_complete_update
        split: option.splits)
next
  case (S_enqueue d clk a k pl)
  then show ?case
    by (auto simp: enqueue_outbox_db_def push_outbox_eq no_stranded_iff simp del: push_outbox.simps)
next
  case (S_respool d now)
  show ?case by (rule respool_no_stranded)
next
  case (S_ack a d clk)
  then show ?case by (simp add: mark_acked_no_stranded)
next
  case (S_retention d clk now)
  then show ?case by (simp add: cleanup_retention_no_stranded)
qed (simp_all add: no_stranded_iff admit_txn_frame init_schema_def mark_running_db_def
        record_tombstone_db_def mark_interrupted_db_def advance_session_epoch_db_def
        recover_clock_lowering_db_def gc_expired_db_def Let_def
      split: option.splits)

lemma jdb_steps_no_stranded:
  "jdb_steps cfg allow d d' \<Longrightarrow> (\<And>a res r. \<not> allow (OComplete a res r)) \<Longrightarrow> jdb_ok d \<Longrightarrow> no_stranded d
    \<Longrightarrow> no_stranded d'"
  by (induction rule: rtranclp_induct) (auto intro: jdb_step_no_stranded jdb_steps_ok)

text \<open>
  A result waiting for its acknowledgement is not touched by any other call: a second
  completion of the attempt loses, and retention deletes acknowledged rows only.
\<close>

definition unacked_result :: "string \<Rightarrow> completion \<Rightarrow> jdb \<Rightarrow> bool" where
  "unacked_result a c d \<longleftrightarrow> tbl_find c_attempt a (completions d) = Some c \<and> \<not> c_acked c"

lemma commit_completion_unacked:
  "unacked_result a c d \<Longrightarrow> unacked_result a c (commit_completion clk a' res run d)"
  by (simp add: unacked_result_def commit_completion_def tbl_find_insert_ignore)

lemma jdb_step_unacked:
  "jdb_step cfg allow d d' \<Longrightarrow> \<not> allow (OAck a) \<Longrightarrow> jdb_ok d \<Longrightarrow> unacked_result a c d
    \<Longrightarrow> unacked_result a c d'"
proof (induction rule: jdb_step.induct)
  case (S_complete enqueue a' res r clk d u d')
  from S_complete(2) obtain run where "completions d' = completions (commit_completion clk a' res run d)"
    by (rule record_completion_InrE) (simp add: respool_completions_locked_def)
  then show ?case
    using commit_completion_unacked [OF S_complete(5)] by (simp add: unacked_result_def)
next
  case (S_ack a' d clk)
  then have "a \<noteq> a'" by auto
  then show ?case using S_ack
    by (auto simp: unacked_result_def mark_acked_db_def tbl_find_update_where dest: tbl_find_SomeD)
next
  case (S_retention d clk now)
  then show ?case
    by (simp add: unacked_result_def cleanup_retention_db_def Let_def
        tbl_find_delete_where_pk [OF jdb_okD(6)])
qed (simp_all add: unacked_result_def effect_defs admit_txn_frame record_outbox_failure_frame
      del: push_outbox.simps split: option.splits)

lemma jdb_steps_unacked:
  "jdb_steps cfg allow d d' \<Longrightarrow> \<not> allow (OAck a) \<Longrightarrow> jdb_ok d \<Longrightarrow> unacked_result a c d
    \<Longrightarrow> unacked_result a c d'"
  by (induction rule: rtranclp_induct) (auto intro: jdb_step_unacked jdb_steps_ok)

end
