(* ===== verification/Journal_Props.thy ===== *)
theory Journal_Props
  imports Journal_Machine
begin

text \<open>
  The properties of the worker journal: what a run of calls, in any order, interleaved with
  closings and restarts and under any clock, can and cannot do. The machine interface is
  interpreted on \<open>journal_step\<close> and the completions table on the first-wins interface; the
  properties rest on these and on the effect lemmas.
\<close>

section \<open>Interpretations\<close>

lemma journal_step_effect:
  "allow (fst e) \<Longrightarrow>
     jdb_steps cfg allow (jdb_of j) (jdb_of (snd (journal_step sign sha256 cfg e j)))"
  by (cases e) (simp add: journal_step_def journal_op_effect)

lemmas any_step_effect = journal_step_effect [where allow = "\<lambda>_. True", simplified]

interpretation jm: op_machine "journal_step sign sha256 cfg" "\<lambda>j. jdb_ok (jdb_of j)"
  for sign sha256 cfg
  by unfold_locales (rule jdb_steps_ok [OF any_step_effect])

interpretation completions_store: first_wins "tbl_find c_attempt" "insert_ignore c_attempt" c_attempt
  "pk_ok c_attempt"
  by (rule insert_ignore_first_wins)

text \<open>The journal on a file that does not exist yet.\<close>

definition fresh_journal :: "disk \<Rightarrow> int \<Rightarrow> int \<Rightarrow> wjournal" where
  "fresh_journal dk quota_mb headroom_mb = init_journal dk empty_jdb quota_mb headroom_mb"

lemma fresh_journal_ok: "jdb_ok (jdb_of (fresh_journal dk q h))"
proof -
  have "jdb_steps undefined (\<lambda>_. True) empty_jdb (jdb_of (fresh_journal dk q h))"
    unfolding fresh_journal_def init_journal_def
    by (rule open_journal_effect [where j = "\<lparr>jdb_of = empty_jdb, conn_open = c, fatal = f,
         quarantined = u, quota_bytes = qb, headroom_bytes = hb\<rparr>" for c f u qb hb, simplified])
  then show ?thesis using empty_jdb_ok by (rule jdb_steps_ok)
qed

text \<open>Concrete inputs for the examples: a working disk, a configuration, a stopped clock.\<close>

definition ok_disk :: disk where
  "ok_disk = \<lparr>dk_open = SqOk, dk_probe = ProbeOk, dk_size = 0\<rparr>"

definition std_cfg :: jcfg where
  "std_cfg = \<lparr>cfg_max_ttl_s = 300, cfg_skew_s = 60, cfg_audit_retention_s = 604800,
     cfg_replay_retention_s = 86400\<rparr>"

definition at_s :: "int \<Rightarrow> clock" where
  "at_s t = (\<lambda>_. t * 1000000)"

definition plain_sign :: "string \<Rightarrow> string \<Rightarrow> string" where
  "plain_sign payload secret = ''f'' @ secret"

definition start_decision :: "string \<Rightarrow> string \<Rightarrow> auth_decision" where
  "start_decision a h =
     \<lparr>ad_valid = True, ad_reason = None, ad_attempt = Some a, ad_run = Some ''run'',
      ad_generation = Some 1, ad_slot = Some '''', ad_session = Some ''w'', ad_epoch = Some 1,
      ad_token_hash = Some h, ad_issued_at = Some 0, ad_expires_at = Some 60000000\<rparr>"

abbreviation demo_step :: "jevent \<Rightarrow> wjournal \<Rightarrow> jout \<times> wjournal" where
  "demo_step \<equiv> journal_step plain_sign id std_cfg"

abbreviation demo_journal :: wjournal where
  "demo_journal \<equiv> fresh_journal ok_disk 0 0"

section \<open>Admission\<close>

definition admits :: "string \<Rightarrow> jout \<Rightarrow> bool" where
  "admits a x \<longleftrightarrow> x = JAdmission (Admitted a)"

lemma answer_admits:
  "fst (answer JAdmission r) = JAdmission (Admitted a) \<longleftrightarrow> fst r = Inr (Admitted a)"
  by (auto simp: answer_def split: sum.splits)

lemma answer_other:
  "(\<And>x. f x \<noteq> JAdmission (Admitted a)) \<Longrightarrow> fst (answer f r) \<noteq> JAdmission (Admitted a)"
  by (auto simp: answer_def split: sum.splits)

lemma admit_admitted:
  assumes "fst (admit cfg dk clk ad p j) = Inr (Admitted a)"
  obtains f d where "required_fields ad = Some f" and "jdb_steps cfg allow (jdb_of j) d"
    and "authorizations d = authorizations (jdb_of j)"
    and "admit_txn cfg clk f p d = (Inr (Admitted a), jdb_of (snd (admit cfg dk clk ad p j)))"
proof -
  obtain e j' where h: "ensure_admitting dk j = (e, j')" by (cases "ensure_admitting dk j") auto
  then have eff: "jdb_steps cfg allow (jdb_of j) (jdb_of j')"
    and auths: "authorizations (jdb_of j') = authorizations (jdb_of j)"
    using health_effect [of cfg allow j dk] health_db [of dk j] ensure_admitting_snd [of dk j]
    by auto
  from assms h obtain f where f: "required_fields ad = Some f" "ad_valid ad" "e = None"
    "fst (admit_txn cfg clk f p (jdb_of j')) = Inr (Admitted a)"
    by (auto simp: admit_def split: if_splits option.splits prod.splits)
  then have "admit_txn cfg clk f p (jdb_of j') = (Inr (Admitted a), jdb_of (snd (admit cfg dk clk ad p j)))"
    using h by (auto simp: admit_def split: prod.splits)
  then show thesis using that f(1) eff auths by blast
qed

lemma admit_refused [simp]:
  "admit cfg dk clk (refused_decision why att) p j = (Inr (RefusedAuth att why), j)"
  by (simp add: admit_def refused_decision_def)

lemma validate_admitted:
  assumes "fst (validate_and_admit sign sha256 cfg dk clk tok p ws cur prev now j) = Inr (Admitted a)"
  obtains j' res clk' where "ensure_open dk j = (None, j')"
    and "validate_start_authorization sign tok ws cur prev (cfg_max_ttl_s cfg) (cfg_skew_s cfg)
           ((case now of Some t \<Rightarrow> t | None \<Rightarrow> clk 0) div 1000000) = Inr res"
    and "ar_valid res"
    and "retirement_check cfg (sha256 tok) (the (ar_issued_at_unix res)) (the (ar_ttl_s res)) (jdb_of j') = None"
    and "validate_and_admit sign sha256 cfg dk clk tok p ws cur prev now j =
         admit cfg dk clk' (token_decision res ws (session_epoch_locked (jdb_of j')) (sha256 tok)) p j'"
  using assms
  by (auto simp: validate_and_admit_def Let_def split: option.splits sum.splits if_splits prod.splits)

lemma journal_step_admitted:
  assumes "admits a (fst (journal_step sign sha256 cfg e j))"
  obtains clk f p d where "jdb_steps cfg allow (jdb_of j) d"
    and "admit_txn cfg clk f p d = (Inr (Admitted a), jdb_of (snd (journal_step sign sha256 cfg e j)))"
proof -
  obtain op dk clk where e: "e = (op, dk, clk)" by (cases e)
  show thesis
  proof (cases op)
    case (OAdmit ad p)
    then show thesis using assms e that
      by (auto simp: admits_def journal_step_def answer_admits elim!: admit_admitted [where allow = allow])
  next
    case (OValidate tok p ws cur prev now)
    let ?v = "validate_and_admit sign sha256 cfg dk clk tok p ws cur prev now j"
    have "fst ?v = Inr (Admitted a)"
      using assms e OValidate by (simp add: admits_def journal_step_def answer_admits)
    then obtain j' ad clk' where o: "ensure_open dk j = (None, j')" and v: "?v = admit cfg dk clk' ad p j'"
      and adm: "fst (admit cfg dk clk' ad p j') = Inr (Admitted a)"
      by (metis validate_admitted)
    have eff: "jdb_steps cfg allow (jdb_of j) (jdb_of j')"
      using ensure_open_effect [of cfg allow j dk] o by simp
    from adm obtain f d where "jdb_steps cfg allow (jdb_of j') d"
      and "admit_txn cfg clk' f p d = (Inr (Admitted a), jdb_of (snd (admit cfg dk clk' ad p j')))"
      by (rule admit_admitted)
    then show thesis using that eff v e OValidate
      by (simp add: journal_step_def) (meson rtranclp_trans)
  qed (use assms e in \<open>simp_all add: admits_def journal_step_def answer_other\<close>)
qed

lemma closed_not_admitted:
  assumes "jdb_ok (jdb_of j)" "closed_attempt a (jdb_of j)"
  shows "\<not> admits a (fst (journal_step sign sha256 cfg e j))"
proof
  assume "admits a (fst (journal_step sign sha256 cfg e j))"
  then obtain clk f p d where d: "jdb_steps cfg (\<lambda>_. True) (jdb_of j) d"
    "admit_txn cfg clk f p d = (Inr (Admitted a), jdb_of (snd (journal_step sign sha256 cfg e j)))"
    by (rule journal_step_admitted)
  have "closed_attempt a d" using jdb_steps_closed [OF d(1)] assms by blast
  with d(2) show False
    by (auto simp: closed_attempt_def reserved_attempt_def elim!: admit_txn_admitted)
qed

lemma admitted_closed:
  assumes "admits a (fst (journal_step sign sha256 cfg e j))"
  shows "closed_attempt a (jdb_of (snd (journal_step sign sha256 cfg e j)))"
  using assms
proof (rule journal_step_admitted)
  fix clk f p d
  assume "admit_txn cfg clk f p d = (Inr (Admitted a), jdb_of (snd (journal_step sign sha256 cfg e j)))"
  then show ?thesis
    by (auto simp: closed_attempt_def reserved_attempt_def admit_txn_frame(1) new_reservation_def
        elim!: admit_txn_admitted)
qed

lemma step_closed:
  "jdb_ok (jdb_of j) \<Longrightarrow> closed_attempt a (jdb_of j) \<Longrightarrow>
     closed_attempt a (jdb_of (snd (journal_step sign sha256 cfg e j)))"
  by (rule jdb_steps_closed [OF any_step_effect])

text \<open>C1. On every journal that grew from an empty file through any sequence of calls, closings
  and restarts, the database invariant holds: primary keys and token hashes are unique, outbox
  numbers increase and stay within the counter, acknowledged completions carry their time, and
  every recorded authorization is accompanied by the reservation of its attempt.\<close>

theorem journal_reachable_ok:
  "jdb_ok (jdb_of (snd (run_ops (journal_step sign sha256 cfg) es (fresh_journal dk q h))))"
  by (rule jm.run_inv) (rule fresh_journal_ok)

text \<open>C2. Over the whole life of a journal an attempt is admitted at most once, whatever tokens are
  presented, however often the worker restarts, and whatever garbage collection, retention or
  epoch changes happen in between.\<close>

theorem admitted_at_most_once:
  "length (filter (admits a)
     (fst (run_ops (journal_step sign sha256 cfg) es (fresh_journal dk q h)))) \<le> 1"
  by (rule jm.run_once [where P = "\<lambda>j. closed_attempt a (jdb_of j)"])
    (auto intro: step_closed closed_not_admitted [THEN notE] admitted_closed fresh_journal_ok)

text \<open>C3. Once a revocation of an attempt has been recorded, no later call admits that attempt, even
  after the tombstone itself has been garbage-collected or swept by retention.\<close>

theorem revoked_never_admitted:
  assumes "jdb_ok (jdb_of j)"
    and "journal_step sign sha256 cfg (OTombstone a r why, dk, clk) j = (JTomb t, j')"
  shows "filter (admits a) (fst (run_ops (journal_step sign sha256 cfg) es j')) = []"
proof -
  have ok: "jdb_ok (jdb_of j')" using jm.exec_inv [OF assms(1)] assms(2) by (metis snd_conv)
  have "closed_attempt a (jdb_of j')"
    using assms(2)
    by (auto simp: journal_step_def record_tombstone_def answer_def txn_def record_tombstone_db_def
        Let_def closed_attempt_def split: prod.splits option.splits sum.splits)
  then show ?thesis
    using jm.run_never [where P = "\<lambda>j. closed_attempt a (jdb_of j)" and bad = "admits a",
        OF step_closed closed_not_admitted ok] by (auto simp: filter_empty_conv)
qed

lemma step_pairI: "fst (demo_step e j) = x \<Longrightarrow> demo_step e j = (x, snd (demo_step e j))"
  by auto

theorem revoked_never_admitted_witness:
  "filter (admits ''a'')
     (fst (run_ops demo_step [(OAdmit (start_decision ''a'' ''h'') ''p'', ok_disk, at_s 20)]
        (snd (demo_step (OTombstone ''a'' ''run'' ''stop'', ok_disk, at_s 10) demo_journal)))) = []"
  by (rule revoked_never_admitted [OF fresh_journal_ok step_pairI]) code_simp

lemma run_effect:
  "(\<And>e. e \<in> set es \<Longrightarrow> allow (fst e)) \<Longrightarrow>
     jdb_steps cfg allow (jdb_of j) (jdb_of (snd (run_ops (journal_step sign sha256 cfg) es j)))"
proof (induction es arbitrary: j)
  case (Cons e es)
  have "jdb_steps cfg allow (jdb_of j) (jdb_of (snd (journal_step sign sha256 cfg e j)))"
    using Cons.prems by (simp add: journal_step_effect)
  moreover have "jdb_steps cfg allow (jdb_of (snd (journal_step sign sha256 cfg e j)))
      (jdb_of (snd (run_ops (journal_step sign sha256 cfg) es (snd (journal_step sign sha256 cfg e j)))))"
    using Cons by simp
  ultimately show ?case by (auto split: prod.splits intro: rtranclp_trans)
qed simp

text \<open>The rejection watermark of an epoch is never lowered and never lost: not by restarts, not
  by a clock that runs backwards, not by moving to a new epoch.\<close>

theorem watermark_never_lowered:
  assumes "watermark_of ep (jdb_of j) = Some w"
  shows "\<exists>w'. watermark_of ep (jdb_of (snd (run_ops (journal_step sign sha256 cfg) es j))) = Some w' \<and> w \<le> w'"
  using jdb_steps_wm [OF run_effect [where allow = "\<lambda>_. True"]] assms by (auto simp: wm_le_def)

theorem watermark_never_lowered_witness:
  "\<exists>w'. watermark_of 1 (jdb_of (snd (run_ops demo_step
       [(OGc None, ok_disk, at_s 5), (ORestart 0 0, ok_disk, at_s 5)]
       (snd (demo_step (OGc None, ok_disk, at_s 10) demo_journal))))) = Some w' \<and> 10000 \<le> w'"
  by (rule watermark_never_lowered) code_simp

text \<open>The collector's own effect on the watermark of its epoch.\<close>

lemma gc_watermark:
  assumes "meta_epoch d = Some ep"
  shows "\<exists>w. watermark_of ep (snd (gc_expired_db cfg clk now d)) = Some w \<and>
             (case now of Some t \<Rightarrow> t | None \<Rightarrow> clk 0) div 1000 \<le> w"
proof -
  let ?t = "(case now of Some t \<Rightarrow> t | None \<Rightarrow> clk 0) div 1000"
  let ?u = "case now of None \<Rightarrow> clk 1 | Some t \<Rightarrow> clk 0"
  have "session_epoch_locked d = ep" using assms by (simp add: session_epoch_locked_def)
  then have "watermark_of ep (snd (gc_expired_db cfg clk now d)) =
        watermark_of ep (advance_watermark_locked ep ?t ?u d)"
    by (simp add: gc_expired_db_def Let_def watermark_of_def)
  then show ?thesis by (auto simp: watermark_of_advance split: option.splits)
qed

lemma token_decision_fields:
  assumes "required_fields (token_decision res ws ep h) = Some f"
  shows "af_token_hash f = h" "af_epoch f = ep"
  using assms by (auto simp: required_fields_def token_decision_def split: option.splits)

text \<open>An attempt without a reservation is not admitted with a token hash on record.\<close>

lemma used_hash_not_admitted:
  assumes "jdb_ok (jdb_of j)" "tbl_has a_token_hash h (authorizations (jdb_of j))"
  shows "fst (admit cfg dk clk (token_decision res ws ep h) p j) \<noteq> Inr (Admitted a)"
proof
  assume "fst (admit cfg dk clk (token_decision res ws ep h) p j) = Inr (Admitted a)"
  then obtain f d where f: "required_fields (token_decision res ws ep h) = Some f"
    and d: "jdb_steps cfg (\<lambda>_. True) (jdb_of j) d" "authorizations d = authorizations (jdb_of j)"
    and adm: "admit_txn cfg clk f p d =
      (Inr (Admitted a), jdb_of (snd (admit cfg dk clk (token_decision res ws ep h) p j)))"
    by (rule admit_admitted)
  have ok: "jdb_ok d" using jdb_steps_ok [OF d(1) assms(1)] .
  have "tbl_has a_token_hash (af_token_hash f) (authorizations d)"
    using token_decision_fields(1) [OF f] assms(2) d(2) by simp
  then have "tbl_has a_attempt a (authorizations d)" and "\<not> tbl_has r_attempt a (reservations d)"
    using adm by (auto elim!: admit_txn_admitted)
  then show False using jdb_okD(8) [OF ok] by blast
qed

lemma retired_refused:
  assumes ok: "jdb_ok (jdb_of j)" and ep: "meta_epoch (jdb_of j) = Some ep"
    and wm: "watermark_of ep (jdb_of j) = Some w" "(issued + ttl + cfg_skew_s cfg) * 1000 \<le> w"
    and tok: "\<And>c pv n r. validate_start_authorization sign tok ws c pv (cfg_max_ttl_s cfg)
        (cfg_skew_s cfg) n = Inr r \<Longrightarrow> ar_valid r \<Longrightarrow> ar_issued_at_unix r = Some issued \<and> ar_ttl_s r = Some ttl"
  shows "fst (validate_and_admit sign sha256 cfg dk clk tok p ws cur prev now j) \<noteq> Inr (Admitted a)"
proof
  assume adm: "fst (validate_and_admit sign sha256 cfg dk clk tok p ws cur prev now j) = Inr (Admitted a)"
  then show False
  proof (rule validate_admitted)
    fix j' res clk'
    assume o: "ensure_open dk j = (None, j')"
      and "validate_start_authorization sign tok ws cur prev (cfg_max_ttl_s cfg) (cfg_skew_s cfg)
           ((case now of Some t \<Rightarrow> t | None \<Rightarrow> clk 0) div 1000000) = Inr res" "ar_valid res"
      and rc: "retirement_check cfg (sha256 tok) (the (ar_issued_at_unix res)) (the (ar_ttl_s res)) (jdb_of j') = None"
      and v: "validate_and_admit sign sha256 cfg dk clk tok p ws cur prev now j =
         admit cfg dk clk' (token_decision res ws (session_epoch_locked (jdb_of j')) (sha256 tok)) p j'"
    then have res: "ar_issued_at_unix res = Some issued" "ar_ttl_s res = Some ttl" using tok by blast+
    have j': "jdb_of j' = jdb_of j"
      using ensure_open_db [of dk j] ep o by (auto simp: init_schema_def)
    have "tbl_has a_token_hash (sha256 tok) (authorizations (jdb_of j'))"
      using rc wm ep unfolding j' retirement_check_def session_epoch_locked_def res
      by (auto split: option.splits if_splits dest: tbl_find_has)
    then show False using used_hash_not_admitted ok adm v j' by metis
  qed
qed

text \<open>C4. After a garbage collection at a time when a token's lifetime plus the allowed skew is over,
  the token is never admitted again in that session epoch, whatever was called in between and
  whatever the local clock says when it is replayed.\<close>

theorem gc_retires_token:
  assumes ok: "jdb_ok (jdb_of j)"
    and tok: "validate_start_authorization sign tok ws cur0 prev0 mx0 sk0 now0 = Inr res" "ar_valid res"
    and gc: "journal_step sign sha256 cfg (OGc gnow, gdk, gclk) j = (JGc rep, j1)"
    and late: "(the (ar_issued_at_unix res) + the (ar_ttl_s res) + cfg_skew_s cfg) * 1000000
                 \<le> (case gnow of Some t \<Rightarrow> t | None \<Rightarrow> gclk 0)"
    and ep: "meta_epoch (jdb_of j1) = Some ep"
    and j2: "j2 = snd (run_ops (journal_step sign sha256 cfg) es j1)" "meta_epoch (jdb_of j2) = Some ep"
  shows "fst (validate_and_admit sign sha256 cfg dk clk tok p ws cur prev now j2) \<noteq> Inr (Admitted a)"
proof -
  let ?t = "case gnow of Some t \<Rightarrow> t | None \<Rightarrow> gclk 0"
  from gc obtain d where d: "jdb_of j1 = snd (gc_expired_db cfg gclk gnow d)"
    by (auto simp: journal_step_def gc_expired_def answer_def txn_def
        split: prod.splits option.splits sum.splits) (metis snd_conv)
  have "meta_epoch d = Some ep" using ep by (simp add: d gc_expired_db_def Let_def)
  from gc_watermark [OF this, of cfg gclk gnow] obtain w where w: "watermark_of ep (jdb_of j1) = Some w" "?t div 1000 \<le> w"
    unfolding d by blast
  have ok1: "jdb_ok (jdb_of j1)" using jm.exec_inv [OF ok] gc by (metis snd_conv)
  have ok2: "jdb_ok (jdb_of j2)" unfolding j2(1) using ok1 by (rule jm.run_inv)
  have "wm_le (jdb_of j1) (jdb_of j2)"
    unfolding j2(1) by (rule jdb_steps_wm [OF run_effect [where allow = "\<lambda>_. True"]]) simp
  then obtain w' where w': "watermark_of ep (jdb_of j2) = Some w'" "w \<le> w'"
    using w(1) by (auto simp: wm_le_def)
  have times: "\<And>c pv n r. validate_start_authorization sign tok ws c pv (cfg_max_ttl_s cfg)
        (cfg_skew_s cfg) n = Inr r \<Longrightarrow> ar_valid r \<Longrightarrow>
        ar_issued_at_unix r = Some (the (ar_issued_at_unix res)) \<and> ar_ttl_s r = Some (the (ar_ttl_s res))"
    using validate_times_agree [OF tok] validate_validE [OF tok] by (metis auth_result.select_convs(7,8) option.sel)
  have "(the (ar_issued_at_unix res) + the (ar_ttl_s res) + cfg_skew_s cfg) * 1000 \<le> w'"
    using late w(2) w'(2) by linarith
  then show ?thesis using times by (intro retired_refused [OF ok2 j2(2) w'(1)])
qed

theorem gc_retires_token_witness:
  "fst (validate_and_admit plain_sign id std_cfg ok_disk (at_s 30) ''a|run|1||w|0|60|fs'' ''p'' ''w'' ''s''
     None None
     (snd (run_ops demo_step [(OClose, ok_disk, at_s 5), (ORestart 0 0, ok_disk, at_s 6)]
        (snd (demo_step (OGc None, ok_disk, at_s 200) demo_journal))))) \<noteq> Inr (Admitted ''a'')"
  by (rule gc_retires_token [where j = demo_journal and ep = 1 and ?cur0.0 = "''s''" and ?prev0.0 = None
        and ?mx0.0 = 300 and ?sk0.0 = 60 and ?now0.0 = 30 and es = "[(OClose, ok_disk, at_s 5),
        (ORestart 0 0, ok_disk, at_s 6)]", OF fresh_journal_ok _ _ step_pairI _ _ refl])
    code_simp+

text \<open>C5. No result is stranded: as long as workers use the transactional completion call, every
  completion not yet acknowledged by the manager has its delivery row in the outbox, after any
  sequence of calls, crashes and restarts.\<close>

theorem unacked_completions_have_outbox_rows:
  assumes "\<forall>e \<in> set es. \<forall>a res r. fst e \<noteq> OComplete a res r"
    and "c \<in> set (completions (jdb_of (snd (run_ops (journal_step sign sha256 cfg) es (fresh_journal dk q h)))))"
    and "\<not> c_acked c"
  shows "has_run_complete (c_attempt c)
      (outbox (jdb_of (snd (run_ops (journal_step sign sha256 cfg) es (fresh_journal dk q h)))))"
proof -
  let ?allow = "\<lambda>op. \<forall>a res r. op \<noteq> OComplete a res r"
  have "no_stranded (jdb_of (fresh_journal dk q h))"
    by (auto simp: no_stranded_iff fresh_journal_def init_journal_def open_journal_def empty_jdb_def
        init_schema_def split: sq_outcome.splits)
  then have "no_stranded (jdb_of (snd (run_ops (journal_step sign sha256 cfg) es (fresh_journal dk q h))))"
    using assms(1) by (intro jdb_steps_no_stranded [OF run_effect [where allow = ?allow]])
      (auto intro: fresh_journal_ok)
  then show ?thesis using assms(2,3) by (simp add: no_stranded_iff)
qed

theorem unacked_completions_have_outbox_rows_witness:
  "has_run_complete ''a'' (outbox (jdb_of (snd (run_ops demo_step
     [(OCompleteEnqueue ''a'' ''{}'' (Some ''run''), ok_disk, at_s 10), (ORestart 0 0, ok_disk, at_s 20)]
     demo_journal))))"
  apply (rule unacked_completions_have_outbox_rows [where sign = plain_sign and ?sha256.0 = id and cfg = std_cfg
      and dk = ok_disk and q = 0 and h = 0
      and es = "[(OCompleteEnqueue ''a'' ''{}'' (Some ''run''), ok_disk, at_s 10),
        (ORestart 0 0, ok_disk, at_s 20)]"
      and c = "\<lparr>c_attempt = ''a'', c_run = ''run'', c_result = ''{}'', c_completed_at = 10000000,
        c_acked = False, c_acked_at = None\<rparr>", unfolded completion.select_convs])
  by (simp, code_simp, simp)

text \<open>The first result recorded for an attempt stays, unchanged, until the manager's
  acknowledgement of that attempt: no second completion, retention sweep, garbage collection,
  restart or epoch change modifies or removes it.\<close>

theorem unacked_result_unchanged:
  assumes "jdb_ok (jdb_of j)" and "\<forall>e \<in> set es. fst e \<noteq> OAck a"
    and "tbl_find c_attempt a (completions (jdb_of j)) = Some c" "\<not> c_acked c"
  shows "tbl_find c_attempt a (completions (jdb_of (snd (run_ops (journal_step sign sha256 cfg) es j)))) = Some c"
proof -
  have "unacked_result a c (jdb_of (snd (run_ops (journal_step sign sha256 cfg) es j)))"
    using assms
    by (intro jdb_steps_unacked [OF run_effect [where allow = "\<lambda>op. op \<noteq> OAck a"]])
      (auto simp: unacked_result_def)
  then show ?thesis by (simp add: unacked_result_def)
qed

theorem unacked_result_unchanged_witness:
  "tbl_find c_attempt ''a'' (completions (jdb_of (snd (run_ops demo_step
     [(OCompleteEnqueue ''a'' ''other'' (Some ''run''), ok_disk, at_s 20), (ORetention None, ok_disk, at_s 1000000)]
     (snd (demo_step (OComplete ''a'' ''first'' (Some ''run''), ok_disk, at_s 10) demo_journal)))))) =
   Some \<lparr>c_attempt = ''a'', c_run = ''run'', c_result = ''first'', c_completed_at = 10000000,
         c_acked = False, c_acked_at = None\<rparr>"
  by (rule unacked_result_unchanged [OF jm.exec_inv [OF fresh_journal_ok]]) (simp, code_simp, simp)

text \<open>A delivery failure of a row with fewer than 1024 earlier failures schedules the next try
  after the minimum of two to the number of failures and 300 seconds, and records the failure.\<close>

theorem outbox_failure_backoff:
  assumes "fatal j = None" "conn_open j" "tbl_find o_seq s (outbox (jdb_of j)) = Some row"
    and "0 \<le> o_attempts row" "o_attempts row < 1024"
  shows "fst (record_outbox_failure clk s err dk j) = Inr () \<and>
     tbl_find o_seq s (outbox (jdb_of (snd (record_outbox_failure clk s err dk j)))) =
       Some (row\<lparr>o_attempts := o_attempts row + 1, o_last_error := Some err,
                 o_next_at := clk 0 + min (2 ^ nat (o_attempts row)) 300 * 1000000\<rparr>)"
  using assms
  by (simp add: record_outbox_failure_def txn_def ensure_open_def record_outbox_failure_db_def Let_def
      backoff_s_def tbl_find_update_key)

theorem outbox_failure_backoff_witness:
  "fst (record_outbox_failure (at_s 100) 1 ''timeout'' ok_disk
     (snd (demo_step (OEnqueue ''a'' ''k'' ''{}'', ok_disk, at_s 10) demo_journal))) = Inr ()"
  by (rule outbox_failure_backoff [where row = "outbox_entry 1 10000000 ''a'' ''k'' ''{}''", THEN conjunct1])
    code_simp+

text \<open>The 1025th recorded failure of an outbox row raises \<open>OverflowError\<close> (the power of two no
  longer fits a double) and, the transaction being rolled back, leaves the row due as it was, so
  that every later drain pass meets the same error.\<close>

theorem outbox_failure_overflow:
  assumes "fatal j = None" "conn_open j" "tbl_find o_seq s (outbox (jdb_of j)) = Some row"
    and "1024 \<le> o_attempts row"
  shows "record_outbox_failure clk s err dk j = (Inl OverflowErr, j)"
  using assms
  by (simp add: record_outbox_failure_def txn_def ensure_open_def record_outbox_failure_db_def Let_def
      backoff_s_def)

theorem outbox_failure_overflow_witness:
  "record_outbox_failure (at_s 100) 1 ''timeout'' ok_disk
     (demo_journal\<lparr>jdb_of := empty_jdb\<lparr>outbox := [(outbox_entry 1 0 ''a'' ''k'' ''{}'')\<lparr>o_attempts := 1024\<rparr>]\<rparr>\<rparr>) =
   (Inl OverflowErr,
    demo_journal\<lparr>jdb_of := empty_jdb\<lparr>outbox := [(outbox_entry 1 0 ''a'' ''k'' ''{}'')\<lparr>o_attempts := 1024\<rparr>]\<rparr>\<rparr>)"
  by (rule outbox_failure_overflow [where row = "(outbox_entry 1 0 ''a'' ''k'' ''{}'')\<lparr>o_attempts := 1024\<rparr>"])
    code_simp+

text \<open>At or above the quota threshold a healthy journal refuses every valid start request as
  closed and changes nothing, while the completion of a run that was admitted earlier is still
  committed together with its delivery row.\<close>

theorem quota_closes_admission_only:
  assumes "fatal j = None" "conn_open j" "dk_probe dk = ProbeOk"
    and "quota_bytes j > 0" "dk_size dk \<ge> max 0 (quota_bytes j - headroom_bytes j)"
    and "ad_valid ad" "required_fields ad = Some f"
    and "tbl_find r_attempt a (reservations (jdb_of j)) = Some r"
    and "\<not> tbl_has c_attempt a (completions (jdb_of j))"
  shows "admit cfg dk clk ad p j = (Inl (AdmissionClosed ''journal quota: admission closed''), j) \<and>
     fst (record_completion_and_enqueue clk a res None dk j) = Inr () \<and>
     has_run_complete a (outbox (jdb_of (snd (record_completion_and_enqueue clk a res None dk j))))"
proof -
  have open_j: "ensure_open dk j = (None, j)" using assms(1,2) by (simp add: ensure_open_def)
  have "health_locked dk j = (health_report dk j HQuota
      (''journal size '' @ py_str (dk_size dk) @ '' bytes >= quota threshold ''
        @ py_str (quota_threshold j) @ '' bytes''), j)"
    using assms open_j by (simp add: health_locked_def quota_enabled_def quota_threshold_def)
  then have closed: "admit cfg dk clk ad p j = (Inl (AdmissionClosed ''journal quota: admission closed''), j)"
    using assms(6,7) by (simp add: admit_def ensure_admitting_def health_report_def health_text_def)
  let ?c = "\<lparr>c_attempt = a, c_run = r_run r, c_result = res, c_completed_at = clk 0, c_acked = False,
      c_acked_at = None\<rparr>"
  let ?d2 = "commit_completion clk a res (r_run r) (jdb_of j)"
  have "?c \<in> set (completions ?d2)"
    using assms(9) by (simp add: commit_completion_def insert_ignore_def)
  then have "has_run_complete a (outbox (snd (respool_completions_locked (clk 1) (Some a) ?d2)))"
    using respool_covers [of ?c ?d2 "Some a" "clk 1"] by simp
  then show ?thesis using closed assms(8) open_j
    by (simp add: record_completion_and_enqueue_def txn_def record_completion_db_def resolve_run_id_def)
qed

theorem quota_closes_admission_only_witness:
  "admit std_cfg \<lparr>dk_open = SqOk, dk_probe = ProbeOk, dk_size = 2000000\<rparr> (at_s 20)
     (start_decision ''b'' ''h2'') ''p''
     (snd (demo_step (OAdmit (start_decision ''a'' ''h'') ''p'', ok_disk, at_s 10) (fresh_journal ok_disk 1 0))) =
   (Inl (AdmissionClosed ''journal quota: admission closed''),
    snd (demo_step (OAdmit (start_decision ''a'' ''h'') ''p'', ok_disk, at_s 10) (fresh_journal ok_disk 1 0)))"
  by (rule quota_closes_admission_only [where a = "''a''" and
        f = "the (required_fields (start_decision ''b'' ''h2''))" and
        r = "new_reservation (the (required_fields (start_decision ''a'' ''h''))) ''p'' 10000000",
        THEN conjunct1]) code_simp+

text \<open>Retention forgets acknowledged results but not that their attempts ran: after the sweep of an
  acknowledged completion, a repeated completion call for the attempt is taken as the first one,
  so that a result the manager has already acknowledged is delivered again.\<close>

theorem retention_reopens_delivery:
  assumes "jdb_ok d" "tbl_find c_attempt a (completions d) = Some c"
    and "c_acked_at c = Some t" "t \<le> now - cfg_audit_retention_s cfg * 1000000"
  shows "\<exists>d'. record_completion_db clk' a res (Some run) True
              (snd (cleanup_retention_db cfg clk (Some now) d)) = Inr ((), d') \<and>
           has_run_complete a (outbox d') \<and>
           tbl_find c_attempt a (completions d') =
             Some \<lparr>c_attempt = a, c_run = run, c_result = res, c_completed_at = clk' 0,
                   c_acked = False, c_acked_at = None\<rparr>"
proof -
  let ?d1 = "snd (cleanup_retention_db cfg clk (Some now) d)"
  let ?d2 = "commit_completion clk' a res run ?d1"
  let ?c = "\<lparr>c_attempt = a, c_run = run, c_result = res, c_completed_at = clk' 0, c_acked = False,
      c_acked_at = None\<rparr>"
  have "c_acked c" using jdb_okD(9) [OF assms(1)] assms(2,3) tbl_find_SomeD by fastforce
  then have "tbl_find c_attempt a (completions ?d1) = None"
    using assms
    by (simp add: cleanup_retention_db_def Let_def tbl_find_delete_where_pk [OF jdb_okD(6)] del: tbl_find_None)
  then have new: "completions ?d2 = completions ?d1 @ [?c]" and free: "\<not> tbl_has c_attempt a (completions ?d1)"
    by (simp_all add: commit_completion_def insert_ignore_def)
  then have "has_run_complete a (outbox (snd (respool_completions_locked (clk' 1) (Some a) ?d2)))"
    using respool_covers [of ?c ?d2 "Some a" "clk' 1"] by simp
  then show ?thesis using new free
    by (simp add: record_completion_db_def resolve_run_id_def Let_def respool_completions_locked_def
        tbl_find_append)
qed

theorem retention_reopens_delivery_witness:
  "\<exists>d'. record_completion_db (at_s 900000) ''a'' ''{}'' (Some ''run'') True
      (snd (cleanup_retention_db std_cfg (at_s 0) (Some 800000000000)
        (empty_jdb\<lparr>completions := [\<lparr>c_attempt = ''a'', c_run = ''run'', c_result = ''{}'',
           c_completed_at = 0, c_acked = True, c_acked_at = Some 0\<rparr>]\<rparr>))) = Inr ((), d') \<and>
    has_run_complete ''a'' (outbox d') \<and>
    tbl_find c_attempt ''a'' (completions d') =
      Some \<lparr>c_attempt = ''a'', c_run = ''run'', c_result = ''{}'', c_completed_at = at_s 900000 0,
            c_acked = False, c_acked_at = None\<rparr>"
  by (rule retention_reopens_delivery [where t = 0 and c = "\<lparr>c_attempt = ''a'', c_run = ''run'',
        c_result = ''{}'', c_completed_at = 0, c_acked = True, c_acked_at = Some 0\<rparr>"])
    (simp_all add: jdb_ok_def keys_ok_def outbox_ok_def empty_jdb_def std_cfg_def pk_ok_def)

end
