(* ===== verification/Ledger.thy ===== *)
theory Ledger
  imports Sql_Table
begin

text \<open>
  The manager's execution ledger, \<open>tram/persistence/ledger.py\<close>, on the tables that
  \<open>tram/persistence/db.py\<close> creates for it (\<open>_create_ledger_tables\<close>): guards, intents,
  attempts and delivery checkpoints, with their primary keys, \<open>UNIQUE\<close> and \<open>CHECK\<close>
  constraints. Each function is one transaction; an \<open>IntegrityError\<close> leaves the tables as
  they were. The fence token drawn by \<open>uuid4\<close> and the time are arguments of the operations.
  Attempt columns that these functions neither read nor write (worker, times, result) are
  left out. Next to them stand the operations of other modules on the same tables: the
  controller's \<open>_ensure_run_intent\<close> and \<open>_next_attempt_ordinal\<close>, the atomic checkpoint of the
  internal API, and the transform-state rows of \<open>TramDB\<close>.
\<close>

section \<open>Tables\<close>

record guard =
  g_key :: string
  g_kind :: string
  g_run :: "string option"
  g_attempt :: "string option"
  g_generation :: "int option"
  g_acquired_at :: "instant option"

record intent =
  i_run :: string
  i_pipeline :: string
  i_origin :: string
  i_flush :: bool
  i_requested_at :: instant
  i_expires_at :: "instant option"
  i_requested_generation :: int
  i_requested_config_version :: "int option"
  i_yaml_snapshot :: "string option"
  i_schedule_type :: "string option"
  i_final_outcome :: "string option"
  i_final_attempt :: "string option"
  i_resolved_at :: "instant option"

record attempt =
  x_attempt :: string
  x_run :: string
  x_pipeline :: string
  x_ordinal :: int
  x_generation :: int
  x_slot :: string
  x_fence_token :: string
  x_state :: string

record checkpoint =
  k_id :: string
  k_pipeline :: string
  k_generation :: int
  k_attempt :: string
  k_run :: string
  k_unit :: string
  k_frontier :: string
  k_seq :: int
  k_receipts :: string
  k_revision :: int
  k_committed_at :: instant

record tstate =
  ts_pipeline :: string
  ts_state_json :: string
  ts_config_sha256 :: string
  ts_updated_at :: instant
  ts_updated_by :: string
  ts_generation :: "int option"
  ts_revision :: int

record ledger =
  guards :: "guard list"
  intents :: "intent list"
  attempts :: "attempt list"
  checkpoints :: "checkpoint list"
  tstates :: "tstate list"

definition guard_kinds :: "string list" where
  "guard_kinds = [''batch'', ''stream_slot'']"

definition attempt_states :: "string list" where
  "attempt_states = [''claimed'', ''dispatching'', ''running'', ''stopping'', ''unknown'', ''terminal'']"

definition final_outcomes :: "string list" where
  "final_outcomes = [''success'', ''partial'', ''failed'', ''aborted'', ''expired'', ''superseded'']"

definition origins :: "string list" where
  "origins = [''manual'', ''scheduled'', ''recovery'', ''queued'']"

datatype lerror = IntegrityError string | StaleStateRevision | BudgetExceeded string

section \<open>Claiming\<close>

datatype claim_status = CLAIMED | ALREADY_HELD | LOST | NO_INTENT

record claim_outcome =
  co_status :: claim_status
  co_attempt :: string
  co_run :: string
  co_pipeline :: string
  co_ordinal :: int
  co_generation :: int
  co_slot :: string
  co_fence_token :: "string option"

definition mint_attempt_id :: "string \<Rightarrow> int \<Rightarrow> string" where
  "mint_attempt_id run_id ordinal = run_id @ ''-a'' @ py_str ordinal"

record claim_req =
  q_guard_key :: string
  q_guard_kind :: string
  q_pipeline :: string
  q_run :: string
  q_generation :: int
  q_ordinal :: int
  q_slot :: string
  q_yaml_snapshot :: "string option"

abbreviation q_attempt :: "claim_req \<Rightarrow> string" where
  "q_attempt q \<equiv> mint_attempt_id (q_run q) (q_ordinal q)"

definition outcome :: "claim_req \<Rightarrow> claim_status \<Rightarrow> string option \<Rightarrow> claim_outcome" where
  "outcome q st fence =
     \<lparr>co_status = st, co_attempt = q_attempt q, co_run = q_run q, co_pipeline = q_pipeline q,
      co_ordinal = q_ordinal q, co_generation = q_generation q, co_slot = q_slot q,
      co_fence_token = fence\<rparr>"

text \<open>The guard row is created free when it is absent.\<close>

definition free_guard :: "string \<Rightarrow> string \<Rightarrow> guard" where
  "free_guard key kind =
     \<lparr>g_key = key, g_kind = kind, g_run = None, g_attempt = None, g_generation = None,
      g_acquired_at = None\<rparr>"

definition take_guard :: "claim_req \<Rightarrow> instant \<Rightarrow> guard \<Rightarrow> guard" where
  "take_guard q now g =
     g\<lparr>g_run := Some (q_run q), g_attempt := Some (q_attempt q),
       g_generation := Some (q_generation q), g_acquired_at := Some now\<rparr>"

definition new_attempt :: "claim_req \<Rightarrow> string \<Rightarrow> attempt" where
  "new_attempt q fence =
     \<lparr>x_attempt = q_attempt q, x_run = q_run q, x_pipeline = q_pipeline q,
      x_ordinal = q_ordinal q, x_generation = q_generation q, x_slot = q_slot q,
      x_fence_token = fence, x_state = ''claimed''\<rparr>"

text \<open>The \<open>WHERE\<close> clauses of the two conditional updates, and what the second one sets.\<close>

definition guard_free :: "string \<Rightarrow> guard \<Rightarrow> bool" where
  "guard_free key g \<longleftrightarrow> g_key g = key \<and> g_attempt g = None"

definition intent_open :: "string \<Rightarrow> intent \<Rightarrow> bool" where
  "intent_open run_id i \<longleftrightarrow> i_run i = run_id \<and> i_final_outcome i = None"

definition claim_intent :: "claim_req \<Rightarrow> intent \<Rightarrow> intent" where
  "claim_intent q i =
     i\<lparr>i_yaml_snapshot :=
         (case q_yaml_snapshot q of Some y \<Rightarrow> Some y | None \<Rightarrow> i_yaml_snapshot i)\<rparr>"

text \<open>\<open>_run\<close> of \<open>claim_run\<close>: the statements of the transaction, in order.\<close>

definition claim_txn ::
  "claim_req \<Rightarrow> string \<Rightarrow> instant \<Rightarrow> ledger \<Rightarrow> lerror + (claim_outcome \<times> ledger)" where
  "claim_txn q fence now l =
     (if q_guard_kind q \<notin> set guard_kinds then Inl (IntegrityError ''guard_kind'')
      else
        (let g1 = insert_ignore g_key (free_guard (q_guard_key q) (q_guard_kind q)) (guards l);
             g2 = update_where (guard_free (q_guard_key q)) (take_guard q now) g1;
             i2 = update_where (intent_open (q_run q)) (claim_intent q) (intents l)
         in if rowcount (guard_free (q_guard_key q)) g1 \<noteq> 1
            then
              (case tbl_find g_key (q_guard_key q) g1 of
                 Some held \<Rightarrow>
                   if g_attempt held = Some (q_attempt q) \<and> g_run held = Some (q_run q)
                   then Inr (outcome q ALREADY_HELD None, l\<lparr>guards := g1\<rparr>)
                   else Inr (outcome q LOST None, l\<lparr>guards := g1\<rparr>)
               | None \<Rightarrow> Inr (outcome q LOST None, l\<lparr>guards := g1\<rparr>))
            else if rowcount (intent_open (q_run q)) (intents l) \<noteq> 1
            then Inr (outcome q NO_INTENT None, l\<lparr>guards := g2, intents := i2\<rparr>)
            else if tbl_has x_attempt (q_attempt q) (attempts l) \<or>
                    tbl_has (\<lambda>x. (x_run x, x_ordinal x)) (q_run q, q_ordinal q) (attempts l)
            then Inl (IntegrityError ''execution_attempts'')
            else Inr (outcome q CLAIMED (Some fence),
                      l\<lparr>guards := g2, intents := i2, attempts := attempts l @ [new_attempt q fence]\<rparr>)))"

text \<open>\<open>_in_claim_txn\<close>: only a \<open>CLAIMED\<close> outcome commits.\<close>

definition in_claim_txn ::
  "(ledger \<Rightarrow> lerror + (claim_outcome \<times> ledger)) \<Rightarrow> ledger \<Rightarrow> (lerror + claim_outcome) \<times> ledger" where
  "in_claim_txn fn l =
     (case fn l of
        Inl e \<Rightarrow> (Inl e, l)
      | Inr (oc, l') \<Rightarrow> if co_status oc = CLAIMED then (Inr oc, l') else (Inr oc, l))"

definition claim_run ::
  "claim_req \<Rightarrow> string \<Rightarrow> instant \<Rightarrow> ledger \<Rightarrow> (lerror + claim_outcome) \<times> ledger" where
  "claim_run q fence now = in_claim_txn (claim_txn q fence now)"

section \<open>Release, transition, resolution\<close>

definition release_guard :: "string \<Rightarrow> string \<Rightarrow> string \<Rightarrow> ledger \<Rightarrow> nat \<times> ledger" where
  "release_guard key attempt_id run_id l =
     (let mine = (\<lambda>g. g_key g = key \<and> g_attempt g = Some attempt_id \<and> g_run g = Some run_id)
      in (rowcount mine (guards l),
          l\<lparr>guards := update_where mine
              (\<lambda>g. g\<lparr>g_run := None, g_attempt := None, g_generation := None, g_acquired_at := None\<rparr>)
              (guards l)\<rparr>))"

definition transition_attempt ::
  "string \<Rightarrow> string \<Rightarrow> string \<Rightarrow> string \<Rightarrow> int \<Rightarrow> ledger \<Rightarrow> (lerror + nat) \<times> ledger" where
  "transition_attempt attempt_id run_id from_state to_state generation l =
     (let fence = (\<lambda>x. x_attempt x = attempt_id \<and> x_run x = run_id \<and> x_state x = from_state \<and>
                       x_generation x = generation);
          n = rowcount fence (attempts l)
      in if n > 0 \<and> to_state \<notin> set attempt_states then (Inl (IntegrityError ''state''), l)
         else (Inr n, l\<lparr>attempts := update_where fence (\<lambda>x. x\<lparr>x_state := to_state\<rparr>) (attempts l)\<rparr>))"

definition resolve_intent ::
  "string \<Rightarrow> string \<Rightarrow> string \<Rightarrow> instant \<Rightarrow> ledger \<Rightarrow> (lerror + nat) \<times> ledger" where
  "resolve_intent run_id oc attempt_id now l =
     (let unresolved = intent_open run_id;
          n = rowcount unresolved (intents l)
      in if n > 0 \<and> oc \<notin> set final_outcomes then (Inl (IntegrityError ''final_outcome''), l)
         else (Inr n, l\<lparr>intents := update_where unresolved
                 (\<lambda>i. i\<lparr>i_final_outcome := Some oc, i_final_attempt := Some attempt_id,
                        i_resolved_at := Some now\<rparr>) (intents l)\<rparr>))"

section \<open>Checkpoints\<close>

datatype checkpoint_status = COMMITTED | STALE

record checkpoint_outcome =
  ko_status :: checkpoint_status
  ko_id :: string
  ko_existing :: "checkpoint option"

definition unit_key :: "checkpoint \<Rightarrow> string \<times> string" where
  "unit_key k = (k_pipeline k, k_unit k)"

text \<open>
  The upsert: the conflict target is the unit, so a row of the same unit is updated under
  the frontier condition; otherwise the insert must respect the key on \<open>checkpoint_id\<close>.
  The update keeps \<open>checkpoint_id\<close> and \<open>run_id\<close>.
\<close>

definition advance_checkpoint :: "checkpoint \<Rightarrow> checkpoint \<Rightarrow> checkpoint" where
  "advance_checkpoint new old =
     old\<lparr>k_frontier := k_frontier new, k_seq := k_seq new, k_receipts := k_receipts new,
         k_revision := k_revision new, k_generation := k_generation new,
         k_attempt := k_attempt new, k_committed_at := k_committed_at new\<rparr>"

definition upsert_checkpoint :: "checkpoint \<Rightarrow> ledger \<Rightarrow> lerror + (nat \<times> ledger)" where
  "upsert_checkpoint k l =
     (let newer = (\<lambda>c. unit_key c = unit_key k \<and> k_seq k > k_seq c)
      in if tbl_has unit_key (unit_key k) (checkpoints l)
         then Inr (rowcount newer (checkpoints l),
                   l\<lparr>checkpoints := update_where newer (advance_checkpoint k) (checkpoints l)\<rparr>)
         else if tbl_has k_id (k_id k) (checkpoints l)
         then Inl (IntegrityError ''delivery_checkpoints'')
         else Inr (1, l\<lparr>checkpoints := checkpoints l @ [k]\<rparr>))"

definition stored_checkpoint :: "checkpoint \<Rightarrow> ledger \<Rightarrow> checkpoint option" where
  "stored_checkpoint k l = tbl_find unit_key (unit_key k) (checkpoints l)"

definition stored_id :: "checkpoint \<Rightarrow> ledger \<Rightarrow> string" where
  "stored_id k l = (case stored_checkpoint k l of Some c \<Rightarrow> k_id c | None \<Rightarrow> k_id k)"

definition commit_checkpoint ::
  "checkpoint \<Rightarrow> ledger \<Rightarrow> (lerror + checkpoint_outcome) \<times> ledger" where
  "commit_checkpoint k l =
     (case upsert_checkpoint k l of
        Inl e \<Rightarrow> (Inl e, l)
      | Inr (n, l') \<Rightarrow>
          if n = 1
          then (Inr \<lparr>ko_status = COMMITTED, ko_id = stored_id k l', ko_existing = None\<rparr>, l')
          else (Inr \<lparr>ko_status = STALE, ko_id = stored_id k l',
                     ko_existing = stored_checkpoint k l'\<rparr>, l'))"

definition get_attempt_row :: "string \<Rightarrow> ledger \<Rightarrow> attempt option" where
  "get_attempt_row attempt_id l = tbl_find x_attempt attempt_id (attempts l)"

section \<open>The atomic checkpoint of the internal API\<close>

record atomic_outcome =
  ao_already_committed :: bool
  ao_checkpoint_id :: string
  ao_state_revision :: int

text \<open>The state row: inserted with revision 1 when absent, else updated under the fence.\<close>

definition state_cas ::
  "string \<Rightarrow> string \<Rightarrow> string \<Rightarrow> instant \<Rightarrow> string \<Rightarrow> int \<Rightarrow> int \<Rightarrow> ledger \<Rightarrow> nat \<times> ledger" where
  "state_cas pipeline_name state_json config_sha256 now run_id generation base l =
     (let fence = (\<lambda>s. ts_pipeline s = pipeline_name \<and> ts_revision s = base \<and>
                       (ts_generation s = None \<or> ts_generation s = Some generation))
      in if tbl_has ts_pipeline pipeline_name (tstates l)
         then (rowcount fence (tstates l),
               l\<lparr>tstates := update_where fence
                  (\<lambda>s. s\<lparr>ts_state_json := state_json, ts_config_sha256 := config_sha256,
                         ts_updated_at := now, ts_updated_by := run_id,
                         ts_generation := Some generation, ts_revision := ts_revision s + 1\<rparr>)
                  (tstates l)\<rparr>)
         else (1, l\<lparr>tstates := tstates l @
                 [\<lparr>ts_pipeline = pipeline_name, ts_state_json = state_json,
                   ts_config_sha256 = config_sha256, ts_updated_at = now, ts_updated_by = run_id,
                   ts_generation = Some generation, ts_revision = 1\<rparr>]\<rparr>))"

text \<open>
  \<open>_commit_atomic_checkpoint\<close>; the checkpoint row it writes carries \<open>state_revision\<close>
  = base + 1.
\<close>

definition commit_atomic_checkpoint ::
  "checkpoint \<Rightarrow> string \<Rightarrow> string \<Rightarrow> int \<Rightarrow> ledger \<Rightarrow> (lerror + atomic_outcome) \<times> ledger" where
  "commit_atomic_checkpoint k0 state_json config_sha256 base l =
     (let k = k0\<lparr>k_revision := base + 1\<rparr> in
      case upsert_checkpoint k l of
        Inl e \<Rightarrow> (Inl e, l)
      | Inr (n, l1) \<Rightarrow>
          if n \<noteq> 1
          then (Inr \<lparr>ao_already_committed = True, ao_checkpoint_id = stored_id k l1,
                     ao_state_revision =
                       (case stored_checkpoint k l1 of Some c \<Rightarrow> k_revision c | None \<Rightarrow> base)\<rparr>, l1)
          else
            (case state_cas (k_pipeline k) state_json config_sha256 (k_committed_at k) (k_run k)
                    (k_generation k) base l1 of
               (m, l2) \<Rightarrow>
                 if m \<noteq> 1 then (Inl StaleStateRevision, l)
                 else (Inr \<lparr>ao_already_committed = False, ao_checkpoint_id = stored_id k l1,
                            ao_state_revision = base + 1\<rparr>, l2)))"

section \<open>Transform-state rows of \<open>TramDB\<close>\<close>

text \<open>
  The caller's blob comes serialised, with its number of top-level keys; a bound of 0 is
  disabled. The upsert leaves \<open>generation\<close> and \<open>revision\<close> of an existing row alone; a new
  row has the column defaults.
\<close>

definition save_transform_state ::
  "int \<Rightarrow> int \<Rightarrow> string \<Rightarrow> string \<Rightarrow> int \<Rightarrow> string \<Rightarrow> string \<Rightarrow> instant \<Rightarrow> ledger \<Rightarrow> (lerror + unit) \<times> ledger" where
  "save_transform_state max_bytes max_cardinality pipeline_name state_json n_keys config_sha256
       updated_by now l =
     (if max_bytes > 0 \<and> int (length state_json) > max_bytes
      then (Inl (BudgetExceeded ''TRAM_TRANSFORM_MAX_STATE_BYTES''), l)
      else if max_cardinality > 0 \<and> n_keys > max_cardinality
      then (Inl (BudgetExceeded ''TRAM_TRANSFORM_MAX_CARDINALITY''), l)
      else
        (Inr (),
         l\<lparr>tstates := upsert ts_pipeline
             \<lparr>ts_pipeline = pipeline_name, ts_state_json = state_json,
              ts_config_sha256 = config_sha256, ts_updated_at = now, ts_updated_by = updated_by,
              ts_generation = None, ts_revision = 0\<rparr>
             (\<lambda>s. s\<lparr>ts_state_json := state_json, ts_config_sha256 := config_sha256,
                    ts_updated_at := now, ts_updated_by := updated_by\<rparr>)
             (tstates l)\<rparr>))"

definition load_transform_state :: "string \<Rightarrow> ledger \<Rightarrow> tstate option" where
  "load_transform_state pipeline_name l = tbl_find ts_pipeline pipeline_name (tstates l)"

definition delete_transform_state :: "string \<Rightarrow> ledger \<Rightarrow> ledger" where
  "delete_transform_state pipeline_name l =
     l\<lparr>tstates := delete_where (\<lambda>s. ts_pipeline s = pipeline_name) (tstates l)\<rparr>"

section \<open>The controller's intent rows and ordinals\<close>

text \<open>
  \<open>_ensure_run_intent\<close>: an unresolved intent is refreshed to the caller's generation, a
  resolved one is left alone.
\<close>

definition ensure_run_intent :: "intent \<Rightarrow> ledger \<Rightarrow> (lerror + unit) \<times> ledger" where
  "ensure_run_intent i l =
     (if i_origin i \<notin> set origins then (Inl (IntegrityError ''origin''), l)
      else
        (Inr (),
         l\<lparr>intents :=
             (if tbl_has i_run (i_run i) (intents l)
              then update_where (intent_open (i_run i))
                     (\<lambda>x. x\<lparr>i_requested_generation := i_requested_generation i\<rparr>) (intents l)
              else intents l @
                     [i\<lparr>i_requested_config_version := None, i_final_outcome := None,
                        i_final_attempt := None, i_resolved_at := None\<rparr>])\<rparr>))"

definition next_attempt_ordinal :: "string \<Rightarrow> ledger \<Rightarrow> int" where
  "next_attempt_ordinal run_id l =
     (case map x_ordinal (filter (\<lambda>x. x_run x = run_id) (attempts l)) of
        [] \<Rightarrow> 0
      | n # ns \<Rightarrow> foldl max n ns) + 1"

section \<open>The ledger as a machine\<close>

datatype lop =
    LIntent intent
  | LClaim claim_req string instant
  | LRelease string string string
  | LTransition string string string string int
  | LResolve string string string instant
  | LCheckpoint checkpoint
  | LAtomic checkpoint string string int
  | LSaveState int int string string int string string instant
  | LDropState string

datatype lout =
    LErr lerror
  | LClaimed claim_outcome
  | LRows nat
  | LChk checkpoint_outcome
  | LAtom atomic_outcome
  | LUnit

fun ledger_step :: "lop \<Rightarrow> ledger \<Rightarrow> lout \<times> ledger" where
  "ledger_step (LIntent i) l = map_prod (case_sum LErr (\<lambda>_. LUnit)) id (ensure_run_intent i l)"
| "ledger_step (LClaim q fence now) l =
     map_prod (case_sum LErr LClaimed) id (claim_run q fence now l)"
| "ledger_step (LRelease key a r) l = map_prod LRows id (release_guard key a r l)"
| "ledger_step (LTransition a r s t g) l =
     map_prod (case_sum LErr LRows) id (transition_attempt a r s t g l)"
| "ledger_step (LResolve r oc a now) l =
     map_prod (case_sum LErr LRows) id (resolve_intent r oc a now l)"
| "ledger_step (LCheckpoint k) l = map_prod (case_sum LErr LChk) id (commit_checkpoint k l)"
| "ledger_step (LAtomic k s c b) l =
     map_prod (case_sum LErr LAtom) id (commit_atomic_checkpoint k s c b l)"
| "ledger_step (LSaveState mb mc p s n c u now) l =
     map_prod (case_sum LErr (\<lambda>_. LUnit)) id (save_transform_state mb mc p s n c u now l)"
| "ledger_step (LDropState p) l = (LUnit, delete_transform_state p l)"

text \<open>
  The key constraints; and every attempt row carries the identity minted from its run and
  ordinal.
\<close>

definition ledger_ok :: "ledger \<Rightarrow> bool" where
  "ledger_ok l \<longleftrightarrow>
     pk_ok g_key (guards l) \<and> pk_ok i_run (intents l) \<and> pk_ok x_attempt (attempts l) \<and>
     pk_ok (\<lambda>x. (x_run x, x_ordinal x)) (attempts l) \<and>
     pk_ok k_id (checkpoints l) \<and> pk_ok unit_key (checkpoints l) \<and> pk_ok ts_pipeline (tstates l) \<and>
     (\<forall>x \<in> set (attempts l). x_attempt x = mint_attempt_id (x_run x) (x_ordinal x))"

definition empty_ledger :: ledger where
  "empty_ledger = \<lparr>guards = [], intents = [], attempts = [], checkpoints = [], tstates = []\<rparr>"

end
