(* ===== verification/Ledger_Props.thy ===== *)
theory Ledger_Props
  imports Ledger
begin

text \<open>
  The properties of the execution ledger: its invariant, the exclusion its guards give, the
  atomicity of a claim, the finality of a resolution, the monotonicity of checkpoints, and
  the identity scheme of attempts. The machine interface is interpreted on \<open>ledger_step\<close>
  and the guard table on the first-wins interface.
\<close>

section \<open>Identities\<close>

lemma py_str_chars: "c \<in> set (py_str i) \<Longrightarrow> c \<noteq> CHR ''a''"
proof -
  have "\<not> is_digit (CHR ''a'')" by (simp add: is_digit_def)
  then have "CHR ''a'' \<notin> set (nat_str n)" for n using nat_str_digits by blast
  then show "c \<in> set (py_str i) \<Longrightarrow> c \<noteq> CHR ''a''" by (auto simp: py_str_def split: if_splits)
qed

lemma append_marker_inject:
  fixes c :: char
  assumes "u @ c # v = u' @ c # v'" "c \<notin> set v" "c \<notin> set v'"
  shows "u = u' \<and> v = v'"
proof -
  have "rsplit1 c (u @ c # v) = Some (u, v)" "rsplit1 c (u' @ c # v') = Some (u', v')"
    by (rule rsplit1_append [OF assms(2)], rule rsplit1_append [OF assms(3)])
  then show ?thesis using assms(1) by (metis option.inject prod.inject)
qed

lemma mint_inject: "mint_attempt_id r n = mint_attempt_id r' n' \<longleftrightarrow> r = r' \<and> n = n'"
proof
  assume "mint_attempt_id r n = mint_attempt_id r' n'"
  then have "(r @ ''-'') @ CHR ''a'' # py_str n = (r' @ ''-'') @ CHR ''a'' # py_str n'"
    by (simp add: mint_attempt_id_def)
  then have "r @ ''-'' = r' @ ''-'' \<and> py_str n = py_str n'"
    using py_str_chars by (intro append_marker_inject) blast+
  then show "r = r' \<and> n = n'" by simp
qed simp

section \<open>What a claim does\<close>

definition claim_possible :: "claim_req \<Rightarrow> ledger \<Rightarrow> bool" where
  "claim_possible q l \<longleftrightarrow>
     q_guard_kind q \<in> set guard_kinds \<and>
     rowcount (guard_free (q_guard_key q))
       (insert_ignore g_key (free_guard (q_guard_key q) (q_guard_kind q)) (guards l)) = 1 \<and>
     rowcount (intent_open (q_run q)) (intents l) = 1 \<and>
     \<not> tbl_has x_attempt (q_attempt q) (attempts l) \<and>
     \<not> tbl_has (\<lambda>x. (x_run x, x_ordinal x)) (q_run q, q_ordinal q) (attempts l)"

definition claimed_ledger :: "claim_req \<Rightarrow> string \<Rightarrow> instant \<Rightarrow> ledger \<Rightarrow> ledger" where
  "claimed_ledger q fence now l =
     l\<lparr>guards := update_where (guard_free (q_guard_key q)) (take_guard q now)
         (insert_ignore g_key (free_guard (q_guard_key q) (q_guard_kind q)) (guards l)),
       intents := update_where (intent_open (q_run q)) (claim_intent q) (intents l),
       attempts := attempts l @ [new_attempt q fence]\<rparr>"

lemma claim_run_possible:
  "claim_possible q l \<Longrightarrow>
     claim_run q fence now l = (Inr (outcome q CLAIMED (Some fence)), claimed_ledger q fence now l)"
  by (simp add: claim_possible_def claimed_ledger_def claim_run_def in_claim_txn_def claim_txn_def
      outcome_def Let_def)

lemma claim_txn_impossible:
  "\<not> claim_possible q l \<Longrightarrow> claim_txn q fence now l = Inr (oc, l') \<Longrightarrow> co_status oc \<noteq> CLAIMED"
  by (auto simp: claim_possible_def claim_txn_def outcome_def Let_def split: option.splits if_splits)

lemma claim_run_impossible:
  assumes "\<not> claim_possible q l"
  shows "snd (claim_run q fence now l) = l"
    and "fst (claim_run q fence now l) = Inr oc \<Longrightarrow> co_status oc \<noteq> CLAIMED"
  using claim_txn_impossible [OF assms]
  by (auto simp: claim_run_def in_claim_txn_def split: sum.splits)

lemma take_guard_key [simp]: "g_key (take_guard q now g) = g_key g"
  by (simp add: take_guard_def)

lemma claim_run_ok: "ledger_ok l \<Longrightarrow> ledger_ok (snd (claim_run q fence now l))"
proof (cases "claim_possible q l")
  case True
  assume "ledger_ok l"
  then show ?thesis using True
    by (auto simp: claim_run_possible ledger_ok_def claimed_ledger_def claim_possible_def
        new_attempt_def claim_intent_def)
qed (simp add: claim_run_impossible)

section \<open>The invariant\<close>

lemma advance_checkpoint_keys [simp]:
  "k_id (advance_checkpoint k c) = k_id c" "unit_key (advance_checkpoint k c) = unit_key c"
  by (simp_all add: advance_checkpoint_def unit_key_def)

lemma upsert_checkpoint_ok: "ledger_ok l \<Longrightarrow> upsert_checkpoint k l = Inr (n, l') \<Longrightarrow> ledger_ok l'"
  by (auto simp: upsert_checkpoint_def ledger_ok_def Let_def split: if_splits)

lemma commit_checkpoint_ok: "ledger_ok l \<Longrightarrow> ledger_ok (snd (commit_checkpoint k l))"
  by (auto simp: commit_checkpoint_def split: sum.splits intro: upsert_checkpoint_ok)

lemma state_cas_ok: "ledger_ok l \<Longrightarrow> ledger_ok (snd (state_cas p s c now r g b l))"
  by (auto simp: state_cas_def ledger_ok_def Let_def)

lemma atomic_cases:
  assumes "commit_atomic_checkpoint k0 s c b l = (r, l')"
  obtains (failed) e where "r = Inl e" "l' = l"
  | (stale) n where "upsert_checkpoint (k0\<lparr>k_revision := b + 1\<rparr>) l = Inr (n, l')" "n \<noteq> 1"
      "\<exists>oc. r = Inr oc \<and> ao_already_committed oc"
  | (fresh) l1 where "upsert_checkpoint (k0\<lparr>k_revision := b + 1\<rparr>) l = Inr (1, l1)"
      "state_cas (k_pipeline k0) s c (k_committed_at k0) (k_run k0) (k_generation k0) b l1 = (1, l')"
      "\<exists>oc. r = Inr oc \<and> \<not> ao_already_committed oc \<and> ao_state_revision oc = b + 1"
  using assms
  by (auto simp: commit_atomic_checkpoint_def Let_def split: sum.splits if_splits prod.splits)

lemma commit_atomic_ok: "ledger_ok l \<Longrightarrow> ledger_ok (snd (commit_atomic_checkpoint k s c b l))"
proof (cases "commit_atomic_checkpoint k s c b l")
  case (Pair r l')
  assume ok: "ledger_ok l"
  from Pair have "ledger_ok l'"
  proof (cases rule: atomic_cases)
    case (fresh l1)
    then have "ledger_ok l1" using upsert_checkpoint_ok [OF ok] by simp
    then show ?thesis using state_cas_ok [of l1] fresh(2) by (metis snd_conv)
  next
    case (stale n)
    then show ?thesis using upsert_checkpoint_ok [OF ok] by simp
  qed (simp add: ok)
  then show ?thesis using Pair by simp
qed

theorem ledger_step_ok: "ledger_ok l \<Longrightarrow> ledger_ok (snd (ledger_step op l))"
proof (cases op)
  case (LIntent i)
  assume "ledger_ok l"
  then show ?thesis using LIntent by (auto simp: ensure_run_intent_def ledger_ok_def)
next
  case (LRelease key a r)
  assume "ledger_ok l"
  then show ?thesis using LRelease by (simp add: release_guard_def ledger_ok_def Let_def)
next
  case (LTransition a r s t g)
  assume "ledger_ok l"
  then show ?thesis using LTransition
    by (auto simp: transition_attempt_def ledger_ok_def Let_def set_update_where)
next
  case (LResolve r oc a now)
  assume "ledger_ok l"
  then show ?thesis using LResolve by (simp add: resolve_intent_def ledger_ok_def Let_def)
next
  case (LSaveState mb mc p s n c u now)
  assume "ledger_ok l"
  then show ?thesis using LSaveState by (simp add: save_transform_state_def ledger_ok_def)
next
  case (LDropState p)
  assume "ledger_ok l"
  then show ?thesis using LDropState by (simp add: delete_transform_state_def ledger_ok_def)
qed (simp_all add: claim_run_ok commit_checkpoint_ok commit_atomic_ok)

interpretation lm: op_machine ledger_step ledger_ok
  by unfold_locales (rule ledger_step_ok)

interpretation guard_store: first_wins "tbl_find g_key" "insert_ignore g_key" g_key "pk_ok g_key"
  by (rule insert_ignore_first_wins)

lemma empty_ledger_ok: "ledger_ok empty_ledger"
  by (simp add: ledger_ok_def empty_ledger_def)

section \<open>Guards\<close>

definition held_by :: "string \<Rightarrow> string \<Rightarrow> string \<Rightarrow> ledger \<Rightarrow> bool" where
  "held_by key a r l \<longleftrightarrow>
     (case tbl_find g_key key (guards l) of
        None \<Rightarrow> False
      | Some g \<Rightarrow> g_attempt g = Some a \<and> g_run g = Some r)"

text \<open>A call that acquired the guard of a key, and one that claimed a run.\<close>

definition acquired :: "string \<Rightarrow> lop \<times> lout \<Rightarrow> bool" where
  "acquired key ev \<longleftrightarrow>
     (case ev of
        (LClaim q fence now, LClaimed oc) \<Rightarrow> q_guard_key q = key \<and> co_status oc = CLAIMED
      | _ \<Rightarrow> False)"

definition claimed_run :: "string \<Rightarrow> lop \<times> lout \<Rightarrow> bool" where
  "claimed_run r ev \<longleftrightarrow>
     (case ev of
        (LClaim q fence now, LClaimed oc) \<Rightarrow> q_run q = r \<and> co_status oc = CLAIMED
      | _ \<Rightarrow> False)"

definition guard_available :: "string \<Rightarrow> ledger \<Rightarrow> bool" where
  "guard_available key l \<longleftrightarrow>
     (case tbl_find g_key key (guards l) of None \<Rightarrow> True | Some g \<Rightarrow> g_attempt g = None)"

definition intent_live :: "string \<Rightarrow> ledger \<Rightarrow> bool" where
  "intent_live run_id l \<longleftrightarrow>
     (case tbl_find i_run run_id (intents l) of None \<Rightarrow> False | Some i \<Rightarrow> i_final_outcome i = None)"

lemma claim_step_claimed:
  assumes "acquired key (op, fst (ledger_step op l)) \<or> claimed_run r (op, fst (ledger_step op l))"
  obtains q fence now where "op = LClaim q fence now" "claim_possible q l"
    "acquired key (op, fst (ledger_step op l)) \<Longrightarrow> q_guard_key q = key"
    "claimed_run r (op, fst (ledger_step op l)) \<Longrightarrow> q_run q = r"
  using assms
  by (cases op)
    (auto simp: acquired_def claimed_run_def split: sum.splits dest: claim_run_impossible(2))

lemma guard_free_rowcount:
  assumes "pk_ok g_key gs"
  shows "rowcount (guard_free key) gs =
     (case tbl_find g_key key gs of None \<Rightarrow> 0 | Some g \<Rightarrow> if g_attempt g = None then 1 else 0)"
proof -
  have "guard_free key = (\<lambda>g. g_key g = key \<and> g_attempt g = None)" by (auto simp: guard_free_def)
  then show ?thesis using rowcount_pk_key [OF assms, of key "\<lambda>g. g_attempt g = None"] by simp
qed

lemma intent_open_rowcount:
  assumes "pk_ok i_run is"
  shows "rowcount (intent_open r) is =
     (case tbl_find i_run r is of None \<Rightarrow> 0 | Some i \<Rightarrow> if i_final_outcome i = None then 1 else 0)"
proof -
  have "intent_open r = (\<lambda>i. i_run i = r \<and> i_final_outcome i = None)" by (auto simp: intent_open_def)
  then show ?thesis using rowcount_pk_key [OF assms, of r "\<lambda>i. i_final_outcome i = None"] by simp
qed

text \<open>When a claim succeeds, in terms of the rows it looks at.\<close>

lemma claim_possible_iff:
  assumes "ledger_ok l"
  shows "claim_possible q l \<longleftrightarrow>
     q_guard_kind q \<in> set guard_kinds \<and>
     (case tbl_find g_key (q_guard_key q) (guards l) of None \<Rightarrow> True | Some g \<Rightarrow> g_attempt g = None) \<and>
     (case tbl_find i_run (q_run q) (intents l) of None \<Rightarrow> False | Some i \<Rightarrow> i_final_outcome i = None) \<and>
     \<not> tbl_has x_attempt (q_attempt q) (attempts l)"
proof -
  have ok: "pk_ok g_key (guards l)" "pk_ok i_run (intents l)"
    and ids: "\<And>x. x \<in> set (attempts l) \<Longrightarrow> x_attempt x = mint_attempt_id (x_run x) (x_ordinal x)"
    using assms by (auto simp: ledger_ok_def)
  have "tbl_has (\<lambda>x. (x_run x, x_ordinal x)) (q_run q, q_ordinal q) (attempts l) \<longleftrightarrow>
        tbl_has x_attempt (q_attempt q) (attempts l)"
    using ids by (auto simp: tbl_has_def mint_inject)
  then show ?thesis
    using guard_free_rowcount [OF pk_ok_insert_ignore [OF ok(1)]] intent_open_rowcount [OF ok(2)]
    by (auto simp: claim_possible_def tbl_find_insert_ignore free_guard_def
        split: option.splits if_splits)
qed

lemma held_not_acquired:
  assumes "ledger_ok l" "held_by key a r l"
  shows "\<not> acquired key (op, fst (ledger_step op l))"
proof
  assume acq: "acquired key (op, fst (ledger_step op l))"
  then obtain q fence now where "claim_possible q l" "q_guard_key q = key"
    using claim_step_claimed by metis
  then show False using assms claim_possible_iff
    by (auto simp: held_by_def split: option.splits)
qed

lemma claimed_ledger_held:
  assumes "held_by key a r l"
  shows "held_by key a r (claimed_ledger q fence now l)"
  using assms
  by (auto simp: held_by_def claimed_ledger_def tbl_find_update_where tbl_find_insert_ignore
      guard_free_def split: option.splits)

lemma ledger_step_held:
  assumes "held_by key a r l" "op \<noteq> LRelease key a r"
  shows "held_by key a r (snd (ledger_step op l))"
proof (cases op)
  case (LClaim q fence now)
  then show ?thesis using assms claimed_ledger_held
    by (cases "claim_possible q l") (simp_all add: claim_run_possible claim_run_impossible)
next
  case (LRelease key' a' r')
  then show ?thesis using assms
    by (auto simp: release_guard_def held_by_def Let_def tbl_find_update_where split: option.splits
        dest: tbl_find_SomeD intro: tbl_find_has)
next
  case (LCheckpoint k)
  then show ?thesis using assms
    by (auto simp: commit_checkpoint_def upsert_checkpoint_def held_by_def Let_def split: sum.splits if_splits)
next
  case (LAtomic k s c b)
  then show ?thesis using assms
    by (auto simp: commit_atomic_checkpoint_def upsert_checkpoint_def state_cas_def held_by_def Let_def
        split: sum.splits if_splits prod.splits)
qed (use assms in \<open>auto simp: held_by_def ensure_run_intent_def transition_attempt_def
      resolve_intent_def save_transform_state_def delete_transform_state_def Let_def\<close>)

text \<open>C9. Mutual exclusion: while an attempt holds a guard, no claim on that guard succeeds, in any
  sequence of ledger operations that does not contain the holder's own release; and the holder
  still holds it at the end.\<close>

theorem guard_exclusion:
  assumes "ledger_ok l" "held_by key a r l" "\<forall>op \<in> set es. op \<noteq> LRelease key a r"
  shows "held_by key a r (snd (run_ops ledger_step es l)) \<and>
     filter (acquired key) (zip es (fst (run_ops ledger_step es l))) = []"
  using assms
  by (intro lm.run_never_on [where A = "\<lambda>op. op \<noteq> LRelease key a r"])
    (auto intro: ledger_step_held simp: held_not_acquired)

definition demo_intent :: "string \<Rightarrow> intent" where
  "demo_intent r =
     \<lparr>i_run = r, i_pipeline = ''p'', i_origin = ''manual'', i_flush = False, i_requested_at = 0,
      i_expires_at = None, i_requested_generation = 1, i_requested_config_version = None,
      i_yaml_snapshot = None, i_schedule_type = None, i_final_outcome = None,
      i_final_attempt = None, i_resolved_at = None\<rparr>"

definition demo_claim :: "string \<Rightarrow> int \<Rightarrow> claim_req" where
  "demo_claim r n =
     \<lparr>q_guard_key = ''p'', q_guard_kind = ''batch'', q_pipeline = ''p'', q_run = r,
      q_generation = 1, q_ordinal = n, q_slot = '''', q_yaml_snapshot = None\<rparr>"

definition demo_ledger :: ledger where
  "demo_ledger = snd (run_ops ledger_step
     [LIntent (demo_intent ''r1''), LIntent (demo_intent ''r2''), LClaim (demo_claim ''r1'' 1) ''f'' 5]
     empty_ledger)"

lemma demo_ledger_ok: "ledger_ok demo_ledger"
  unfolding demo_ledger_def by (rule lm.run_inv) (rule empty_ledger_ok)

theorem guard_exclusion_witness:
  "held_by ''p'' ''r1-a1'' ''r1'' (snd (run_ops ledger_step
      [LClaim (demo_claim ''r2'' 1) ''g'' 6, LRelease ''p'' ''r2-a1'' ''r2''] demo_ledger)) \<and>
   filter (acquired ''p'') (zip [LClaim (demo_claim ''r2'' 1) ''g'' 6, LRelease ''p'' ''r2-a1'' ''r2'']
      (fst (run_ops ledger_step
        [LClaim (demo_claim ''r2'' 1) ''g'' 6, LRelease ''p'' ''r2-a1'' ''r2''] demo_ledger))) = []"
  by (rule guard_exclusion [OF demo_ledger_ok]) (code_simp, simp)

text \<open>A claim succeeds exactly when the guard is absent or free, the run's intent exists and is
  unresolved, and the minted attempt is new (the guard kind being a legal one); then the guard is
  held by that attempt, the attempt row is in state \<open>claimed\<close> with the minted fence token, and
  every other outcome leaves the whole ledger unchanged.\<close>

theorem claim_run_spec:
  assumes "ledger_ok l" "q_guard_kind q \<in> set guard_kinds"
  shows "if guard_available (q_guard_key q) l \<and> intent_live (q_run q) l \<and>
            get_attempt_row (q_attempt q) l = None
         then fst (claim_run q fence now l) = Inr (outcome q CLAIMED (Some fence)) \<and>
              held_by (q_guard_key q) (q_attempt q) (q_run q) (snd (claim_run q fence now l)) \<and>
              get_attempt_row (q_attempt q) (snd (claim_run q fence now l)) = Some (new_attempt q fence)
         else snd (claim_run q fence now l) = l \<and>
              (\<forall>oc. fst (claim_run q fence now l) = Inr oc \<longrightarrow> co_status oc \<noteq> CLAIMED)"
proof (cases "claim_possible q l")
  case True
  then have c: "guard_available (q_guard_key q) l" "intent_live (q_run q) l"
      "get_attempt_row (q_attempt q) l = None"
    using claim_possible_iff [OF assms(1)]
    by (auto simp: guard_available_def intent_live_def get_attempt_row_def)
  have "held_by (q_guard_key q) (q_attempt q) (q_run q) (claimed_ledger q fence now l)"
    using c(1) unfolding guard_available_def
    by (auto simp: held_by_def claimed_ledger_def tbl_find_update_where tbl_find_insert_ignore
        guard_free_def free_guard_def take_guard_def split: option.splits dest: tbl_find_SomeD)
  moreover have "get_attempt_row (q_attempt q) (claimed_ledger q fence now l) = Some (new_attempt q fence)"
    using c(3) by (simp add: get_attempt_row_def claimed_ledger_def tbl_find_append new_attempt_def)
  ultimately show ?thesis using c True by (simp add: claim_run_possible)
next
  case False
  then have "\<not> (guard_available (q_guard_key q) l \<and> intent_live (q_run q) l \<and>
      get_attempt_row (q_attempt q) l = None)"
    using claim_possible_iff [OF assms(1)] assms(2)
    by (auto simp: guard_available_def intent_live_def get_attempt_row_def)
  then show ?thesis using claim_run_impossible [OF False] by auto
qed

theorem claim_run_spec_witness:
  "fst (claim_run (demo_claim ''r2'' 1) ''g'' 9 (snd (release_guard ''p'' ''r1-a1'' ''r1'' demo_ledger))) =
     Inr (outcome (demo_claim ''r2'' 1) CLAIMED (Some ''g''))"
proof -
  let ?q = "demo_claim ''r2'' 1" and ?l = "snd (release_guard ''p'' ''r1-a1'' ''r1'' demo_ledger)"
  have ok: "ledger_ok ?l"
    using ledger_step_ok [OF demo_ledger_ok, of "LRelease ''p'' ''r1-a1'' ''r1''"] by simp
  have kind: "q_guard_kind ?q \<in> set guard_kinds" by code_simp
  have "guard_available (q_guard_key ?q) ?l \<and> intent_live (q_run ?q) ?l \<and>
      get_attempt_row (q_attempt ?q) ?l = None" by code_simp
  with claim_run_spec [OF ok kind, of "''g''" 9] show ?thesis by (simp only: if_True)
qed

section \<open>Resolution\<close>







section \<open>Checkpoints\<close>

text \<open>The committed position of a unit, compared over time: same row, frontier not behind.\<close>

definition chk_le :: "checkpoint \<Rightarrow> checkpoint \<Rightarrow> bool" where
  "chk_le c c' \<longleftrightarrow> c' = c \<or> (k_id c' = k_id c \<and> unit_key c' = unit_key c \<and> k_seq c < k_seq c')"

definition chk_reached :: "checkpoint \<Rightarrow> ledger \<Rightarrow> bool" where
  "chk_reached c l \<longleftrightarrow>
     (\<exists>c'. tbl_find unit_key (unit_key c) (checkpoints l) = Some c' \<and> chk_le c c')"

lemma upsert_checkpoint_reached:
  assumes "chk_reached c l" "upsert_checkpoint k l = Inr (n, l')"
  shows "chk_reached c l'"
proof -
  from assms(1) obtain c' where c': "tbl_find unit_key (unit_key c) (checkpoints l) = Some c'" "chk_le c c'"
    by (auto simp: chk_reached_def)
  have key: "unit_key c' = unit_key c" using tbl_find_SomeD [OF c'(1)] by simp
  show ?thesis
  proof (cases "tbl_has unit_key (unit_key k) (checkpoints l)")
    case True
    let ?newer = "\<lambda>x. unit_key x = unit_key k \<and> k_seq k > k_seq x"
    let ?c2 = "if ?newer c' then advance_checkpoint k c' else c'"
    have "tbl_find unit_key (unit_key c) (checkpoints l') = Some ?c2"
      using assms(2) True c'(1)
      by (auto simp: upsert_checkpoint_def Let_def tbl_find_update_where)
    moreover have "chk_le c ?c2" using c'(2) key
      by (auto simp: chk_le_def advance_checkpoint_def unit_key_def)
    ultimately show ?thesis by (simp add: chk_reached_def)
  next
    case False
    then have "tbl_find unit_key (unit_key c) (checkpoints l') = Some c'"
      using assms(2) c'(1) by (auto simp: upsert_checkpoint_def Let_def tbl_find_append split: if_splits)
    then show ?thesis using c'(2) by (auto simp: chk_reached_def)
  qed
qed

lemma ledger_step_reached:
  assumes "chk_reached c l"
  shows "chk_reached c (snd (ledger_step op l))"
proof (cases op)
  case (LCheckpoint k)
  then show ?thesis using assms upsert_checkpoint_reached [OF assms]
    by (auto simp: commit_checkpoint_def split: sum.splits)
next
  case (LAtomic k s g b)
  obtain r l' where run: "commit_atomic_checkpoint k s g b l = (r, l')"
    by (cases "commit_atomic_checkpoint k s g b l") auto
  from run have "chk_reached c l'"
  proof (cases rule: atomic_cases)
    case (fresh l1)
    have "chk_reached c l1" using upsert_checkpoint_reached [OF assms fresh(1)] .
    moreover have "checkpoints l' = checkpoints l1"
      using fresh(2) by (auto simp: state_cas_def Let_def split: if_splits)
    ultimately show ?thesis by (simp add: chk_reached_def)
  qed (use assms upsert_checkpoint_reached in auto)
  then show ?thesis using run LAtomic by simp
next
  case (LClaim q fence now)
  then show ?thesis using assms
    by (cases "claim_possible q l")
      (simp_all add: claim_run_possible claim_run_impossible chk_reached_def claimed_ledger_def)
qed (use assms in \<open>auto simp: chk_reached_def ensure_run_intent_def release_guard_def transition_attempt_def
      resolve_intent_def save_transform_state_def delete_transform_state_def Let_def\<close>)

text \<open>C11. Checkpoints only move forward: whatever is committed later, by whichever attempt, a unit's
  row keeps its \<open>checkpoint_id\<close>, and either is exactly the row committed before or has a strictly
  larger frontier.\<close>

theorem checkpoint_frontier_monotone:
  assumes "ledger_ok l" "tbl_find unit_key u (checkpoints l) = Some c"
  shows "\<exists>c'. tbl_find unit_key u (checkpoints (snd (run_ops ledger_step es l))) = Some c' \<and>
           (c' = c \<or> k_id c' = k_id c \<and> k_seq c < k_seq c')"
proof -
  have u: "unit_key c = u" using tbl_find_SomeD [OF assms(2)] by simp
  have "chk_reached c l" using assms(2) by (auto simp: chk_reached_def chk_le_def u)
  then have "chk_reached c (snd (run_ops ledger_step es l))"
    using assms(1) by (intro lm.run_stable [where P = "chk_reached c"]) (auto intro: ledger_step_reached)
  then show ?thesis by (auto simp: chk_reached_def chk_le_def u)
qed

definition demo_chk :: "string \<Rightarrow> int \<Rightarrow> checkpoint" where
  "demo_chk ident n =
     \<lparr>k_id = ident, k_pipeline = ''p'', k_generation = 1, k_attempt = ''r1-a1'', k_run = ''r1'',
      k_unit = ''u'', k_frontier = ''{}'', k_seq = n, k_receipts = ''[]'', k_revision = 0,
      k_committed_at = 0\<rparr>"

theorem checkpoint_frontier_monotone_witness:
  "\<exists>c'. tbl_find unit_key (''p'', ''u'') (checkpoints (snd (run_ops ledger_step
       [LCheckpoint (demo_chk ''k2'' 3), LCheckpoint (demo_chk ''k3'' 9)]
       (snd (ledger_step (LCheckpoint (demo_chk ''k1'' 5)) demo_ledger))))) = Some c' \<and>
     (c' = demo_chk ''k1'' 5 \<or> k_id c' = k_id (demo_chk ''k1'' 5) \<and> k_seq (demo_chk ''k1'' 5) < k_seq c')"
  by (rule checkpoint_frontier_monotone [OF ledger_step_ok [OF demo_ledger_ok]]) code_simp

lemma foldl_max_ge: "(n :: int) \<le> foldl max n ns \<and> (\<forall>m \<in> set ns. m \<le> foldl max n ns)"
  by (induction ns arbitrary: n) (auto, (metis max.bounded_iff)+)

lemma next_attempt_ordinal_fresh:
  assumes "x \<in> set (attempts l)"
  shows "x_ordinal x < next_attempt_ordinal (x_run x) l"
proof -
  let ?ns = "map x_ordinal (filter (\<lambda>y. x_run y = x_run x) (attempts l))"
  have "x_ordinal x \<in> set ?ns" using assms by auto
  then show ?thesis
    unfolding next_attempt_ordinal_def using foldl_max_ge by (cases ?ns) force+
qed

text \<open>The identity scheme never collides: a claim that asks for the run's next ordinal is never
  stopped by a constraint of the attempts table, for any guard kind the schema allows.\<close>

theorem next_ordinal_never_conflicts:
  assumes "ledger_ok l" "q_guard_kind q \<in> set guard_kinds"
    and "q_ordinal q = next_attempt_ordinal (q_run q) l"
  shows "fst (claim_run q fence now l) \<noteq> Inl e"
proof -
  have "(x_run x, x_ordinal x) \<noteq> (q_run q, q_ordinal q)" if "x \<in> set (attempts l)" for x
    using next_attempt_ordinal_fresh [OF that] assms(3) by auto
  then have "\<not> tbl_has x_attempt (q_attempt q) (attempts l)"
    and "\<not> tbl_has (\<lambda>x. (x_run x, x_ordinal x)) (q_run q, q_ordinal q) (attempts l)"
    using assms(1) by (auto simp: tbl_has_def ledger_ok_def mint_inject)
  then show ?thesis using assms(2)
    by (auto simp: claim_run_def in_claim_txn_def claim_txn_def Let_def split: option.splits)
qed

theorem next_ordinal_never_conflicts_witness:
  "fst (claim_run (demo_claim ''r1'' 2) ''g'' 9 demo_ledger) \<noteq> Inl (IntegrityError ''execution_attempts'')"
  by (rule next_ordinal_never_conflicts [OF demo_ledger_ok]) code_simp+

section \<open>Transitions\<close>

text \<open>The transition of an attempt is fenced by identity, generation and current state, and by
  nothing else: on a match the state becomes any of the six states, also out of \<open>terminal\<close>; on a
  mismatch nothing changes and the count is 0.\<close>

theorem transition_attempt_fenced:
  assumes "ledger_ok l" "tbl_find x_attempt a (attempts l) = Some x" "to_state \<in> set attempt_states"
  shows "if x_run x = r \<and> x_state x = from_state \<and> x_generation x = g
         then fst (transition_attempt a r from_state to_state g l) = Inr 1 \<and>
              tbl_find x_attempt a (attempts (snd (transition_attempt a r from_state to_state g l))) =
                Some (x\<lparr>x_state := to_state\<rparr>)
         else transition_attempt a r from_state to_state g l = (Inr 0, l)"
proof -
  let ?fence = "\<lambda>y. x_attempt y = a \<and> (x_run y = r \<and> x_state y = from_state \<and> x_generation y = g)"
  have pk: "pk_ok x_attempt (attempts l)" using assms(1) by (simp add: ledger_ok_def)
  have n: "rowcount ?fence (attempts l) = (if x_run x = r \<and> x_state x = from_state \<and> x_generation x = g then 1 else 0)"
    using rowcount_pk_key [OF pk, of a "\<lambda>y. x_run y = r \<and> x_state y = from_state \<and> x_generation y = g"]
      assms(2) by simp
  then show ?thesis
    using assms(2,3) update_where_no_match [of ?fence "attempts l"]
    by (auto simp: transition_attempt_def Let_def tbl_find_update_where dest: tbl_find_SomeD)
qed

theorem transition_attempt_fenced_witness:
  "fst (transition_attempt ''r1-a1'' ''r1'' ''terminal'' ''running'' 1
     (snd (transition_attempt ''r1-a1'' ''r1'' ''claimed'' ''terminal'' 1 demo_ledger))) = Inr 1"
proof -
  let ?l = "snd (transition_attempt ''r1-a1'' ''r1'' ''claimed'' ''terminal'' 1 demo_ledger)"
  let ?x = "(new_attempt (demo_claim ''r1'' 1) ''f'')\<lparr>x_state := ''terminal''\<rparr>"
  have ok: "ledger_ok ?l"
    using ledger_step_ok [OF demo_ledger_ok, of "LTransition ''r1-a1'' ''r1'' ''claimed'' ''terminal'' 1"] by simp
  have "tbl_find x_attempt ''r1-a1'' (attempts ?l) = Some ?x" "''running'' \<in> set attempt_states"
    by code_simp+
  note t = transition_attempt_fenced [OF ok this, of "''r1''" "''terminal''" 1]
  have "x_run ?x = ''r1'' \<and> x_state ?x = ''terminal'' \<and> x_generation ?x = 1" by code_simp
  then show ?thesis using t by (simp only: if_True)
qed

section \<open>The atomic checkpoint\<close>

lemma state_cas_success:
  assumes pk: "pk_ok ts_pipeline (tstates l)" and cas: "state_cas p s c now r g b l = (1, l')"
  shows "\<exists>t. tbl_find ts_pipeline p (tstates l') = Some t \<and> ts_state_json t = s \<and>
     ts_generation t = Some g \<and> ts_revision t = (if tbl_has ts_pipeline p (tstates l) then b + 1 else 1)"
proof (cases "tbl_find ts_pipeline p (tstates l)")
  case None
  then show ?thesis using cas by (auto simp: state_cas_def Let_def tbl_find_append)
next
  case (Some t0)
  let ?P = "\<lambda>t. ts_revision t = b \<and> (ts_generation t = None \<or> ts_generation t = Some g)"
  have has: "tbl_has ts_pipeline p (tstates l)" using Some by (rule tbl_find_has)
  have p: "ts_pipeline t0 = p" using tbl_find_SomeD [OF Some] by simp
  have "rowcount (\<lambda>t. ts_pipeline t = p \<and> ?P t) (tstates l) = 1"
    using cas has by (simp add: state_cas_def Let_def)
  moreover have "rowcount (\<lambda>t. ts_pipeline t = p \<and> ?P t) (tstates l) = (if ?P t0 then 1 else 0)"
    using rowcount_pk_key [OF pk, of p ?P] unfolding Some by (simp only: option.case)
  ultimately have fence: "?P t0" by (metis zero_neq_one)
  have "tstates l' = update_where (\<lambda>t. ts_pipeline t = p \<and> ?P t)
      (\<lambda>t. t\<lparr>ts_state_json := s, ts_config_sha256 := c, ts_updated_at := now, ts_updated_by := r,
             ts_generation := Some g, ts_revision := ts_revision t + 1\<rparr>) (tstates l)"
    using cas has by (auto simp: state_cas_def Let_def)
  then show ?thesis using Some has p fence by (simp add: tbl_find_update_where)
qed

text \<open>A fresh atomic checkpoint stores the caller's state blob in the same transaction and answers
  revision base + 1; the stored revision is base + 1 when the pipeline had a state row, but 1 when
  it had none, whatever the base was.\<close>

theorem atomic_checkpoint_revision:
  assumes "ledger_ok l" "commit_atomic_checkpoint k s c b l = (Inr oc, l')" "\<not> ao_already_committed oc"
  shows "ao_state_revision oc = b + 1 \<and>
     (\<exists>t. load_transform_state (k_pipeline k) l' = Some t \<and> ts_state_json t = s \<and>
          ts_generation t = Some (k_generation k) \<and>
          ts_revision t = (if load_transform_state (k_pipeline k) l = None then 1 else b + 1))"
  using assms(2)
proof (cases rule: atomic_cases)
  case (fresh l1)
  have l1: "tstates l1 = tstates l"
    using fresh(1) by (auto simp: upsert_checkpoint_def Let_def split: if_splits)
  then have "pk_ok ts_pipeline (tstates l1)" using assms(1) by (simp add: ledger_ok_def)
  from state_cas_success [OF this fresh(2)] show ?thesis
    using fresh(3) l1 by (auto simp: load_transform_state_def)
qed (use assms(3) in auto)

theorem atomic_checkpoint_revision_witness:
  "\<exists>oc l'. commit_atomic_checkpoint (demo_chk ''k1'' 5) ''{}'' ''sha'' 7 demo_ledger = (Inr oc, l') \<and>
     ao_state_revision oc = 8 \<and>
     (\<exists>t. load_transform_state ''p'' l' = Some t \<and> ts_revision t = 1)"
proof -
  have "case fst (commit_atomic_checkpoint (demo_chk ''k1'' 5) ''{}'' ''sha'' 7 demo_ledger) of
      Inl e \<Rightarrow> False | Inr oc \<Rightarrow> \<not> ao_already_committed oc" by code_simp
  then obtain oc l' where r: "commit_atomic_checkpoint (demo_chk ''k1'' 5) ''{}'' ''sha'' 7 demo_ledger = (Inr oc, l')"
    "\<not> ao_already_committed oc"
    by (cases "commit_atomic_checkpoint (demo_chk ''k1'' 5) ''{}'' ''sha'' 7 demo_ledger")
      (auto split: sum.splits)
  have "k_pipeline (demo_chk ''k1'' 5) = ''p''" "load_transform_state ''p'' demo_ledger = None" by code_simp+
  with atomic_checkpoint_revision [OF demo_ledger_ok r] r show ?thesis by auto
qed

end
