(* ===== verification/Py_Dict.thy ===== *)
theory Py_Dict
  imports Prelude
begin

text \<open>
  Python dictionaries: association lists in insertion order with distinct keys. Assigning to
  a present key keeps its position, assigning to a new key appends, deletion removes the
  entry. The laws a client of a dictionary uses are stated as a locale and interpreted on
  these operations; the lemmas on repeated assignment are proved in it.
\<close>

type_synonym ('k, 'v) dict = "('k \<times> 'v) list"

fun dget :: "('k, 'v) dict \<Rightarrow> 'k \<Rightarrow> 'v option" where
  "dget [] k = None"
| "dget ((k', v) # d) k = (if k' = k then Some v else dget d k)"

fun dset :: "'k \<Rightarrow> 'v \<Rightarrow> ('k, 'v) dict \<Rightarrow> ('k, 'v) dict" where
  "dset k v [] = [(k, v)]"
| "dset k v ((k', v') # d) = (if k' = k then (k, v) # d else (k', v') # dset k v d)"

fun dpop :: "'k \<Rightarrow> ('k, 'v) dict \<Rightarrow> ('k, 'v) dict" where
  "dpop k [] = []"
| "dpop k ((k', v') # d) = (if k' = k then d else (k', v') # dpop k d)"

definition dkeys :: "('k, 'v) dict \<Rightarrow> 'k list" where
  "dkeys d = map fst d"

definition dhas :: "'k \<Rightarrow> ('k, 'v) dict \<Rightarrow> bool" where
  "dhas k d \<longleftrightarrow> dget d k \<noteq> None"

definition dwf :: "('k, 'v) dict \<Rightarrow> bool" where
  "dwf d \<longleftrightarrow> distinct (dkeys d)"

section \<open>The interface\<close>

locale dictionary =
  fixes lookup :: "'d \<Rightarrow> 'k \<Rightarrow> 'v option"
    and update :: "'k \<Rightarrow> 'v \<Rightarrow> 'd \<Rightarrow> 'd"
    and delete :: "'k \<Rightarrow> 'd \<Rightarrow> 'd"
    and invar :: "'d \<Rightarrow> bool"
  assumes lookup_update: "invar d \<Longrightarrow> lookup (update k v d) k' = (if k' = k then Some v else lookup d k')"
    and lookup_delete: "invar d \<Longrightarrow> lookup (delete k d) k' = (if k' = k then None else lookup d k')"
    and invar_update: "invar d \<Longrightarrow> invar (update k v d)"
    and invar_delete: "invar d \<Longrightarrow> invar (delete k d)"
begin

lemma invar_fold_update: "invar d \<Longrightarrow> invar (fold (\<lambda>(k, v). update k v) kvs d)"
  by (induction kvs arbitrary: d) (auto simp: invar_update)

lemma invar_fold_delete: "invar d \<Longrightarrow> invar (fold delete ks d)"
  by (induction ks arbitrary: d) (auto simp: invar_delete)

lemma lookup_fold_delete:
  "invar d \<Longrightarrow> lookup (fold delete ks d) k = (if k \<in> set ks then None else lookup d k)"
  by (induction ks arbitrary: d) (auto simp: invar_delete lookup_delete)

lemma lookup_fold_update_other:
  "invar d \<Longrightarrow> k \<notin> fst ` set kvs \<Longrightarrow> lookup (fold (\<lambda>(k, v). update k v) kvs d) k = lookup d k"
  by (induction kvs arbitrary: d) (auto simp: invar_update lookup_update)

lemma lookup_fold_update_const:
  "invar d \<Longrightarrow> k \<in> set ks \<Longrightarrow> lookup (fold (\<lambda>k. update k v) ks d) k = Some v"
proof (induction ks arbitrary: d)
  case (Cons a ks)
  have "lookup (fold (\<lambda>k. update k v) ks e) k = Some v" if "invar e" "lookup e k = Some v" for e
    using that by (induction ks arbitrary: e) (auto simp: invar_update lookup_update)
  then show ?case using Cons by (cases "k \<in> set ks") (auto simp: invar_update lookup_update)
qed simp

end

section \<open>Facts about the operations\<close>

lemma dget_dset [simp]: "dget (dset k v d) k' = (if k' = k then Some v else dget d k')"
  by (induction k v d rule: dset.induct) auto

lemma dkeys_Nil [simp]: "dkeys [] = []"
  by (simp add: dkeys_def)

lemma dkeys_Cons [simp]: "dkeys (e # d) = fst e # dkeys d"
  by (simp add: dkeys_def)

lemma dget_None_iff: "dget d k = None \<longleftrightarrow> k \<notin> set (dkeys d)"
  by (induction d k rule: dget.induct) auto

lemma dhas_iff: "dhas k d \<longleftrightarrow> k \<in> set (dkeys d)"
  by (simp add: dhas_def dget_None_iff)

lemma dget_SomeD: "dget d k = Some v \<Longrightarrow> (k, v) \<in> set d"
  by (induction d k rule: dget.induct) (auto split: if_splits)

lemma dkeys_dset: "dkeys (dset k v d) = (if k \<in> set (dkeys d) then dkeys d else dkeys d @ [k])"
  by (induction k v d rule: dset.induct) auto

lemma set_dkeys_dset [simp]: "set (dkeys (dset k v d)) = insert k (set (dkeys d))"
  by (auto simp: dkeys_dset)

lemma dwf_Nil [simp]: "dwf []"
  by (simp add: dwf_def)

lemma dwf_Cons [simp]: "dwf ((k, v) # d) \<longleftrightarrow> k \<notin> set (dkeys d) \<and> dwf d"
  by (simp add: dwf_def)

lemma dwf_dset [simp]: "dwf d \<Longrightarrow> dwf (dset k v d)"
  by (simp add: dwf_def dkeys_dset)

lemma set_dkeys_dpop: "dwf d \<Longrightarrow> set (dkeys (dpop k d)) = set (dkeys d) - {k}"
  by (induction k d rule: dpop.induct) auto

lemma dwf_dpop [simp]: "dwf d \<Longrightarrow> dwf (dpop k d)"
  by (induction k d rule: dpop.induct) (auto simp: set_dkeys_dpop)

lemma dget_dpop: "dwf d \<Longrightarrow> dget (dpop k d) k' = (if k' = k then None else dget d k')"
  by (induction k d rule: dpop.induct) (auto simp: dget_None_iff)

lemma dpop_absent [simp]: "k \<notin> set (dkeys d) \<Longrightarrow> dpop k d = d"
  by (induction k d rule: dpop.induct) auto

lemma dset_dset [simp]: "dset k v (dset k w d) = dset k v d"
  by (induction k w d rule: dset.induct) auto

lemma dget_mem: "dwf d \<Longrightarrow> (k, v) \<in> set d \<Longrightarrow> dget d k = Some v"
  by (induction d k rule: dget.induct) (auto simp: dkeys_def image_iff)

interpretation pydict: dictionary dget dset dpop dwf
  by unfold_locales (auto simp: dget_dpop)

end
