(* ===== verification/Worker_Server.thy ===== *)
theory Worker_Server
  imports Journal_Props Py_Dict
begin

text \<open>
  The worker agent of \<open>tram/agent/server.py\<close> around its journal: the in-memory table of
  active runs (\<open>WorkerState\<close>), the request handlers that change state (handshake, run,
  stop, drain), the end of a run thread, boot recovery, and one pass of the outbox drain
  loop. What a handler asks of the outside is an argument: whether the dispatched YAML
  loads, the fresh secret, the monotonic clock, whether a payload parses as JSON and how
  the manager answers a delivery.
\<close>

section \<open>Active runs\<close>

record active_run =
  ac_run :: string
  ac_pipeline :: string
  ac_schedule :: string
  ac_config_sha :: string
  ac_att :: string
  ac_gen :: "int option"
  ac_slot :: string
  ac_legacy :: bool
  ac_stop :: bool

record wstate =
  ws_runs :: "(string, active_run) dict"
  ws_by_run :: "(string, string) dict"
  ws_draining :: bool
  ws_deadline :: "int option"

definition empty_wstate :: wstate where
  "empty_wstate = \<lparr>ws_runs = [], ws_by_run = [], ws_draining = False, ws_deadline = None\<rparr>"

definition admission_state :: "wstate \<Rightarrow> string" where
  "admission_state s = (if ws_draining s then ''draining'' else ''admitting'')"

definition begin_drain :: "int \<Rightarrow> wstate \<Rightarrow> bool \<times> wstate" where
  "begin_drain deadline s =
     (if ws_draining s then (False, s)
      else (True, s\<lparr>ws_draining := True, ws_deadline := Some deadline\<rparr>))"

definition run_key :: "active_run \<Rightarrow> string" where
  "run_key r = (if ac_att r \<noteq> [] then ac_att r else ac_run r)"

definition state_add :: "active_run \<Rightarrow> wstate \<Rightarrow> wstate" where
  "state_add r s =
     s\<lparr>ws_runs := dset (run_key r) r (ws_runs s),
       ws_by_run := dset (ac_run r) (run_key r) (ws_by_run s)\<rparr>"

definition reindex_locked :: "string \<Rightarrow> wstate \<Rightarrow> wstate" where
  "reindex_locked run_id s =
     (case List.find (\<lambda>(k, r). ac_run r = run_id) (ws_runs s) of
        Some (k, r) \<Rightarrow> s\<lparr>ws_by_run := dset run_id k (ws_by_run s)\<rparr>
      | None \<Rightarrow> s\<lparr>ws_by_run := dpop run_id (ws_by_run s)\<rparr>)"

definition state_remove :: "string \<Rightarrow> string \<Rightarrow> wstate \<Rightarrow> wstate" where
  "state_remove run_id attempt_id s =
     (let key = (if attempt_id \<noteq> [] then attempt_id else run_id);
          s1 = s\<lparr>ws_runs := dpop key (ws_runs s)\<rparr>
      in if dget (ws_by_run s1) run_id = Some key then reindex_locked run_id s1 else s1)"

text \<open>\<open>self._by_run.get(run_id) or run_id\<close>: an empty key falls back to the run id.\<close>

definition state_key :: "string \<Rightarrow> wstate \<Rightarrow> string" where
  "state_key run_id s =
     (case dget (ws_by_run s) run_id of
        Some k \<Rightarrow> if k \<noteq> [] then k else run_id
      | None \<Rightarrow> run_id)"

definition state_get :: "string \<Rightarrow> wstate \<Rightarrow> active_run option" where
  "state_get run_id s = dget (ws_runs s) (state_key run_id s)"

definition state_snapshot :: "wstate \<Rightarrow> active_run list" where
  "state_snapshot s = map snd (ws_runs s)"

section \<open>The worker process\<close>

record worker =
  wk_journal :: wjournal
  wk_state :: wstate
  wk_session :: string
  wk_secret :: string
  wk_prev_secret :: "string option"

record run_req =
  rq_run :: string
  rq_pipeline :: string
  rq_schedule :: string
  rq_authorization :: "string option"
  rq_generation :: "int option"
  rq_slot :: string
  rq_sha :: string

text \<open>
  The answer of a handler: a refusal with its HTTP status, the echo of an attempt admitted
  before, the acceptance of a new run (whose thread was started), or an exception that the
  handler does not catch, raised before or after the thread of an attempt was started.
\<close>

datatype reply =
    Refuse int
  | Repeat string
  | Accept string "string option"
  | Raise jerror
  | RaiseStarted string jerror
  | Done

definition handshake :: "string \<Rightarrow> disk \<Rightarrow> worker \<Rightarrow> (string \<times> journal_health) \<times> worker" where
  "handshake new_secret dk w =
     (case health_locked dk (wk_journal w) of
        (h, j) \<Rightarrow>
          ((new_secret, h),
           w\<lparr>wk_prev_secret := (if wk_secret w = [] then None else Some (wk_secret w)),
             wk_secret := new_secret, wk_journal := j\<rparr>))"

text \<open>Refusal codes for the admission errors and outcomes.\<close>

definition refusal_status :: "string option \<Rightarrow> int" where
  "refusal_status why =
     (if why = Some ''old session epoch'' \<or> why = Some ''token retired by watermark'' then 403 else 401)"

definition new_active_run :: "run_req \<Rightarrow> string option \<Rightarrow> active_run" where
  "new_active_run req attempt_id =
     \<lparr>ac_run = rq_run req, ac_pipeline = rq_pipeline req, ac_schedule = rq_schedule req,
      ac_config_sha = rq_sha req,
      ac_att = (case attempt_id of Some a \<Rightarrow> a | None \<Rightarrow> []), ac_gen = rq_generation req,
      ac_slot = rq_slot req, ac_legacy = (rq_authorization req = None), ac_stop = False\<rparr>"

text \<open>
  From the acceptance on: the run is added, its thread starts, and an authorized attempt
  is marked running and read back.
\<close>

definition start_run :: "run_req \<Rightarrow> string option \<Rightarrow> disk \<Rightarrow> worker \<Rightarrow> reply \<times> worker" where
  "start_run req attempt_id dk w =
     (let w1 = w\<lparr>wk_state := state_add (new_active_run req attempt_id) (wk_state w)\<rparr>
      in case attempt_id of
           None \<Rightarrow> (Accept (rq_run req) None, w1)
         | Some a \<Rightarrow>
             (case mark_running a dk (wk_journal w1) of
                (Inl e, j) \<Rightarrow> (RaiseStarted a e, w1\<lparr>wk_journal := j\<rparr>)
              | (Inr b, j) \<Rightarrow>
                  (case get_attempt a dk j of
                     (Inl e, j') \<Rightarrow> (RaiseStarted a e, w1\<lparr>wk_journal := j'\<rparr>)
                   | (Inr rec, j') \<Rightarrow> (Accept (rq_run req) (Some a), w1\<lparr>wk_journal := j'\<rparr>))))"

definition agent_run ::
  "(string \<Rightarrow> string \<Rightarrow> string) \<Rightarrow> (string \<Rightarrow> string) \<Rightarrow> jcfg \<Rightarrow> disk \<Rightarrow> clock \<Rightarrow> bool \<Rightarrow> bool
    \<Rightarrow> run_req \<Rightarrow> worker \<Rightarrow> reply \<times> worker" where
  "agent_run sign sha256 cfg dk clk legacy_off yaml_ok req w =
     (if ws_draining (wk_state w) then (Refuse 503, w)
      else
        (case rq_authorization req of
           None \<Rightarrow>
             if legacy_off then (Refuse 400, w)
             else if state_get (rq_run req) (wk_state w) \<noteq> None then (Refuse 409, w)
             else if \<not> yaml_ok then (Refuse 422, w)
             else start_run req None dk w
         | Some token \<Rightarrow>
             if \<not> yaml_ok then (Refuse 422, w)
             else
               (case validate_and_admit sign sha256 cfg dk clk token (rq_pipeline req)
                       (wk_session w) (wk_secret w) (wk_prev_secret w) None (wk_journal w) of
                  (r, j) \<Rightarrow>
                    (let w1 = w\<lparr>wk_journal := j\<rparr>
                     in case r of
                          Inl (AdmissionConflict a) \<Rightarrow> (Refuse 409, w1)
                        | Inl (AdmissionClosed m) \<Rightarrow> (Refuse 503, w1)
                        | Inl e \<Rightarrow> (Raise e, w1)
                        | Inr (Revoked a why t) \<Rightarrow> (Refuse 410, w1)
                        | Inr (RefusedAuth a why) \<Rightarrow> (Refuse (refusal_status why), w1)
                        | Inr (AlreadyAdmitted a ex) \<Rightarrow>
                            (case get_attempt a dk j of
                               (Inl e, j') \<Rightarrow> (Raise e, w1\<lparr>wk_journal := j'\<rparr>)
                             | (Inr rec, j') \<Rightarrow> (Repeat a, w1\<lparr>wk_journal := j'\<rparr>))
                        | Inr (Admitted a) \<Rightarrow> start_run req (Some a) dk w1))))"

definition agent_stop :: "string \<Rightarrow> worker \<Rightarrow> reply \<times> worker" where
  "agent_stop run_id w =
     (case state_get run_id (wk_state w) of
        None \<Rightarrow> (Refuse 404, w)
      | Some r \<Rightarrow>
          (Done, w\<lparr>wk_state := (wk_state w)\<lparr>ws_runs :=
             dset (state_key run_id (wk_state w)) (r\<lparr>ac_stop := True\<rparr>) (ws_runs (wk_state w))\<rparr>\<rparr>))"

definition agent_drain :: "int \<Rightarrow> int \<Rightarrow> worker \<Rightarrow> reply \<times> worker" where
  "agent_drain now_monotonic timeout_s w =
     (let s1 = snd (begin_drain (now_monotonic + timeout_s) (wk_state w))
      in (Done, w\<lparr>wk_state := s1\<lparr>ws_runs := map (\<lambda>(k, r). (k, r\<lparr>ac_stop := True\<rparr>)) (ws_runs s1)\<rparr>\<rparr>))"

section \<open>The end of a run\<close>

definition legacy_outbox_key :: "string \<Rightarrow> string" where
  "legacy_outbox_key run_id = ''legacy:'' @ run_id"

text \<open>
  \<open>_commit_completion\<close>: \<open>Inr True\<close> when the result is journaled, \<open>Inr False\<close> when a legacy
  result goes out by the direct post because the journal is unavailable.
\<close>

definition journal_legacy_completion ::
  "clock \<Rightarrow> disk \<Rightarrow> string \<Rightarrow> string \<Rightarrow> wjournal \<Rightarrow> (jerror + bool) \<times> wjournal" where
  "journal_legacy_completion clk dk run_id result_json j =
     (case record_completion_and_enqueue clk (legacy_outbox_key run_id) result_json (Some run_id) dk j of
        (Inl (JournalUnavailable m), j') \<Rightarrow> (Inr False, j')
      | (Inl e, j') \<Rightarrow> (Inl e, j')
      | (Inr u, j') \<Rightarrow> (Inr True, j'))"

definition worker_commit_completion ::
  "clock \<Rightarrow> disk \<Rightarrow> string \<Rightarrow> string \<Rightarrow> string option \<Rightarrow> string \<Rightarrow> wjournal \<Rightarrow> (jerror + bool) \<times> wjournal" where
  "worker_commit_completion clk dk attempt_id run_id result_json legacy_json j =
     (if attempt_id \<noteq> []
      then
        (case record_completion_and_enqueue clk attempt_id
                (case result_json of Some r \<Rightarrow> r | None \<Rightarrow> []) None dk j of
           (Inl e, j') \<Rightarrow> (Inl e, j')
         | (Inr u, j') \<Rightarrow> (Inr True, j'))
      else journal_legacy_completion clk dk run_id legacy_json j)"

text \<open>
  A run thread's last steps. The executor returned (\<open>Some\<close>: the result to commit) or raised
  (\<open>None\<close>). A returned result is committed; when the executor or that commit raises, the
  handler commits an error result, which mentions the exception (\<open>on_error\<close> takes the error
  of the first commit, \<open>None\<close> when the executor raised); in every case the run leaves the
  table. Each commit carries the attempt's payload and the legacy-shaped one.
\<close>

type_synonym payloads = "string option \<times> string"

definition thread_end ::
  "clock \<Rightarrow> disk \<Rightarrow> clock \<Rightarrow> disk \<Rightarrow> string \<Rightarrow> string \<Rightarrow> payloads option
    \<Rightarrow> (jerror option \<Rightarrow> payloads) \<Rightarrow> worker \<Rightarrow> (jerror + bool) \<times> worker" where
  "thread_end clk dk clk' dk' attempt_id run_id result on_error w =
     (let failed = (\<lambda>why. worker_commit_completion clk' dk' attempt_id run_id
                            (fst (on_error why)) (snd (on_error why)));
          (r, j) =
            (case result of
               None \<Rightarrow> failed None (wk_journal w)
             | Some res \<Rightarrow>
                 (case worker_commit_completion clk dk attempt_id run_id (fst res) (snd res) (wk_journal w) of
                    (Inr b, j1) \<Rightarrow> (Inr b, j1)
                  | (Inl e, j1) \<Rightarrow> failed (Some e) j1))
      in (r, w\<lparr>wk_journal := j, wk_state := state_remove run_id attempt_id (wk_state w)\<rparr>))"

section \<open>Boot\<close>

text \<open>
  A new process on the same journal file: a new session and empty run table; active
  reservations are marked interrupted and stranded results respooled. An unavailable
  journal does not stop the worker.
\<close>

definition worker_boot ::
  "disk \<Rightarrow> clock \<Rightarrow> int \<Rightarrow> int \<Rightarrow> string \<Rightarrow> string \<Rightarrow> jdb \<Rightarrow> worker" where
  "worker_boot dk clk quota_mb headroom_mb session env_secret d =
     (let j0 = init_journal dk d quota_mb headroom_mb;
          j2 =
            (case mark_interrupted_on_boot dk j0 of
               (Inl e, j1) \<Rightarrow> j1
             | (Inr n, j1) \<Rightarrow> snd (respool_unacked_completions clk dk j1))
      in \<lparr>wk_journal = j2, wk_state = empty_wstate, wk_session = session, wk_secret = env_secret,
          wk_prev_secret = None\<rparr>)"

section \<open>The outbox drain\<close>

definition outbox_drain_batch :: int where
  "outbox_drain_batch = 10"

text \<open>
  One pass over the fetched rows. \<open>unparseable p\<close> is the error of \<open>json.loads\<close> on payload
  \<open>p\<close>, if any; \<open>post r\<close> the error of the delivery of row \<open>r\<close>, if any. Each row's write
  uses the next clock reading.
\<close>

fun drain_rows ::
  "disk \<Rightarrow> (string \<Rightarrow> string option) \<Rightarrow> (outbox_row \<Rightarrow> string option) \<Rightarrow> clock \<Rightarrow> outbox_row list
    \<Rightarrow> nat \<Rightarrow> wjournal \<Rightarrow> (jerror + nat) \<times> wjournal" where
  "drain_rows dk unparseable post clk [] n j = (Inr n, j)"
| "drain_rows dk unparseable post clk (row # rows) n j =
     (case get_attempt (o_attempt row) dk j of
        (Inl e, j1) \<Rightarrow> (Inl e, j1)
      | (Inr rec, j1) \<Rightarrow>
          (if (case rec of
                 None \<Rightarrow> False
               | Some r \<Rightarrow> ar_kind r = KCompletion \<and>
                   (case ar_comp r of None \<Rightarrow> False | Some c \<Rightarrow> c_acked c))
           then drain_rows dk unparseable post clk rows n j1
           else
             (case (case unparseable (o_payload row) of
                      Some m \<Rightarrow> record_outbox_failure clk (o_seq row) (''unparseable payload: '' @ m) dk j1
                    | None \<Rightarrow>
                        (case post row of
                           Some m \<Rightarrow> record_outbox_failure clk (o_seq row) m dk j1
                         | None \<Rightarrow> mark_acked clk (o_attempt row) dk j1)) of
                (Inl e, j2) \<Rightarrow> (Inl e, j2)
              | (Inr u, j2) \<Rightarrow> drain_rows dk unparseable post (\<lambda>i. clk (Suc i)) rows (Suc n) j2)))"

definition drain_outbox_once ::
  "disk \<Rightarrow> (string \<Rightarrow> string option) \<Rightarrow> (outbox_row \<Rightarrow> string option) \<Rightarrow> clock \<Rightarrow> string \<Rightarrow> wjournal
    \<Rightarrow> (jerror + nat) \<times> wjournal" where
  "drain_outbox_once dk unparseable post clk manager_url j =
     (if manager_url = [] then (Inr 0, j)
      else
        (case fetch_due_outbox clk outbox_drain_batch dk j of
           (Inl e, j1) \<Rightarrow> (Inl e, j1)
         | (Inr rows, j1) \<Rightarrow> drain_rows dk unparseable post (\<lambda>i. clk (Suc i)) rows 0 j1))"

text \<open>
  \<open>_outbox_loop\<close>: the wait before the next pass, in seconds, and the failure count, from
  the outcome of a pass.
\<close>

definition outbox_loop_step :: "bool \<Rightarrow> int \<times> nat \<Rightarrow> int \<times> nat" where
  "outbox_loop_step failed st =
     (case st of
        (backoff, failures) \<Rightarrow>
          if failed then (min (max (backoff * 2) 1) 60, Suc failures) else (1, 0))"

text \<open>
  The end of the lifespan, after the drain has begun (\<open>agent_drain\<close> has the same effect) and
  the run threads were joined or the deadline passed: a last pass if time remains, whose
  failure is ignored, and the journal is closed.
\<close>

definition shutdown_final ::
  "disk \<Rightarrow> (string \<Rightarrow> string option) \<Rightarrow> (outbox_row \<Rightarrow> string option) \<Rightarrow> clock \<Rightarrow> string \<Rightarrow> bool
    \<Rightarrow> worker \<Rightarrow> worker" where
  "shutdown_final dk unparseable post clk manager_url time_left w =
     (let j = (if time_left then snd (drain_outbox_once dk unparseable post clk manager_url (wk_journal w))
               else wk_journal w)
      in w\<lparr>wk_journal := close_journal j\<rparr>)"

section \<open>The worker as a machine\<close>

text \<open>
  The last event of a life is a reboot on the same file; the two clocks and disks of a run
  thread's end are those of its two commit attempts.
\<close>

datatype wop =
    WHandshake string
  | WRun bool bool run_req
  | WStop string
  | WDrain int int
  | WEnd disk string string "payloads option" "jerror option \<Rightarrow> payloads"
  | WOutbox "string \<Rightarrow> string option" "outbox_row \<Rightarrow> string option" string
  | WShutdown "string \<Rightarrow> string option" "outbox_row \<Rightarrow> string option" string bool
  | WReboot int int string string

datatype wout = WReply reply | WSecret string | WEnded "jerror + bool" | WDrained "jerror + nat" | WClosed | WBooted

type_synonym wevent = "wop \<times> disk \<times> clock"

fun worker_op ::
  "(string \<Rightarrow> string \<Rightarrow> string) \<Rightarrow> (string \<Rightarrow> string) \<Rightarrow> jcfg \<Rightarrow> wop \<Rightarrow> disk \<Rightarrow> clock \<Rightarrow> worker
    \<Rightarrow> wout \<times> worker" where
  "worker_op sign sha256 cfg (WHandshake secret) dk clk w =
     map_prod (\<lambda>x. WSecret (fst x)) id (handshake secret dk w)"
| "worker_op sign sha256 cfg (WRun legacy_off yaml_ok req) dk clk w =
     map_prod WReply id (agent_run sign sha256 cfg dk clk legacy_off yaml_ok req w)"
| "worker_op sign sha256 cfg (WStop run_id) dk clk w = map_prod WReply id (agent_stop run_id w)"
| "worker_op sign sha256 cfg (WDrain now timeout) dk clk w =
     map_prod WReply id (agent_drain now timeout w)"
| "worker_op sign sha256 cfg (WEnd dk' a r res on_error) dk clk w =
     map_prod WEnded id (thread_end clk dk (\<lambda>i. clk (i + 2)) dk' a r res on_error w)"
| "worker_op sign sha256 cfg (WOutbox unparseable post url) dk clk w =
     (case drain_outbox_once dk unparseable post clk url (wk_journal w) of
        (r, j) \<Rightarrow> (WDrained r, w\<lparr>wk_journal := j\<rparr>))"
| "worker_op sign sha256 cfg (WShutdown unparseable post url time_left) dk clk w =
     (WClosed, shutdown_final dk unparseable post clk url time_left w)"
| "worker_op sign sha256 cfg (WReboot q h session secret) dk clk w =
     (WBooted, worker_boot dk clk q h session secret (jdb_of (wk_journal w)))"

definition worker_step ::
  "(string \<Rightarrow> string \<Rightarrow> string) \<Rightarrow> (string \<Rightarrow> string) \<Rightarrow> jcfg \<Rightarrow> wevent \<Rightarrow> worker \<Rightarrow> wout \<times> worker" where
  "worker_step sign sha256 cfg e w =
     (case e of (op, dk, clk) \<Rightarrow> worker_op sign sha256 cfg op dk clk w)"

text \<open>A step that started the thread of an attempt.\<close>

definition starts :: "string \<Rightarrow> wout \<Rightarrow> bool" where
  "starts a x \<longleftrightarrow>
     (case x of
        WReply (Accept r (Some a')) \<Rightarrow> a' = a
      | WReply (RaiseStarted a' e) \<Rightarrow> a' = a
      | _ \<Rightarrow> False)"

end
