(* ===== verification/Worker_Props.thy ===== *)
theory Worker_Props
  imports Worker_Server
begin

text \<open>
  Properties of the worker agent: at most one thread per attempt over all lives of the
  worker, boot recovery, the outbox pass, and the table of active runs. The machine interface
  is interpreted on \<open>worker_step\<close>.
\<close>

section \<open>Effects on the journal\<close>

abbreviation any_steps :: "jcfg \<Rightarrow> jdb \<Rightarrow> jdb \<Rightarrow> bool" where
  "any_steps cfg \<equiv> jdb_steps cfg (\<lambda>_. True)"

lemma method_effects:
  "jdb_steps cfg allow (jdb_of j) (jdb_of (snd (mark_running a dk j)))"
  "jdb_steps cfg allow (jdb_of j) (jdb_of (snd (get_attempt a dk j)))"
  "jdb_steps cfg allow (jdb_of j) (jdb_of (snd (fetch_due_outbox clk n dk j)))"
  "jdb_steps cfg allow (jdb_of j) (jdb_of (snd (record_outbox_failure clk s err dk j)))"
  "jdb_steps cfg allow (jdb_of j) (jdb_of (snd (mark_interrupted_on_boot dk j)))"
  "jdb_steps cfg allow (jdb_of j) (jdb_of (snd (respool_unacked_completions clk dk j)))"
  by (simp_all only: journal_op_defs op_effects)

lemma completion_effect:
  "jdb_steps cfg allow (jdb_of j) (jdb_of (snd (record_completion_and_enqueue clk a res r dk j)))"
  unfolding record_completion_and_enqueue_def by (intro txn_effect) (rule S_complete, auto)

lemma mark_acked_effect:
  "allow (OAck a) \<Longrightarrow> jdb_steps cfg allow (jdb_of j) (jdb_of (snd (mark_acked clk a dk j)))"
  unfolding mark_acked_def by (intro txn_pure_effect) (simp add: S_ack)

text \<open>Composition of effects through a pair.\<close>

lemma effect_trans:
  "jdb_steps cfg allow d (jdb_of (snd r)) \<Longrightarrow> r = (x, j) \<Longrightarrow> jdb_steps cfg allow (jdb_of j) d' \<Longrightarrow>
     jdb_steps cfg allow d d'"
  by (auto intro: rtranclp_trans)

lemma start_run_effect:
  "jdb_steps cfg allow (jdb_of (wk_journal w)) (jdb_of (wk_journal (snd (start_run req att dk w))))"
proof (cases att)
  case (Some a)
  let ?j = "wk_journal w"
  obtain r1 j1 where m: "mark_running a dk ?j = (r1, j1)" by (cases "mark_running a dk ?j") auto
  obtain r2 j2 where g: "get_attempt a dk j1 = (r2, j2)" by (cases "get_attempt a dk j1") auto
  have e1: "jdb_steps cfg allow (jdb_of ?j) (jdb_of j1)"
    using method_effects(1) [of cfg allow ?j a dk] m by simp
  have e2: "jdb_steps cfg allow (jdb_of j1) (jdb_of j2)"
    using method_effects(2) [of cfg allow j1 a dk] g by simp
  show ?thesis using Some m g e1 rtranclp_trans [OF e1 e2]
    by (auto simp: start_run_def Let_def split: sum.splits)
qed (simp add: start_run_def)

lemma agent_run_effect:
  "jdb_steps cfg allow (jdb_of (wk_journal w))
     (jdb_of (wk_journal (snd (agent_run sign sha256 cfg dk clk lo yo req w))))"
proof (cases "rq_authorization req")
  case None
  then show ?thesis using start_run_effect by (auto simp: agent_run_def)
next
  case (Some tok)
  let ?v = "validate_and_admit sign sha256 cfg dk clk tok (rq_pipeline req) (wk_session w)
      (wk_secret w) (wk_prev_secret w) None (wk_journal w)"
  obtain r j where v: "?v = (r, j)" by (cases ?v) auto
  have e1: "jdb_steps cfg allow (jdb_of (wk_journal w)) (jdb_of j)"
    using validate_and_admit_effect v by (metis snd_conv)
  have e2: "jdb_steps cfg allow (jdb_of (wk_journal w)) (jdb_of (wk_journal (snd (start_run req att dk (w\<lparr>wk_journal := j\<rparr>)))))" for att
    using e1 start_run_effect [of cfg allow "w\<lparr>wk_journal := j\<rparr>" req att dk] by (simp add: rtranclp_trans)
  have e3: "jdb_steps cfg allow (jdb_of (wk_journal w)) (jdb_of (snd (get_attempt a dk j)))" for a
    using e1 method_effects(2) by (rule rtranclp_trans)
  show ?thesis using Some v e1 e2 e3
    by (auto simp: agent_run_def Let_def case_prod_unfold split: sum.splits jerror.splits admission_result.splits)
qed

lemma worker_commit_effect:
  "jdb_steps cfg allow (jdb_of j) (jdb_of (snd (worker_commit_completion clk dk a r res lres j)))"
proof -
  have "snd (worker_commit_completion clk dk a r res lres j) \<in>
    {snd (record_completion_and_enqueue clk a (case res of Some x \<Rightarrow> x | None \<Rightarrow> []) None dk j),
     snd (record_completion_and_enqueue clk (legacy_outbox_key r) lres (Some r) dk j)}"
    by (auto simp: worker_commit_completion_def journal_legacy_completion_def
        split: prod.splits sum.splits jerror.splits)
  then show ?thesis using completion_effect by (metis insertE singletonD)
qed

lemma thread_end_effect:
  "jdb_steps cfg allow (jdb_of (wk_journal w))
     (jdb_of (wk_journal (snd (thread_end clk dk clk' dk' a r result on_error w))))"
proof (cases result)
  case None
  then show ?thesis using worker_commit_effect by (simp add: thread_end_def case_prod_unfold Let_def)
next
  case (Some p)
  obtain x j1 where c: "worker_commit_completion clk dk a r (fst p) (snd p) (wk_journal w) = (x, j1)"
    by (cases "worker_commit_completion clk dk a r (fst p) (snd p) (wk_journal w)") auto
  have e1: "jdb_steps cfg allow (jdb_of (wk_journal w)) (jdb_of j1)"
    using worker_commit_effect c by (metis snd_conv)
  have e2: "jdb_steps cfg allow (jdb_of (wk_journal w))
      (jdb_of (snd (worker_commit_completion clk' dk' a r err lerr j1)))" for err lerr
    using e1 worker_commit_effect by (rule rtranclp_trans)
  show ?thesis using Some c e1 e2 by (auto simp: thread_end_def case_prod_unfold Let_def split: sum.splits)
qed

lemma worker_boot_effect:
  "jdb_steps cfg allow d (jdb_of (wk_journal (worker_boot dk clk q h session secret d)))"
proof -
  let ?j0 = "init_journal dk d q h"
  have e0: "jdb_steps cfg allow d (jdb_of ?j0)"
    using open_journal_effect by (metis init_journal_def wjournal.select_convs(1))
  obtain x j1 where m: "mark_interrupted_on_boot dk ?j0 = (x, j1)"
    by (cases "mark_interrupted_on_boot dk ?j0") auto
  have e1: "jdb_steps cfg allow d (jdb_of j1)"
    using e0 method_effects(5) m by (metis rtranclp_trans snd_conv)
  have "jdb_steps cfg allow d (jdb_of (snd (respool_unacked_completions clk dk j1)))"
    using e1 method_effects(6) by (rule rtranclp_trans)
  then show ?thesis using e1 m by (auto simp: worker_boot_def Let_def split: sum.splits)
qed

text \<open>
  The outbox pass acknowledges only attempts of rows that parsed and were delivered.
\<close>

definition delivered :: "(string \<Rightarrow> string option) \<Rightarrow> (outbox_row \<Rightarrow> string option) \<Rightarrow> outbox_row \<Rightarrow> bool" where
  "delivered unparseable post row \<longleftrightarrow> unparseable (o_payload row) = None \<and> post row = None"

lemma drain_rows_effect:
  "(\<And>row. row \<in> set rows \<Longrightarrow> delivered unparseable post row \<Longrightarrow> allow (OAck (o_attempt row))) \<Longrightarrow>
     jdb_steps cfg allow (jdb_of j) (jdb_of (snd (drain_rows dk unparseable post clk rows n j)))"
proof (induction rows arbitrary: clk n j)
  case (Cons row rows)
  obtain x j1 where g: "get_attempt (o_attempt row) dk j = (x, j1)"
    by (cases "get_attempt (o_attempt row) dk j") auto
  have e1: "jdb_steps cfg allow (jdb_of j) (jdb_of j1)"
    using method_effects(2) g by (metis snd_conv)
  let ?act = "case unparseable (o_payload row) of
      Some m \<Rightarrow> record_outbox_failure clk (o_seq row) (''unparseable payload: '' @ m) dk j1
    | None \<Rightarrow> (case post row of
          Some m \<Rightarrow> record_outbox_failure clk (o_seq row) m dk j1
        | None \<Rightarrow> mark_acked clk (o_attempt row) dk j1)"
  have "jdb_steps cfg allow (jdb_of j1) (jdb_of (snd ?act))"
    using Cons.prems [of row]
    by (auto simp: delivered_def method_effects(4) mark_acked_effect split: option.splits)
  then have e2: "jdb_steps cfg allow (jdb_of j) (jdb_of (snd ?act))" using e1 by (rule rtranclp_trans [rotated])
  have ih: "jdb_steps cfg allow (jdb_of i) (jdb_of (snd (drain_rows dk unparseable post c rows k i)))" for c k i
    using Cons by simp
  obtain y j2 where act: "?act = (y, j2)" by (cases ?act) auto
  have e3: "jdb_steps cfg allow (jdb_of j) (jdb_of (snd (drain_rows dk unparseable post c rows k i)))"
    if "i = j1 \<or> i = j2" for c k i
    using that e1 e2 ih act by (metis rtranclp_trans snd_conv)
  show ?case using g act e1 e2 e3 by (auto simp: Let_def split: sum.splits)
qed simp

lemma fetch_subset: "set (fetch_due_outbox_db t n d) \<subseteq> set (outbox d)"
  by (auto simp: fetch_due_outbox_db_def dest!: in_set_takeD)

lemma drain_outbox_effect:
  assumes "\<And>row. row \<in> set (outbox (jdb_of j)) \<Longrightarrow> delivered unparseable post row \<Longrightarrow> allow (OAck (o_attempt row))"
  shows "jdb_steps cfg allow (jdb_of j) (jdb_of (snd (drain_outbox_once dk unparseable post clk url j)))"
proof -
  obtain x j1 where f: "fetch_due_outbox clk outbox_drain_batch dk j = (x, j1)"
    by (cases "fetch_due_outbox clk outbox_drain_batch dk j") auto
  have e1: "jdb_steps cfg allow (jdb_of j) (jdb_of j1)"
    using method_effects(3) f by (metis snd_conv)
  have "set rows \<subseteq> set (outbox (jdb_of j))" if "x = Inr rows" for rows
  proof -
    have "outbox (jdb_of (snd (ensure_open dk j))) = outbox (jdb_of j)"
      using ensure_open_db [of dk j] by (auto simp: init_schema_def split: option.splits)
    then show ?thesis using f that fetch_subset
      by (fastforce simp: fetch_due_outbox_def jread_def split: prod.splits option.splits)
  qed
  then have "jdb_steps cfg allow (jdb_of j1) (jdb_of (snd (drain_rows dk unparseable post c rows n j1)))"
    if "x = Inr rows" for rows c n
    using that assms by (intro drain_rows_effect) blast
  then show ?thesis using f e1
    by (auto simp: drain_outbox_once_def split: sum.splits intro: rtranclp_trans)
qed

lemma worker_step_effect:
  "any_steps cfg (jdb_of (wk_journal w)) (jdb_of (wk_journal (snd (worker_step sign sha256 cfg e w))))"
proof -
  obtain op dk clk where e: "e = (op, dk, clk)" by (cases e)
  show ?thesis
  proof (cases op)
    case (WHandshake s)
    then show ?thesis using e health_effect [of cfg "\<lambda>_. True" "wk_journal w" dk]
      by (simp add: worker_step_def handshake_def case_prod_unfold)
  next
    case (WOutbox u p url)
    then show ?thesis using e drain_outbox_effect [where allow = "\<lambda>_. True"]
      by (simp add: worker_step_def case_prod_unfold)
  next
    case (WShutdown u p url left)
    then show ?thesis using e drain_outbox_effect [where allow = "\<lambda>_. True"]
      by (simp add: worker_step_def shutdown_final_def close_journal_def Let_def)
  next
    case (WStop r)
    then show ?thesis using e by (simp add: worker_step_def agent_stop_def split: option.splits)
  next
    case (WDrain n t)
    then show ?thesis using e by (simp add: worker_step_def agent_drain_def Let_def)
  qed (use e in \<open>simp_all add: worker_step_def agent_run_effect thread_end_effect worker_boot_effect\<close>)
qed

abbreviation worker_ok :: "worker \<Rightarrow> bool" where
  "worker_ok w \<equiv> jdb_ok (jdb_of (wk_journal w))"

interpretation wm: op_machine "worker_step sign sha256 cfg" worker_ok for sign sha256 cfg
  by unfold_locales (rule jdb_steps_ok [OF worker_step_effect])

section \<open>One thread per attempt\<close>

lemma starts_admitted:
  assumes "starts a (fst (worker_step sign sha256 cfg e w))"
  obtains dk clk tok p j where
    "validate_and_admit sign sha256 cfg dk clk tok p (wk_session w) (wk_secret w) (wk_prev_secret w) None
       (wk_journal w) = (Inr (Admitted a), j)"
    "any_steps cfg (jdb_of j) (jdb_of (wk_journal (snd (worker_step sign sha256 cfg e w))))"
proof -
  obtain op dk clk where e: "e = (op, dk, clk)" by (cases e)
  with assms obtain lo yo req where op: "op = WRun lo yo req"
    by (cases op) (auto simp: worker_step_def starts_def agent_stop_def agent_drain_def Let_def
        split: option.splits prod.splits)
  let ?run = "agent_run sign sha256 cfg dk clk lo yo req w"
  have st: "starts a (WReply (fst ?run))" using assms e op by (simp add: worker_step_def)
  have started: "starts a (WReply (fst (start_run req att dk w'))) \<Longrightarrow> att = Some a" for att w'
    by (auto simp: start_run_def starts_def Let_def split: option.splits prod.splits sum.splits)
  have none: "\<not> starts a (WReply (Refuse n))" "\<not> starts a (WReply (Raise x))" "\<not> starts a (WReply (Repeat y))" for n x y
    by (simp_all add: starts_def)
  from st started none obtain tok where tok: "rq_authorization req = Some tok"
    by (cases "rq_authorization req") (auto simp: agent_run_def split: if_splits)
  let ?v = "validate_and_admit sign sha256 cfg dk clk tok (rq_pipeline req) (wk_session w)
      (wk_secret w) (wk_prev_secret w) None (wk_journal w)"
  obtain r j where v: "?v = (r, j)" by (cases ?v) auto
  from st tok v have "r = Inr (Admitted a) \<and> ?run = start_run req (Some a) dk (w\<lparr>wk_journal := j\<rparr>)"
    by (auto simp: agent_run_def Let_def none split: if_splits sum.splits jerror.splits
        admission_result.splits prod.splits dest: started)
  then show thesis using that v e op start_run_effect [of cfg "\<lambda>_. True" "w\<lparr>wk_journal := j\<rparr>" req "Some a" dk]
    by (auto simp: worker_step_def)
qed

lemma validate_admitted_closed:
  assumes "validate_and_admit sign sha256 cfg dk clk tok p ws cur prev now j = (Inr (Admitted a), j')"
    and "jdb_ok (jdb_of j)"
  shows "\<not> closed_attempt a (jdb_of j)" "closed_attempt a (jdb_of j')" "jdb_ok (jdb_of j')"
proof -
  let ?e = "(OValidate tok p ws cur prev now, dk, clk)"
  have step: "journal_step sign sha256 cfg ?e j = (JAdmission (Admitted a), j')"
    using assms(1) by (simp add: journal_step_def answer_def)
  then have adm: "admits a (fst (journal_step sign sha256 cfg ?e j))" by (simp add: admits_def)
  show "\<not> closed_attempt a (jdb_of j)" using closed_not_admitted [OF assms(2)] adm by blast
  show "closed_attempt a (jdb_of j')" using admitted_closed [OF adm] step by simp
  show "jdb_ok (jdb_of j')" using jm.exec_inv [OF assms(2), of sign sha256 cfg ?e] step by simp
qed

text \<open>C20. Over all lives of a worker on its journal file, through crashes and reboots, handshakes,
  drains, replays and outbox passes, the thread of an attempt is started at most once.\<close>

theorem one_thread_per_attempt:
  "length (filter (starts a) (fst (run_ops (worker_step sign sha256 cfg) es
     (worker_boot dk clk q h session secret empty_jdb)))) \<le> 1"
proof (rule wm.run_once [where P = "\<lambda>w. closed_attempt a (jdb_of (wk_journal w))"])
  fix w e
  assume ok: "worker_ok w"
  show "closed_attempt a (jdb_of (wk_journal (snd (worker_step sign sha256 cfg e w))))"
    if "closed_attempt a (jdb_of (wk_journal w))"
    using jdb_steps_closed [OF worker_step_effect ok that] .
  show "\<not> starts a (fst (worker_step sign sha256 cfg e w))" if "closed_attempt a (jdb_of (wk_journal w))"
    using starts_admitted validate_admitted_closed(1) [OF _ ok] that by metis
  show "closed_attempt a (jdb_of (wk_journal (snd (worker_step sign sha256 cfg e w))))"
    if "starts a (fst (worker_step sign sha256 cfg e w))"
    using that
  proof (rule starts_admitted)
    fix dk clk tok p j
    assume v: "validate_and_admit sign sha256 cfg dk clk tok p (wk_session w) (wk_secret w)
        (wk_prev_secret w) None (wk_journal w) = (Inr (Admitted a), j)"
      and "any_steps cfg (jdb_of j) (jdb_of (wk_journal (snd (worker_step sign sha256 cfg e w))))"
    then show ?thesis using validate_admitted_closed [OF v ok] jdb_steps_closed by blast
  qed
next
  show "worker_ok (worker_boot dk clk q h session secret empty_jdb)"
    using jdb_steps_ok [OF worker_boot_effect empty_jdb_ok] .
qed

section \<open>Boot recovery\<close>

lemma init_journal_open:
  "dk_open dk = SqOk \<Longrightarrow> init_journal dk d q h =
     \<lparr>jdb_of = init_schema d, conn_open = True, fatal = None, quarantined = False,
      quota_bytes = max q 0 * 1024 * 1024, headroom_bytes = max h 0 * 1024 * 1024\<rparr>"
  by (simp add: init_journal_def open_journal_def)

lemma txn_open:
  "fatal j = None \<Longrightarrow> conn_open j \<Longrightarrow>
     txn body dk j = (case body (jdb_of j) of Inl e \<Rightarrow> (Inl e, j) | Inr (x, d) \<Rightarrow> (Inr x, j\<lparr>jdb_of := d\<rparr>))"
  by (simp add: txn_def ensure_open_def)

text \<open>Boot recovery: when the file opens, a rebooted worker's journal has no attempt left active,
  every unacknowledged result has its delivery row, and no result, reservation or revocation of
  the previous life is lost.\<close>

theorem boot_recovery:
  assumes "dk_open dk = SqOk"
  shows "(\<forall>r \<in> set (reservations (jdb_of (wk_journal (worker_boot dk clk q h session secret d)))).
             \<not> active_state (r_state r)) \<and>
     stranded None (jdb_of (wk_journal (worker_boot dk clk q h session secret d))) = [] \<and>
     completions (jdb_of (wk_journal (worker_boot dk clk q h session secret d))) = completions d \<and>
     tombstones (jdb_of (wk_journal (worker_boot dk clk q h session secret d))) = tombstones d \<and>
     map r_attempt (reservations (jdb_of (wk_journal (worker_boot dk clk q h session secret d)))) =
       map r_attempt (reservations d)"
proof -
  let ?d1 = "snd (mark_interrupted_db (init_schema d))"
  let ?d2 = "snd (respool_completions_locked (clk 0) None ?d1)"
  have j: "jdb_of (wk_journal (worker_boot dk clk q h session secret d)) = ?d2"
    using assms
    by (simp add: worker_boot_def init_journal_open mark_interrupted_on_boot_def
        respool_unacked_completions_def txn_open case_prod_unfold)
  have s: "reservations (init_schema d) = reservations d" "completions (init_schema d) = completions d"
    "tombstones (init_schema d) = tombstones d"
    by (simp_all add: init_schema_def split: option.splits)
  have r: "reservations ?d2 = reservations ?d1" "completions ?d2 = completions d" "tombstones ?d2 = tombstones d"
    by (simp_all add: respool_completions_locked_def mark_interrupted_db_def s)
  have "\<not> active_state (r_state x)" if "x \<in> set (reservations ?d1)" for x
    using that by (auto simp: mark_interrupted_db_def set_update_where active_state_def split: if_splits)
  moreover have "map r_attempt (reservations ?d1) = map r_attempt (reservations d)"
    by (simp add: mark_interrupted_db_def s map_update_where)
  moreover have "stranded None ?d2 = []"
    using respool_no_stranded by (simp add: no_stranded_def)
  ultimately show ?thesis unfolding j r by simp
qed

theorem boot_recovery_witness:
  "stranded None (jdb_of (wk_journal (worker_boot ok_disk (at_s 9) 0 0 ''w'' ''s''
     (empty_jdb\<lparr>completions := [\<lparr>c_attempt = ''a'', c_run = ''run'', c_result = ''{}'',
           c_completed_at = 0, c_acked = False, c_acked_at = None\<rparr>]\<rparr>)))) = []"
  by (rule boot_recovery [THEN conjunct2, THEN conjunct1]) (simp add: ok_disk_def)

section \<open>The outbox pass\<close>

text \<open>A pass of the outbox drain never acknowledges a result on its own account: unless some row
  of the attempt was parsed and accepted by the manager, the unacknowledged result of the attempt
  is still there, unacknowledged and unchanged, after the pass.\<close>

theorem drain_acks_only_delivered:
  assumes "jdb_ok (jdb_of j)"
    and "\<forall>row \<in> set (outbox (jdb_of j)). o_attempt row = a \<longrightarrow>
           unparseable (o_payload row) \<noteq> None \<or> post row \<noteq> None"
    and "tbl_find c_attempt a (completions (jdb_of j)) = Some c" "\<not> c_acked c"
  shows "tbl_find c_attempt a
      (completions (jdb_of (snd (drain_outbox_once dk unparseable post clk url j)))) = Some c"
proof -
  have "jdb_steps undefined (\<lambda>op. op \<noteq> OAck a) (jdb_of j)
      (jdb_of (snd (drain_outbox_once dk unparseable post clk url j)))"
    by (rule drain_outbox_effect) (use assms(2) in \<open>auto simp: delivered_def\<close>)
  from jdb_steps_unacked [OF this, of a c] assms show ?thesis by (simp add: unacked_result_def)
qed

theorem drain_acks_only_delivered_witness:
  "tbl_find c_attempt ''a'' (completions (jdb_of (snd (drain_outbox_once ok_disk (\<lambda>_. None)
      (\<lambda>_. Some ''timeout'') (at_s 50) ''http://m''
      (snd (demo_step (OCompleteEnqueue ''a'' ''{}'' (Some ''run''), ok_disk, at_s 10) demo_journal)))))) =
   Some \<lparr>c_attempt = ''a'', c_run = ''run'', c_result = ''{}'', c_completed_at = 10000000,
         c_acked = False, c_acked_at = None\<rparr>"
  by (rule drain_acks_only_delivered [OF jm.exec_inv [OF fresh_journal_ok]]) (simp, code_simp, simp)

lemma jread_open: "fatal j = None \<Longrightarrow> conn_open j \<Longrightarrow> jread g dk j = (Inr (g (jdb_of j)), j)"
  by (simp add: jread_def ensure_open_def)

text \<open>
  No row of an acknowledged attempt waits in the outbox; acknowledging keeps this, and on a
  working journal a pass in which every delivery succeeds empties its batch.
\<close>

definition no_acked_rows :: "jdb \<Rightarrow> bool" where
  "no_acked_rows d \<longleftrightarrow>
     (\<forall>row \<in> set (outbox d). \<forall>c \<in> set (completions d). c_attempt c = o_attempt row \<longrightarrow> \<not> c_acked c)"

definition attempt_drained :: "string \<Rightarrow> jdb \<Rightarrow> bool" where
  "attempt_drained a d \<longleftrightarrow>
     \<not> tbl_has o_attempt a (outbox d) \<and> (\<forall>c \<in> set (completions d). c_attempt c = a \<longrightarrow> c_acked c)"

lemma mark_acked_completionsE:
  assumes "c \<in> set (completions (mark_acked_db clk a d))"
  obtains c0 where "c0 \<in> set (completions d)" "c_attempt c = c_attempt c0"
    "c_attempt c0 = a \<Longrightarrow> c_acked c" "c_attempt c0 \<noteq> a \<Longrightarrow> c = c0" "c_acked c0 \<Longrightarrow> c_acked c"
proof -
  from assms obtain c0 where "c0 \<in> set (completions d)"
    "c = (if c_attempt c0 = a \<and> \<not> c_acked c0 then c0\<lparr>c_acked := True, c_acked_at := Some (clk 0)\<rparr> else c0)"
    by (auto simp: mark_acked_db_def set_update_where simp del: if_image_distrib)
  then show thesis by (intro that [of c0]) auto
qed

lemma mark_acked_outbox: "set (outbox (mark_acked_db clk a d)) = {r \<in> set (outbox d). o_attempt r \<noteq> a}"
  by (simp add: mark_acked_db_def)

lemma mark_acked_no_acked_rows:
  assumes "no_acked_rows d"
  shows "no_acked_rows (mark_acked_db clk a d)"
  unfolding no_acked_rows_def
proof (intro ballI impI)
  fix row c
  assume "row \<in> set (outbox (mark_acked_db clk a d))"
    and c: "c \<in> set (completions (mark_acked_db clk a d))" and eq: "c_attempt c = o_attempt row"
  then have row: "row \<in> set (outbox d)" "o_attempt row \<noteq> a" by (simp_all add: mark_acked_outbox)
  from c show "\<not> c_acked c"
    by (rule mark_acked_completionsE) (use row eq assms in \<open>metis no_acked_rows_def\<close>)
qed

lemma mark_acked_drains: "attempt_drained a (mark_acked_db clk a d)"
  unfolding attempt_drained_def
  by (auto simp: mark_acked_outbox tbl_has_def elim!: mark_acked_completionsE)

lemma mark_acked_keeps_drained:
  "attempt_drained b d \<Longrightarrow> attempt_drained b (mark_acked_db clk a d)"
  unfolding attempt_drained_def
  by (auto simp: mark_acked_outbox tbl_has_def elim!: mark_acked_completionsE)

lemma acked_row_drained:
  assumes "no_acked_rows d" "keys_ok d" "get_attempt_db a d = Some r" "ar_kind r = KCompletion"
    "ar_comp r = Some c" "c_acked c"
  shows "attempt_drained a d"
proof -
  have c: "tbl_find c_attempt a (completions d) = Some c"
    using assms(3-6)
    by (auto simp: get_attempt_db_def attempt_from_completion_def attempt_from_reservation_def
        split: option.splits)
  then have mem: "c \<in> set (completions d)" "c_attempt c = a" using tbl_find_SomeD by fastforce+
  have "\<forall>c' \<in> set (completions d). c_attempt c' = a \<longrightarrow> c_acked c'"
    using assms(2,6) mem by (metis keys_ok_def pk_ok_eq)
  moreover have "\<not> tbl_has o_attempt a (outbox d)"
    using assms(1,6) mem unfolding no_acked_rows_def tbl_has_def by metis
  ultimately show ?thesis by (simp add: attempt_drained_def)
qed

lemma drain_rows_all_delivered:
  assumes "fatal j = None" "conn_open j" "jdb_ok (jdb_of j)" "no_acked_rows (jdb_of j)"
    and "\<forall>row \<in> set rows. delivered unparseable post row"
  shows "\<exists>n' d'. drain_rows dk unparseable post clk rows n j = (Inr n', j\<lparr>jdb_of := d'\<rparr>) \<and>
     (\<forall>row \<in> set rows. attempt_drained (o_attempt row) d') \<and>
     (\<forall>a. attempt_drained a (jdb_of j) \<longrightarrow> attempt_drained a d')"
  using assms
proof (induction rows arbitrary: clk n j)
  case Nil
  then show ?case by (auto intro!: exI [of _ "jdb_of j"])
next
  case (Cons row rows)
  let ?d = "jdb_of j" and ?a = "o_attempt row"
  have g: "get_attempt ?a dk j = (Inr (get_attempt_db ?a ?d), j)"
    using Cons.prems by (simp add: get_attempt_def jread_open)
  show ?case
  proof (cases "\<exists>r c. get_attempt_db ?a ?d = Some r \<and> ar_kind r = KCompletion \<and> ar_comp r = Some c \<and> c_acked c")
    case True
    then have "attempt_drained ?a ?d"
      using Cons.prems acked_row_drained by (auto simp: jdb_ok_def)
    moreover have "drain_rows dk unparseable post clk (row # rows) n j = drain_rows dk unparseable post clk rows n j"
      using True g by auto
    moreover obtain n' d' where "drain_rows dk unparseable post clk rows n j = (Inr n', j\<lparr>jdb_of := d'\<rparr>)"
      "\<forall>row \<in> set rows. attempt_drained (o_attempt row) d'"
      "\<forall>a. attempt_drained a ?d \<longrightarrow> attempt_drained a d'"
      using Cons.IH [of j clk n] Cons.prems by auto
    ultimately show ?thesis by (metis set_ConsD)
  next
    case False
    let ?d1 = "mark_acked_db clk ?a ?d" and ?j1 = "j\<lparr>jdb_of := mark_acked_db clk ?a ?d\<rparr>"
    have "mark_acked clk ?a dk j = (Inr (), ?j1)"
      using Cons.prems by (simp add: mark_acked_def txn_open)
    then have run: "drain_rows dk unparseable post clk (row # rows) n j =
        drain_rows dk unparseable post (\<lambda>i. clk (Suc i)) rows (Suc n) ?j1"
      using False g Cons.prems(5) by (auto simp: delivered_def split: option.splits)
    have "\<exists>n' d'. drain_rows dk unparseable post (\<lambda>i. clk (Suc i)) rows (Suc n) ?j1 = (Inr n', ?j1\<lparr>jdb_of := d'\<rparr>) \<and>
       (\<forall>row \<in> set rows. attempt_drained (o_attempt row) d') \<and>
       (\<forall>a. attempt_drained a (jdb_of ?j1) \<longrightarrow> attempt_drained a d')"
      by (rule Cons.IH) (use Cons.prems in \<open>simp_all add: mark_acked_ok mark_acked_no_acked_rows\<close>)
    then obtain n' d' where r: "drain_rows dk unparseable post clk (row # rows) n j = (Inr n', j\<lparr>jdb_of := d'\<rparr>)"
      and rs: "\<forall>row \<in> set rows. attempt_drained (o_attempt row) d'"
      and keep: "\<forall>a. attempt_drained a ?d1 \<longrightarrow> attempt_drained a d'"
      unfolding run by auto
    have "attempt_drained ?a d'" using keep mark_acked_drains by blast
    moreover have "\<forall>a. attempt_drained a ?d \<longrightarrow> attempt_drained a d'"
      using keep mark_acked_keeps_drained by blast
    ultimately show ?thesis using r rs by (metis set_ConsD)
  qed
qed

text \<open>C21. Delivery: on a working journal whose outbox holds no leftover rows of acknowledged attempts, a
  pass in which every fetched row parses and is accepted ends normally, and every attempt of the
  batch is acknowledged with no row left.\<close>

theorem drain_delivers_batch:
  assumes "fatal j = None" "conn_open j" "jdb_ok (jdb_of j)" "no_acked_rows (jdb_of j)" "url \<noteq> []"
    and "\<forall>row \<in> set (fetch_due_outbox_db (clk 0) outbox_drain_batch (jdb_of j)).
           unparseable (o_payload row) = None \<and> post row = None"
  shows "\<exists>n j'. drain_outbox_once dk unparseable post clk url j = (Inr n, j') \<and>
     (\<forall>row \<in> set (fetch_due_outbox_db (clk 0) outbox_drain_batch (jdb_of j)).
        attempt_drained (o_attempt row) (jdb_of j'))"
proof -
  let ?rows = "fetch_due_outbox_db (clk 0) outbox_drain_batch (jdb_of j)"
  have "drain_outbox_once dk unparseable post clk url j =
      drain_rows dk unparseable post (\<lambda>i. clk (Suc i)) ?rows 0 j"
    using assms(1,2,5) by (simp add: drain_outbox_once_def fetch_due_outbox_def jread_open)
  then show ?thesis
    using drain_rows_all_delivered [OF assms(1-4), of ?rows unparseable post dk "\<lambda>i. clk (Suc i)" 0] assms(6)
    by (fastforce simp: delivered_def)
qed

theorem drain_delivers_batch_witness:
  "\<exists>n j'. drain_outbox_once ok_disk (\<lambda>_. None) (\<lambda>_. None) (at_s 50) ''http://m''
     (snd (demo_step (OCompleteEnqueue ''a'' ''{}'' (Some ''run''), ok_disk, at_s 10) demo_journal)) = (Inr n, j') \<and>
   attempt_drained ''a'' (jdb_of j')"
proof -
  let ?j = "snd (demo_step (OCompleteEnqueue ''a'' ''{}'' (Some ''run''), ok_disk, at_s 10) demo_journal)"
  have "fatal ?j = None" "conn_open ?j" "no_acked_rows (jdb_of ?j)" "''http://m'' \<noteq> []"
    "fetch_due_outbox_db (at_s 50 0) outbox_drain_batch (jdb_of ?j) =
       [outbox_entry 1 10000000 ''a'' run_complete ''{}'']"
    by code_simp+
  moreover have "jdb_ok (jdb_of ?j)" by (rule jm.exec_inv) (rule fresh_journal_ok)
  ultimately show ?thesis
    using drain_delivers_batch [of ?j "''http://m''" "at_s 50" "\<lambda>_. None" "\<lambda>_. None" ok_disk]
    by (auto simp: outbox_entry_def)
qed

text \<open>A row that has failed 1024 times blocks the outbox: if it is the oldest due row and fails
  again, the pass raises, changes nothing, and reaches no other row; since the row stays due, the
  same holds for every later pass.\<close>

theorem poison_row_blocks_outbox:
  assumes "fatal j = None" "conn_open j" "url \<noteq> []" "jdb_ok (jdb_of j)"
    and "fetch_due_outbox_db (clk 0) outbox_drain_batch (jdb_of j) = row # rows"
    and "\<forall>c \<in> set (completions (jdb_of j)). c_attempt c = o_attempt row \<longrightarrow> \<not> c_acked c"
    and "unparseable (o_payload row) \<noteq> None \<or> post row \<noteq> None" "1024 \<le> o_attempts row"
  shows "drain_outbox_once dk unparseable post clk url j = (Inl OverflowErr, j)"
proof -
  let ?d = "jdb_of j"
  have "row \<in> set (outbox ?d)"
    using fetch_subset [of "clk 0" outbox_drain_batch ?d] assms(5) by simp
  then have "tbl_find o_seq (o_seq row) (outbox ?d) = Some row"
    using assms(4) by (intro tbl_find_pk)
      (auto simp: jdb_ok_def outbox_ok_def pk_ok_def strict_sorted_iff)
  then have fail: "record_outbox_failure c (o_seq row) m dk j = (Inl OverflowErr, j)" for c m
    using assms(1,2,8)
    by (simp add: record_outbox_failure_def txn_open record_outbox_failure_db_def backoff_s_def)
  have "\<not> (\<exists>r c. get_attempt_db (o_attempt row) ?d = Some r \<and> ar_kind r = KCompletion \<and> ar_comp r = Some c \<and> c_acked c)"
    using assms(6)
    by (auto simp: get_attempt_db_def attempt_from_completion_def attempt_from_reservation_def
        split: option.splits dest: tbl_find_SomeD)
  then show ?thesis using assms(1-3,5,7) fail
    by (auto simp: drain_outbox_once_def fetch_due_outbox_def get_attempt_def jread_open split: option.splits)
qed

definition poison_journal :: wjournal where
  "poison_journal =
     (fresh_journal ok_disk 0 0)\<lparr>jdb_of := empty_jdb\<lparr>
        outbox := [(outbox_entry 1 0 ''a'' run_complete '''')\<lparr>o_attempts := 1024\<rparr>,
                   outbox_entry 2 0 ''b'' run_complete ''{}''], last_seq := 2\<rparr>\<rparr>"

theorem poison_row_blocks_outbox_witness:
  "drain_outbox_once ok_disk (\<lambda>p. if p = '''' then Some ''Expecting value'' else None) (\<lambda>_. None)
     (at_s 50) ''http://m'' poison_journal = (Inl OverflowErr, poison_journal)"
proof -
  have "jdb_ok (jdb_of poison_journal)"
    by (simp add: poison_journal_def jdb_ok_def keys_ok_def outbox_ok_def empty_jdb_def outbox_entry_def)
  then show ?thesis
    by (rule poison_row_blocks_outbox [rotated 3]) code_simp+
qed

section \<open>The table of active runs\<close>

text \<open>
  Keys are the runs' own keys, the index points at runs of its run id, and no active run is
  missing from it.
\<close>

definition wstate_ok :: "wstate \<Rightarrow> bool" where
  "wstate_ok s \<longleftrightarrow>
     dwf (ws_runs s) \<and> dwf (ws_by_run s) \<and>
     (\<forall>(k, r) \<in> set (ws_runs s). k = run_key r \<and> k \<noteq> []) \<and>
     (\<forall>(rid, k) \<in> set (ws_by_run s). map_option ac_run (dget (ws_runs s) k) = Some rid) \<and>
     (\<forall>(k, r) \<in> set (ws_runs s). dhas (ac_run r) (ws_by_run s))"

lemma wstate_okD:
  assumes "wstate_ok s"
  shows "dwf (ws_runs s)" "dwf (ws_by_run s)"
    "\<And>k r. dget (ws_runs s) k = Some r \<Longrightarrow> k = run_key r \<and> k \<noteq> []"
    "\<And>rid k. dget (ws_by_run s) rid = Some k \<Longrightarrow> \<exists>r. dget (ws_runs s) k = Some r \<and> ac_run r = rid"
    "\<And>k r. dget (ws_runs s) k = Some r \<Longrightarrow> dget (ws_by_run s) (ac_run r) \<noteq> None"
  using assms by (auto simp: wstate_ok_def dhas_def dest!: dget_SomeD)

lemma wstate_okI:
  assumes "dwf (ws_runs s)" "dwf (ws_by_run s)"
    "\<And>k r. dget (ws_runs s) k = Some r \<Longrightarrow> k = run_key r \<and> k \<noteq> []"
    "\<And>rid k. dget (ws_by_run s) rid = Some k \<Longrightarrow> \<exists>r. dget (ws_runs s) k = Some r \<and> ac_run r = rid"
    "\<And>k r. dget (ws_runs s) k = Some r \<Longrightarrow> dget (ws_by_run s) (ac_run r) \<noteq> None"
  shows "wstate_ok s"
  using assms unfolding wstate_ok_def dhas_def by (auto dest!: dget_mem [rotated])

lemma state_add_ok:
  assumes ok: "wstate_ok s" and key: "run_key r \<noteq> []"
    and own: "\<And>r'. dget (ws_runs s) (run_key r) = Some r' \<Longrightarrow> ac_run r' = ac_run r"
  shows "wstate_ok (state_add r s)"
proof (rule wstate_okI)
  fix rid k
  assume "dget (ws_by_run (state_add r s)) rid = Some k"
  then show "\<exists>r'. dget (ws_runs (state_add r s)) k = Some r' \<and> ac_run r' = rid"
    using wstate_okD(4) [OF ok, of rid k] own by (auto simp: state_add_def split: if_splits)
qed (use wstate_okD [OF ok] key in \<open>auto simp: state_add_def split: if_splits\<close>)

lemma find_run_Some:
  "List.find (\<lambda>(k, r). ac_run r = rid) d = Some (k, r) \<Longrightarrow> (k, r) \<in> set d \<and> ac_run r = rid"
  by (induction d) (auto split: if_splits)

lemma find_run_None:
  "List.find (\<lambda>(k, r). ac_run r = rid) d = None \<Longrightarrow> (k, r) \<in> set d \<Longrightarrow> ac_run r \<noteq> rid"
  by (induction d) (auto split: if_splits)

text \<open>Rebuilding the index of one run id repairs an index that may only be wrong there.\<close>

lemma reindex_ok:
  assumes "dwf (ws_runs s)" "dwf (ws_by_run s)"
    and "\<And>k r. dget (ws_runs s) k = Some r \<Longrightarrow> k = run_key r \<and> k \<noteq> []"
    and "\<And>r k. dget (ws_by_run s) r = Some k \<Longrightarrow> r \<noteq> rid \<Longrightarrow> \<exists>x. dget (ws_runs s) k = Some x \<and> ac_run x = r"
    and "\<And>k r. dget (ws_runs s) k = Some r \<Longrightarrow> ac_run r \<noteq> rid \<Longrightarrow> dget (ws_by_run s) (ac_run r) \<noteq> None"
  shows "wstate_ok (reindex_locked rid s)"
proof (cases "List.find (\<lambda>(k, r). ac_run r = rid) (ws_runs s)")
  case None
  have gone: "ac_run r \<noteq> rid" if "dget (ws_runs s) k = Some r" for k r
    using find_run_None [OF None] dget_SomeD [OF that] by blast
  show ?thesis
    by (rule wstate_okI) (use None assms gone in \<open>auto simp: reindex_locked_def dget_dpop split: if_splits\<close>)
next
  case (Some kr)
  then obtain k0 r0 where kr: "List.find (\<lambda>(k, r). ac_run r = rid) (ws_runs s) = Some (k0, r0)"
    by (cases kr) auto
  have r0: "dget (ws_runs s) k0 = Some r0" "ac_run r0 = rid"
    using find_run_Some [OF kr] dget_mem [OF assms(1)] by auto
  show ?thesis
    by (rule wstate_okI) (use kr assms r0 in \<open>auto simp: reindex_locked_def split: if_splits\<close>)
qed

lemma state_remove_ok:
  assumes ok: "wstate_ok s"
    and own: "\<And>r. dget (ws_runs s) (if a \<noteq> [] then a else rid) = Some r \<Longrightarrow> ac_run r = rid"
  shows "wstate_ok (state_remove rid a s)"
proof -
  let ?key = "if a \<noteq> [] then a else rid" and ?s1 = "s\<lparr>ws_runs := dpop (if a \<noteq> [] then a else rid) (ws_runs s)\<rparr>"
  note D = wstate_okD [OF ok]
  have idx: "\<exists>x. dget (ws_runs ?s1) k = Some x \<and> ac_run x = r"
    if "dget (ws_by_run ?s1) r = Some k" "k \<noteq> ?key \<or> r \<noteq> rid" for r k
    using D(4) [of r k] that own by (auto simp: dget_dpop D(1))
  show ?thesis
  proof (cases "dget (ws_by_run s) rid = Some ?key")
    case True
    have "wstate_ok (reindex_locked rid ?s1)"
      by (rule reindex_ok) (use D idx in \<open>auto simp: dget_dpop split: if_splits\<close>)
    then show ?thesis using True by (simp add: state_remove_def Let_def)
  next
    case False
    have "wstate_ok ?s1"
    proof (rule wstate_okI)
      fix r k
      assume "dget (ws_by_run ?s1) r = Some k"
      then show "\<exists>x. dget (ws_runs ?s1) k = Some x \<and> ac_run x = r" using False by (intro idx) auto
    qed (use D in \<open>auto simp: dget_dpop split: if_splits\<close>)
    then show ?thesis using False by (simp add: state_remove_def Let_def)
  qed
qed

lemma state_get_spec:
  assumes "wstate_ok s"
  shows "state_get rid s = Some r \<Longrightarrow> ac_run r = rid \<or> run_key r = rid"
    and "dget (ws_runs s) k = Some r \<Longrightarrow> \<exists>r'. state_get (ac_run r) s = Some r' \<and> ac_run r' = ac_run r"
proof -
  show "ac_run r = rid \<or> run_key r = rid" if "state_get rid s = Some r"
    using that wstate_okD(3,4) [OF assms]
    by (fastforce simp: state_get_def state_key_def split: option.splits if_splits)
  show "\<exists>r'. state_get (ac_run r) s = Some r' \<and> ac_run r' = ac_run r" if r: "dget (ws_runs s) k = Some r"
  proof -
    obtain k' where k': "dget (ws_by_run s) (ac_run r) = Some k'" using wstate_okD(5) [OF assms r] by auto
    then obtain r' where "dget (ws_runs s) k' = Some r'" "ac_run r' = ac_run r" "k' \<noteq> []"
      using wstate_okD(3,4) [OF assms] by metis
    then show ?thesis using k' by (auto simp: state_get_def state_key_def)
  qed
qed

text \<open>The end of a superseded attempt leaves its successor in place: adding a newer attempt of a run
  and then removing the older one keeps the table consistent, and looking the run up still finds
  the newer attempt.\<close>

theorem superseded_end_keeps_newer:
  assumes "wstate_ok s" "state_get rid s = Some old" "ac_run old = rid" "run_key old = ac_att old"
    and "ac_run new = rid" "ac_att new \<noteq> []" "ac_att new \<noteq> ac_att old"
    and "dget (ws_runs s) (ac_att new) = None"
  shows "wstate_ok (state_remove rid (ac_att old) (state_add new s)) \<and>
     state_get rid (state_remove rid (ac_att old) (state_add new s)) = Some new"
proof -
  let ?s1 = "state_add new s"
  have key: "run_key new = ac_att new" using assms(6) by (simp add: run_key_def)
  have old: "dget (ws_runs s) (ac_att old) = Some old" "ac_att old \<noteq> []"
    using assms(2,4) wstate_okD(3) [OF assms(1)] by (auto simp: state_get_def)
  have ok1: "wstate_ok ?s1" using state_add_ok [OF assms(1), of new] key assms(6,8) by simp
  have "wstate_ok (state_remove rid (ac_att old) ?s1)"
    by (rule state_remove_ok [OF ok1]) (use old assms(3,7) key in \<open>auto simp: state_add_def split: if_splits\<close>)
  moreover have "state_get rid (state_remove rid (ac_att old) ?s1) = Some new"
    using key assms(5-7) old(2) wstate_okD(1) [OF ok1]
    by (simp add: state_remove_def state_get_def state_key_def state_add_def Let_def dget_dpop)
  ultimately show ?thesis by blast
qed

theorem superseded_end_keeps_newer_witness:
  "state_get ''r'' (state_remove ''r'' ''r-a1'' (state_add
     \<lparr>ac_run = ''r'', ac_pipeline = ''p'', ac_schedule = ''batch'', ac_config_sha = '''', ac_att = ''r-a2'',
      ac_gen = None, ac_slot = '''', ac_legacy = False, ac_stop = False\<rparr>
     (state_add \<lparr>ac_run = ''r'', ac_pipeline = ''p'', ac_schedule = ''batch'', ac_config_sha = '''',
      ac_att = ''r-a1'', ac_gen = None, ac_slot = '''', ac_legacy = False, ac_stop = False\<rparr> empty_wstate))) =
   Some \<lparr>ac_run = ''r'', ac_pipeline = ''p'', ac_schedule = ''batch'', ac_config_sha = '''', ac_att = ''r-a2'',
      ac_gen = None, ac_slot = '''', ac_legacy = False, ac_stop = False\<rparr>"
proof -
  let ?run = "\<lambda>a. \<lparr>ac_run = ''r'', ac_pipeline = ''p'', ac_schedule = ''batch'', ac_config_sha = '''', ac_att = a,
      ac_gen = None, ac_slot = '''', ac_legacy = False, ac_stop = False\<rparr>"
  let ?s = "state_add (?run ''r-a1'') empty_wstate"
  have "wstate_ok ?s" "state_get ''r'' ?s = Some (?run ''r-a1'')" by code_simp+
  from superseded_end_keeps_newer [OF this, of "?run ''r-a2''"] show ?thesis
    by (simp add: run_key_def state_add_def empty_wstate_def)
qed

text \<open>A worker that is draining starts nothing: every dispatch is refused with status 503 and leaves
  the worker unchanged, and a repeated drain request keeps the first deadline.\<close>

theorem draining_refuses_runs:
  "agent_run sign sha256 cfg dk clk lo yo req (snd (agent_drain now t w)) = (Refuse 503, snd (agent_drain now t w)) \<and>
   ws_deadline (wk_state (snd (agent_drain now' t' (snd (agent_drain now t w))))) =
     ws_deadline (wk_state (snd (agent_drain now t w)))"
  by (simp add: agent_run_def agent_drain_def begin_drain_def Let_def)

end
