(* ===== verification/Run_Stats.thy ===== *)
theory Run_Stats
  imports Sql_Table Py_Dict "HOL-Library.Sublist"
begin

text \<open>
  The accounting of one run: the mutable context and the result of
  \<open>tram/core/context.py\<close>, and the cumulative statistics with the bounded error window of
  \<open>tram/agent/metrics.py\<close>. Both objects are shared between threads behind a lock, so a
  method call is one atomic step and a history is a sequence of calls.
\<close>

section \<open>Run context and run result\<close>

datatype run_status = Pending | Running | Success | Failed | Aborted | Partial

definition status_value :: "run_status \<Rightarrow> string" where
  "status_value s =
     (case s of
        Pending \<Rightarrow> ''pending'' | Running \<Rightarrow> ''running'' | Success \<Rightarrow> ''success''
      | Failed \<Rightarrow> ''failed'' | Aborted \<Rightarrow> ''aborted'' | Partial \<Rightarrow> ''partial'')"

record run_context =
  px_pipeline :: string
  px_run :: string
  px_started :: instant
  px_records_in :: int
  px_records_out :: int
  px_records_skipped :: int
  px_bytes_in :: int
  px_bytes_out :: int
  px_dlq :: int
  px_errors :: "string list"

datatype ctx_op =
    IncRecordsIn int
  | IncRecordsOut int
  | IncRecordsSkipped int
  | IncBytesIn int
  | IncBytesOut int
  | RecordError string
  | NoteSkip string
  | RecordDlq

fun ctx_step :: "ctx_op \<Rightarrow> run_context \<Rightarrow> run_context" where
  "ctx_step (IncRecordsIn n) c = c\<lparr>px_records_in := px_records_in c + n\<rparr>"
| "ctx_step (IncRecordsOut n) c = c\<lparr>px_records_out := px_records_out c + n\<rparr>"
| "ctx_step (IncRecordsSkipped n) c = c\<lparr>px_records_skipped := px_records_skipped c + n\<rparr>"
| "ctx_step (IncBytesIn n) c = c\<lparr>px_bytes_in := px_bytes_in c + n\<rparr>"
| "ctx_step (IncBytesOut n) c = c\<lparr>px_bytes_out := px_bytes_out c + n\<rparr>"
| "ctx_step (RecordError m) c =
     c\<lparr>px_errors := px_errors c @ [m], px_records_skipped := px_records_skipped c + 1\<rparr>"
| "ctx_step (NoteSkip m) c = c\<lparr>px_errors := px_errors c @ [m]\<rparr>"
| "ctx_step RecordDlq c = c\<lparr>px_dlq := px_dlq c + 1\<rparr>"

record run_result =
  rr_run :: string
  rr_pipeline :: string
  rr_status :: run_status
  rr_started :: instant
  rr_finished :: instant
  rr_records_in :: int
  rr_records_out :: int
  rr_records_skipped :: int
  rr_bytes_in :: int
  rr_bytes_out :: int
  rr_error :: "string option"
  rr_dlq :: int
  rr_node :: string
  rr_errors :: "string list"
  rr_failed :: int
  rr_dlq_succeeded :: int
  rr_dlq_failed :: int
  rr_disposition :: "(string, (string, int) dict) dict"
  rr_spool :: "(string, int) dict"

definition from_context :: "instant \<Rightarrow> run_context \<Rightarrow> run_status \<Rightarrow> string option \<Rightarrow> run_result" where
  "from_context now ctx status error =
     \<lparr>rr_run = px_run ctx, rr_pipeline = px_pipeline ctx, rr_status = status,
      rr_started = px_started ctx, rr_finished = now,
      rr_records_in = px_records_in ctx, rr_records_out = px_records_out ctx,
      rr_records_skipped = px_records_skipped ctx, rr_bytes_in = px_bytes_in ctx,
      rr_bytes_out = px_bytes_out ctx, rr_error = error, rr_dlq = px_dlq ctx, rr_node = [],
      rr_errors = px_errors ctx, rr_failed = 0, rr_dlq_succeeded = 0, rr_dlq_failed = 0,
      rr_disposition = [], rr_spool = []\<rparr>"

section \<open>Live statistics\<close>

definition errors_window_maxlen :: nat where
  "errors_window_maxlen = 100"

text \<open>Python's \<open>xs[-n:]\<close> for a positive \<open>n\<close>, and \<open>extend\<close> on a \<open>deque(maxlen=100)\<close>.\<close>

definition last_n :: "nat \<Rightarrow> 'a list \<Rightarrow> 'a list" where
  "last_n n xs = drop (length xs - n) xs"

definition deque_extend :: "'a list \<Rightarrow> 'a list \<Rightarrow> 'a list" where
  "deque_extend w xs = last_n errors_window_maxlen (w @ xs)"

record stats_counts =
  sc_records_in :: int
  sc_records_out :: int
  sc_skipped :: int
  sc_dlq :: int
  sc_errors :: int
  sc_bytes_in :: int
  sc_bytes_out :: int

record pipeline_stats = stats_counts +
  sc_window :: "string list"

definition new_stats :: pipeline_stats where
  "new_stats =
     \<lparr>sc_records_in = 0, sc_records_out = 0, sc_skipped = 0, sc_dlq = 0, sc_errors = 0,
      sc_bytes_in = 0, sc_bytes_out = 0, sc_window = []\<rparr>"

record increment_args =
  ia_records_in :: int
  ia_records_out :: int
  ia_skipped :: int
  ia_dlq :: int
  ia_bytes_in :: int
  ia_bytes_out :: int
  ia_errors :: "string list"

definition stats_increment :: "increment_args \<Rightarrow> pipeline_stats \<Rightarrow> pipeline_stats" where
  "stats_increment a s =
     (let s1 = s\<lparr>sc_records_in := sc_records_in s + ia_records_in a,
                 sc_records_out := sc_records_out s + ia_records_out a,
                 sc_skipped := sc_skipped s + ia_skipped a,
                 sc_dlq := sc_dlq s + ia_dlq a,
                 sc_bytes_in := sc_bytes_in s + ia_bytes_in a,
                 sc_bytes_out := sc_bytes_out s + ia_bytes_out a\<rparr>
      in if ia_errors a \<noteq> []
         then s1\<lparr>sc_errors := sc_errors s1 + int (length (ia_errors a)),
                 sc_window := deque_extend (sc_window s1) (last_n 10 (ia_errors a))\<rparr>
         else s1)"

definition stats_reset :: "pipeline_stats \<Rightarrow> pipeline_stats" where
  "stats_reset s =
     s\<lparr>sc_records_in := 0, sc_records_out := 0, sc_skipped := 0, sc_dlq := 0, sc_errors := 0,
       sc_bytes_in := 0, sc_bytes_out := 0, sc_window := []\<rparr>"

definition snapshot_and_reset_window :: "pipeline_stats \<Rightarrow> pipeline_stats \<times> pipeline_stats" where
  "snapshot_and_reset_window s = (s, s\<lparr>sc_window := []\<rparr>)"

definition stats_snapshot :: "pipeline_stats \<Rightarrow> pipeline_stats" where
  "stats_snapshot s = s"

datatype stats_op = SIncrement increment_args | SReset | SSnapshotReset | SSnapshot

fun stats_step :: "stats_op \<Rightarrow> pipeline_stats \<Rightarrow> pipeline_stats option \<times> pipeline_stats" where
  "stats_step (SIncrement a) s = (None, stats_increment a s)"
| "stats_step SReset s = (None, stats_reset s)"
| "stats_step SSnapshotReset s = map_prod Some id (snapshot_and_reset_window s)"
| "stats_step SSnapshot s = (Some (stats_snapshot s), s)"

text \<open>The errors reported by a history, and the windows its resetting snapshots carried off.\<close>

fun errors_of :: "stats_op \<Rightarrow> string list" where
  "errors_of (SIncrement a) = ia_errors a"
| "errors_of _ = []"

fun window_taken :: "stats_op \<times> pipeline_stats option \<Rightarrow> string list" where
  "window_taken (SSnapshotReset, Some s) = sc_window s"
| "window_taken _ = []"

section \<open>Lemmas\<close>

lemma length_last_n [simp]: "length (last_n n xs) = min n (length xs)"
  by (simp add: last_n_def)

lemma subseq_last_n: "subseq (last_n n xs) xs"
  unfolding last_n_def by (metis append_take_drop_id list_emb_append2 subseq_order.refl)

lemma length_deque_extend: "length (deque_extend w xs) \<le> errors_window_maxlen"
  by (simp add: deque_extend_def)

lemma subseq_deque_extend: "subseq (deque_extend w xs) (w @ xs)"
  by (simp add: deque_extend_def subseq_last_n)

lemma stats_increment_window:
  "sc_window (stats_increment a s) =
     (if ia_errors a = [] then sc_window s else deque_extend (sc_window s) (last_n 10 (ia_errors a)))"
  by (simp add: stats_increment_def Let_def)

interpretation sm: op_machine stats_step "\<lambda>s. length (sc_window s) \<le> errors_window_maxlen"
proof
  fix s :: pipeline_stats and e
  assume "length (sc_window s) \<le> errors_window_maxlen"
  then show "length (sc_window (snd (stats_step e s))) \<le> errors_window_maxlen"
    using length_deque_extend
    by (cases e) (auto simp: stats_increment_window stats_reset_def snapshot_and_reset_window_def)
qed

lemma stats_step_window:
  "subseq (window_taken (e, fst (stats_step e s)) @ sc_window (snd (stats_step e s)))
     (sc_window s @ errors_of e)"
proof (cases e)
  case (SIncrement a)
  have "subseq (deque_extend (sc_window s) (last_n 10 (ia_errors a))) (sc_window s @ ia_errors a)"
    using subseq_deque_extend subseq_last_n
    by (meson list_emb_append_mono subseq_order.refl subseq_order.trans)
  then show ?thesis using SIncrement by (simp add: stats_increment_window)
qed (auto simp: stats_reset_def snapshot_and_reset_window_def)

lemma windows_subseq:
  "subseq (concat (map window_taken (zip es (fst (run_ops stats_step es s))))
       @ sc_window (snd (run_ops stats_step es s)))
     (sc_window s @ concat (map errors_of es))"
proof (induction es arbitrary: s)
  case (Cons e es)
  let ?s = "snd (stats_step e s)"
  let ?rest = "concat (map window_taken (zip es (fst (run_ops stats_step es ?s))))
       @ sc_window (snd (run_ops stats_step es ?s))"
  have "subseq (window_taken (e, fst (stats_step e s)) @ ?rest)
     (window_taken (e, fst (stats_step e s)) @ sc_window ?s @ concat (map errors_of es))"
    using Cons.IH [of ?s] by (rule list_emb_append_mono [OF subseq_order.refl])
  also have "subseq \<dots> ((sc_window s @ errors_of e) @ concat (map errors_of es))"
    using list_emb_append_mono [OF stats_step_window subseq_order.refl] by simp
  finally show ?case by (simp add: case_prod_unfold)
qed simp

text \<open>Over any sequence of increments, resets and snapshots of a run's statistics, no
  error message is reported in two windows: the windows handed out by resetting snapshots, in
  order and followed by the window still open, are a subsequence of the error messages
  recorded, in the order they were recorded; and the open window never holds more than 100
  messages.\<close>

theorem error_windows_disjoint:
  "subseq (concat (map window_taken (zip es (fst (run_ops stats_step es new_stats))))
       @ sc_window (snd (run_ops stats_step es new_stats)))
     (concat (map errors_of es))
   \<and> length (sc_window (snd (run_ops stats_step es new_stats))) \<le> 100"
  using windows_subseq [of es new_stats] sm.run_inv [of new_stats es]
  by (simp add: new_stats_def errors_window_maxlen_def)

end
