(* ===== verification/Run_Completion.thy ===== *)
theory Run_Completion
  imports Worker_Props Run_Stats
begin

text \<open>
  What a run thread of \<open>tram/agent/server.py\<close> reports: the completion status of a stream
  and of a batch run under a drain, the attempt-identity payload and the legacy-shaped
  payload, and the commit of either, on top of the thread end of \<open>Worker_Server\<close>; the
  direct post of a legacy result when the journal is unavailable; and the drained
  indicator of the status route.

  Times inside payloads are kept as instants (the code writes their ISO text). The JSON
  encoders of the two payload shapes and the text of an exception are arguments.
\<close>

section \<open>Payloads\<close>

record run_complete_payload =
  cp_run :: string
  cp_pipeline :: string
  cp_worker :: string
  cp_status :: string
  cp_records_in :: int
  cp_records_out :: int
  cp_records_skipped :: int
  cp_bytes_in :: int
  cp_bytes_out :: int
  cp_error :: "string option"
  cp_errors :: "string list"
  cp_started :: "instant option"
  cp_finished :: "instant option"
  cp_disposition :: "(string, (string, int) dict) dict option"
  cp_spool :: "(string, int) dict option"
  cp_dlq :: int
  cp_failed :: int
  cp_dlq_succeeded :: int
  cp_dlq_failed :: int

record completion_result = run_complete_payload +
  cp_attempt :: string
  cp_generation :: "int option"
  cp_legacy :: bool

text \<open>\<open>d or None\<close> for a dictionary.\<close>

definition or_none :: "('k, 'v) dict \<Rightarrow> ('k, 'v) dict option" where
  "or_none d = (if d = [] then None else Some d)"

text \<open>What a run thread knows of its run when it ends.\<close>

record run_identity =
  ri_run :: active_run
  ri_worker :: string
  ri_started :: instant
  ri_notes :: "string list"

section \<open>Outcomes under a drain\<close>

definition drain_reason :: string where
  "drain_reason = ''drained: worker drain requested''"



definition batch_result :: "bool \<Rightarrow> run_result \<Rightarrow> run_result" where
  "batch_result draining r =
     (if rr_status r = Aborted \<and> draining \<and>
         \<not> sublist ''drain'' (case rr_error r of Some e \<Rightarrow> e | None \<Rightarrow> [])
      then r\<lparr>rr_error := Some drain_reason\<rparr> else r)"

definition batch_payload :: "run_identity \<Rightarrow> run_result \<Rightarrow> string list \<Rightarrow> run_complete_payload" where
  "batch_payload ri r errors =
     \<lparr>cp_run = ac_run (ri_run ri), cp_pipeline = ac_pipeline (ri_run ri), cp_worker = ri_worker ri,
      cp_status = status_value (rr_status r), cp_records_in = rr_records_in r,
      cp_records_out = rr_records_out r, cp_records_skipped = rr_records_skipped r,
      cp_bytes_in = rr_bytes_in r, cp_bytes_out = rr_bytes_out r, cp_error = rr_error r,
      cp_errors = errors, cp_started = Some (rr_started r), cp_finished = Some (rr_finished r),
      cp_disposition = or_none (rr_disposition r), cp_spool = or_none (rr_spool r), cp_dlq = rr_dlq r,
      cp_failed = rr_failed r, cp_dlq_succeeded = rr_dlq_succeeded r, cp_dlq_failed = rr_dlq_failed r\<rparr>"

definition error_payload :: "run_identity \<Rightarrow> string \<Rightarrow> string list \<Rightarrow> instant \<Rightarrow> run_complete_payload" where
  "error_payload ri exc errors now =
     \<lparr>cp_run = ac_run (ri_run ri), cp_pipeline = ac_pipeline (ri_run ri), cp_worker = ri_worker ri,
      cp_status = ''error'', cp_records_in = 0, cp_records_out = 0, cp_records_skipped = 0,
      cp_bytes_in = 0, cp_bytes_out = 0, cp_error = Some exc, cp_errors = errors,
      cp_started = Some (ri_started ri), cp_finished = Some now,
      cp_disposition = None, cp_spool = None, cp_dlq = 0, cp_failed = 0,
      cp_dlq_succeeded = 0, cp_dlq_failed = 0\<rparr>"

definition with_attempt :: "run_identity \<Rightarrow> run_complete_payload \<Rightarrow> completion_result" where
  "with_attempt ri p = run_complete_payload.extend p
     \<lparr>cp_attempt = ac_att (ri_run ri), cp_generation = ac_gen (ri_run ri), cp_legacy = ac_legacy (ri_run ri)\<rparr>"

section \<open>The two run threads\<close>

text \<open>
  The attempt's payload is built only for an attempt; the legacy payload of a batch run lists
  the degradation notes after the errors, the attempt's payload lists the errors only. The
  executor's outcome is the text of the exception it raised, or its result. \<open>now\<close> and \<open>now'\<close>
  are the times written into the result and into the error result.
\<close>

record encoders =
  enc_result :: "completion_result \<Rightarrow> string"
  enc_legacy :: "run_complete_payload \<Rightarrow> string"
  enc_exc :: "jerror \<Rightarrow> string"

definition payload_pair :: "encoders \<Rightarrow> run_identity \<Rightarrow> run_complete_payload \<Rightarrow> run_complete_payload \<Rightarrow> payloads" where
  "payload_pair enc ri p legacy =
     ((if ac_att (ri_run ri) \<noteq> [] then Some (enc_result enc (with_attempt ri p)) else None),
      enc_legacy enc legacy)"

definition error_pair :: "encoders \<Rightarrow> run_identity \<Rightarrow> instant \<Rightarrow> string \<Rightarrow> payloads" where
  "error_pair enc ri now exc =
     payload_pair enc ri (error_payload ri exc [exc] now) (error_payload ri exc [] now)"

text \<open>The text of the exception a thread handles: the first commit's, or else the executor's.\<close>

definition exc_text :: "encoders \<Rightarrow> string \<Rightarrow> jerror option \<Rightarrow> string" where
  "exc_text enc t why = (case why of Some e \<Rightarrow> enc_exc enc e | None \<Rightarrow> t)"


definition batch_thread ::
  "encoders \<Rightarrow> clock \<Rightarrow> disk \<Rightarrow> clock \<Rightarrow> disk \<Rightarrow> instant \<Rightarrow> run_identity \<Rightarrow> string + run_result
    \<Rightarrow> worker \<Rightarrow> (jerror + bool) \<times> worker" where
  "batch_thread enc clk dk clk' dk' now' ri outcome w =
     (case outcome of
        Inl t \<Rightarrow>
          thread_end clk dk clk' dk' (ac_att (ri_run ri)) (ac_run (ri_run ri)) None
            (\<lambda>why. error_pair enc ri now' (exc_text enc t why)) w
      | Inr r0 \<Rightarrow>
          (let r = batch_result (ws_draining (wk_state w)) r0
           in thread_end clk dk clk' dk' (ac_att (ri_run ri)) (ac_run (ri_run ri))
                (Some (payload_pair enc ri (batch_payload ri r (rr_errors r))
                         (batch_payload ri r (rr_errors r @ ri_notes ri))))
                (\<lambda>why. error_pair enc ri now' (exc_text enc [] why)) w))"

section \<open>The direct post and the drained indicator\<close>

text \<open>
  \<open>_post_run_complete\<close>: at most three posts; a 4xx answer ends the loop. \<open>post i\<close> is the
  answer to the post number \<open>i\<close>: an HTTP status, or \<open>None\<close> for a transport error;
  \<open>success st\<close> says that \<open>raise_for_status\<close> does not raise on \<open>st\<close>. The result is the number of
  posts made and whether one was accepted.
\<close>

definition run_complete_retries :: nat where
  "run_complete_retries = 3"

fun post_loop :: "(int \<Rightarrow> bool) \<Rightarrow> nat \<Rightarrow> nat \<Rightarrow> (nat \<Rightarrow> int option) \<Rightarrow> nat \<times> bool" where
  "post_loop success 0 i post = (i, False)"
| "post_loop success (Suc n) i post =
     (case post i of
        None \<Rightarrow> post_loop success n (Suc i) post
      | Some st \<Rightarrow>
          if 400 \<le> st \<and> st < 500 then (Suc i, False)
          else if success st then (Suc i, True)
          else post_loop success n (Suc i) post)"

definition post_run_complete :: "(int \<Rightarrow> bool) \<Rightarrow> string \<Rightarrow> (nat \<Rightarrow> int option) \<Rightarrow> nat \<times> bool" where
  "post_run_complete success callback_url post =
     (if callback_url = [] then (0, False) else post_loop success run_complete_retries 0 post)"

definition drained :: "int \<Rightarrow> wstate \<Rightarrow> bool" where
  "drained now_monotonic s \<longleftrightarrow>
     ws_draining s \<and>
     (length (state_snapshot s) = 0 \<or>
      (case ws_deadline s of Some t \<Rightarrow> now_monotonic \<ge> t | None \<Rightarrow> False))"

section \<open>What the manager is told\<close>

lemma record_fresh:
  assumes "fatal j = None" "conn_open j" "resolve_run_id a r (jdb_of j) = Some run"
    and "tbl_find c_attempt a (completions (jdb_of j)) = None"
  obtains j' where "record_completion_and_enqueue clk a res r dk j = (Inr (), j')"
    "tbl_find c_attempt a (completions (jdb_of j')) =
       Some \<lparr>c_attempt = a, c_run = run, c_result = res, c_completed_at = clk 0,
             c_acked = False, c_acked_at = None\<rparr>"
    "has_run_complete a (outbox (jdb_of j'))"
proof -
  let ?c = "\<lparr>c_attempt = a, c_run = run, c_result = res, c_completed_at = clk 0,
      c_acked = False, c_acked_at = None\<rparr>"
  let ?d2 = "commit_completion clk a res run (jdb_of j)"
  let ?j' = "j\<lparr>jdb_of := snd (respool_completions_locked (clk 1) (Some a) ?d2)\<rparr>"
  have find: "tbl_find c_attempt a (completions ?d2) = Some ?c"
    using assms(4) by (simp add: commit_completion_def tbl_find_insert_ignore)
  then have "?c \<in> set (completions ?d2)" by (auto dest: tbl_find_SomeD)
  from respool_covers [OF this, of "Some a" "clk 1"]
  have "has_run_complete a (outbox (jdb_of ?j'))" by simp
  moreover have "record_completion_and_enqueue clk a res r dk j = (Inr (), ?j')"
    using assms(1-3) by (simp add: record_completion_and_enqueue_def txn_def ensure_open_def
        record_completion_db_def)
  moreover have "tbl_find c_attempt a (completions (jdb_of ?j')) = Some ?c"
    using find by (simp add: respool_completions_locked_def)
  ultimately show thesis using that by blast
qed

text \<open>The key under which a thread's result is journaled, and that it is free and resolvable.\<close>

definition result_key :: "active_run \<Rightarrow> string" where
  "result_key r = (if ac_att r \<noteq> [] then ac_att r else legacy_outbox_key (ac_run r))"

definition can_report :: "active_run \<Rightarrow> worker \<Rightarrow> bool" where
  "can_report r w \<longleftrightarrow>
     fatal (wk_journal w) = None \<and> conn_open (wk_journal w) \<and>
     tbl_find c_attempt (result_key r) (completions (jdb_of (wk_journal w))) = None \<and>
     (ac_att r \<noteq> [] \<longrightarrow> tbl_find r_attempt (ac_att r) (reservations (jdb_of (wk_journal w))) \<noteq> None) \<and>
     dwf (ws_runs (wk_state w))"

text \<open>A result is reported: journaled, waiting in the outbox, and the run is out of the table.\<close>

definition reported :: "active_run \<Rightarrow> string \<Rightarrow> worker \<Rightarrow> bool" where
  "reported r result w \<longleftrightarrow>
     map_option (\<lambda>c. (c_result c, c_acked c))
       (tbl_find c_attempt (result_key r) (completions (jdb_of (wk_journal w)))) = Some (result, False) \<and>
     has_run_complete (result_key r) (outbox (jdb_of (wk_journal w))) \<and>
     dget (ws_runs (wk_state w)) (run_key r) = None"

lemma state_remove_gone:
  "dwf (ws_runs s) \<Longrightarrow> dget (ws_runs (state_remove rid att s)) (if att \<noteq> [] then att else rid) = None"
  by (auto simp: state_remove_def reindex_locked_def Let_def dget_dpop split: option.splits)

lemma thread_end_reports:
  assumes "can_report r w"
    and res: "res = (if ac_att r \<noteq> [] then (case fst p of Some x \<Rightarrow> x | None \<Rightarrow> []) else snd p)"
  obtains w' where "thread_end clk dk clk' dk' (ac_att r) (ac_run r) (Some p) on_error w = (Inr True, w')"
    and "reported r res w'"
proof -
  let ?rid = "if ac_att r \<noteq> [] then None else Some (ac_run r)"
  obtain run where run: "resolve_run_id (result_key r) ?rid (jdb_of (wk_journal w)) = Some run"
  proof (cases "ac_att r = []")
    case True
    then show ?thesis using that by (simp add: resolve_run_id_def)
  next
    case False
    then obtain z where "tbl_find r_attempt (ac_att r) (reservations (jdb_of (wk_journal w))) = Some z"
      using assms(1) unfolding can_report_def by blast
    then show ?thesis using that False by (simp add: result_key_def resolve_run_id_def)
  qed
  obtain j' where j': "record_completion_and_enqueue clk (result_key r) res ?rid dk (wk_journal w) = (Inr (), j')"
    and c: "tbl_find c_attempt (result_key r) (completions (jdb_of j')) =
       Some \<lparr>c_attempt = result_key r, c_run = run, c_result = res, c_completed_at = clk 0,
             c_acked = False, c_acked_at = None\<rparr>"
    and o: "has_run_complete (result_key r) (outbox (jdb_of j'))"
    using record_fresh [OF _ _ run, of clk res dk] assms(1) unfolding can_report_def by blast
  let ?w' = "w\<lparr>wk_journal := j', wk_state := state_remove (ac_run r) (ac_att r) (wk_state w)\<rparr>"
  have "worker_commit_completion clk dk (ac_att r) (ac_run r) (fst p) (snd p) (wk_journal w) = (Inr True, j')"
    using j' res by (auto simp: worker_commit_completion_def journal_legacy_completion_def result_key_def)
  then have "thread_end clk dk clk' dk' (ac_att r) (ac_run r) (Some p) on_error w = (Inr True, ?w')"
    by (simp add: thread_end_def)
  moreover have "reported r res ?w'"
    using c o state_remove_gone [of "wk_state w" "ac_run r" "ac_att r"] assms(1)
    by (simp add: reported_def can_report_def run_key_def)
  ultimately show thesis using that by blast
qed


definition demo_run :: "string \<Rightarrow> active_run" where
  "demo_run att = \<lparr>ac_run = ''run'', ac_pipeline = ''p'', ac_schedule = ''stream'', ac_config_sha = [],
      ac_att = att, ac_gen = Some 1, ac_slot = [], ac_legacy = False, ac_stop = False\<rparr>"

definition demo_worker :: "string \<Rightarrow> worker" where
  "demo_worker att =
     \<lparr>wk_journal = snd (demo_step (OAdmit (start_decision ''a'' ''h'') ''p'', ok_disk, at_s 10) demo_journal),
      wk_state = snd (begin_drain 100 (state_add (demo_run att) empty_wstate)),
      wk_session = ''w-1'', wk_secret = ''s'', wk_prev_secret = None\<rparr>"

definition demo_identity :: "string \<Rightarrow> run_identity" where
  "demo_identity att = \<lparr>ri_run = demo_run att, ri_worker = ''w'', ri_started = 0, ri_notes = [''note'']\<rparr>"

definition demo_encoders :: encoders where
  "demo_encoders = \<lparr>enc_result = cp_status, enc_legacy = (\<lambda>p. concat (cp_errors p)), enc_exc = (\<lambda>_. ''exc'')\<rparr>"


lemma batch_result_errors [simp]: "rr_errors (batch_result draining r) = rr_errors r"
  by (simp add: batch_result_def)

text \<open>A batch run that ends on a working journal is reported, with the drain named as the
  reason of an abort that does not name it already. The degradation notes of the run follow the
  errors in the legacy-shaped result only: the result of an attempt lists the executor's errors
  and drops the notes.\<close>

theorem batch_run_reported:
  assumes "can_report (ri_run ri) w" and "r = batch_result (ws_draining (wk_state w)) r0"
  shows "\<exists>w'. batch_thread enc clk dk clk' dk' now' ri (Inr r0) w = (Inr True, w') \<and>
     reported (ri_run ri)
       (if ac_att (ri_run ri) \<noteq> [] then enc_result enc (with_attempt ri (batch_payload ri r (rr_errors r)))
        else enc_legacy enc (batch_payload ri r (rr_errors r @ ri_notes ri))) w'"
proof -
  let ?p = "payload_pair enc ri (batch_payload ri r (rr_errors r))
      (batch_payload ri r (rr_errors r @ ri_notes ri))"
  obtain w' where w': "thread_end clk dk clk' dk' (ac_att (ri_run ri)) (ac_run (ri_run ri)) (Some ?p)
        (\<lambda>why. error_pair enc ri now' (exc_text enc [] why)) w = (Inr True, w')"
    and "reported (ri_run ri) (if ac_att (ri_run ri) \<noteq> []
        then enc_result enc (with_attempt ri (batch_payload ri r (rr_errors r)))
        else enc_legacy enc (batch_payload ri r (rr_errors r @ ri_notes ri))) w'"
    by (rule thread_end_reports [OF assms(1) refl, where p = ?p and clk = clk and dk = dk
          and clk' = clk' and dk' = dk' and
          on_error = "\<lambda>why. error_pair enc ri now' (exc_text enc [] why)"])
      (simp add: payload_pair_def split: if_splits)
  then show ?thesis using assms(2) by (simp add: batch_thread_def Let_def)
qed

theorem batch_run_reported_witness:
  "\<exists>w'. batch_thread demo_encoders (at_s 20) ok_disk (at_s 30) ok_disk 0 (demo_identity [])
       (Inr (from_context 9 \<lparr>px_pipeline = ''p'', px_run = ''run'', px_started = 0, px_records_in = 2,
          px_records_out = 1, px_records_skipped = 1, px_bytes_in = 0, px_bytes_out = 0, px_dlq = 0,
          px_errors = [''bad'']\<rparr> Aborted None)) (demo_worker []) = (Inr True, w') \<and>
     reported (demo_run []) ''badnote'' w'"
proof -
  have "can_report (ri_run (demo_identity [])) (demo_worker [])" by code_simp
  from batch_run_reported [OF this refl, of demo_encoders "at_s 20" ok_disk "at_s 30" ok_disk 0
      "from_context 9 \<lparr>px_pipeline = ''p'', px_run = ''run'', px_started = 0, px_records_in = 2,
          px_records_out = 1, px_records_skipped = 1, px_bytes_in = 0, px_bytes_out = 0, px_dlq = 0,
          px_errors = [''bad'']\<rparr> Aborted None"]
  show ?thesis
    by (simp add: demo_identity_def demo_run_def demo_encoders_def batch_payload_def from_context_def)
qed

end
