(* ===== verification/Delivery.thy ===== *)
theory Delivery
  imports Run_Stats
begin

text \<open>
  Delivery accounting of \<open>tram/pipeline/executor.py\<close>: the identity of a source unit read
  from chunk metadata, the outcome of one unit and the disposition it decides
  (\<open>_UnitOutcome\<close>), the run-scoped accounting (\<open>_RunDeliveryAccounting\<close>), and the terminal
  outcome of a batch attempt. A metadata dictionary maps names to the values the source
  connectors put there.
\<close>

section \<open>Chunk metadata and unit identity\<close>

datatype mval = MNone | MStr string | MInt int | MBool bool | MPair string string

type_synonym meta = "(string, mval) dict"

text \<open>Python's truth value and \<open>str\<close> of such a value.\<close>

fun mval_true :: "mval \<Rightarrow> bool" where
  "mval_true MNone = False"
| "mval_true (MStr s) = (s \<noteq> [])"
| "mval_true (MInt i) = (i \<noteq> 0)"
| "mval_true (MBool b) = b"
| "mval_true (MPair a b) = True"

fun mval_str :: "mval \<Rightarrow> string" where
  "mval_str MNone = ''None''"
| "mval_str (MStr s) = s"
| "mval_str (MInt i) = py_str i"
| "mval_str (MBool b) = (if b then ''True'' else ''False'')"
| "mval_str (MPair a b) = ''('' @ a @ '', '' @ b @ '')''"

text \<open>\<open>meta.get(k)\<close>: a missing name and a stored \<open>None\<close> read the same.\<close>

definition mget :: "meta \<Rightarrow> string \<Rightarrow> mval" where
  "mget m k = (case dget m k of Some v \<Rightarrow> v | None \<Rightarrow> MNone)"

definition meta_truthy :: "meta \<Rightarrow> string \<Rightarrow> bool" where
  "meta_truthy m k = mval_true (mget m k)"

text \<open>\<open>str(meta.get(k, "") or "").strip()\<close>.\<close>

definition meta_text :: "meta \<Rightarrow> string \<Rightarrow> string" where
  "meta_text m k = (if mval_true (mget m k) then py_strip (mval_str (mget m k)) else [])"

definition unit_key_meta :: string where
  "unit_key_meta = ''_tram_unit_key''"

type_synonym unit_key = "string \<times> string"

definition source_unit_key :: "meta \<Rightarrow> unit_key option" where
  "source_unit_key m =
     (case mget m unit_key_meta of
        MPair a b \<Rightarrow> Some (a, b)
      | _ \<Rightarrow>
          (let path = meta_text m ''source_path''; file = meta_text m ''source_filename''
           in if path = [] \<and> file = [] then None else Some (path, file)))"

text \<open>\<open>key.endswith(suf)\<close> with the prefix \<open>ns\<close> that remains.\<close>

definition strip_suffix :: "string \<Rightarrow> string \<Rightarrow> string option" where
  "strip_suffix suf k =
     (if length suf \<le> length k \<and> drop (length k - length suf) k = suf
      then Some (take (length k - length suf) k) else None)"

text \<open>The first key of a coordinate family, then the first key of a delivery-tag family.\<close>

fun broker_coordinates :: "meta \<Rightarrow> string list \<Rightarrow> unit_key option" where
  "broker_coordinates m [] = None"
| "broker_coordinates m (k # ks) =
     (case strip_suffix ''_partition'' k of
        None \<Rightarrow> broker_coordinates m ks
      | Some ns \<Rightarrow>
          (let topic = mget m (ns @ ''_topic''); partition = mget m k; offset = mget m (ns @ ''_offset'');
               epoch = mget m (ns @ ''_epoch'')
           in if ns = [] \<or> topic = MNone \<or> partition = MNone \<or> offset = MNone
              then broker_coordinates m ks
              else Some (ns, mval_str topic @ ''/'' @ mval_str partition @ ''/'' @ mval_str offset @
                             (if epoch = MNone then [] else ''@'' @ mval_str epoch))))"

fun broker_tag :: "meta \<Rightarrow> string list \<Rightarrow> unit_key option" where
  "broker_tag m [] = None"
| "broker_tag m (k # ks) =
     (case strip_suffix ''_delivery_tag'' k of
        None \<Rightarrow> broker_tag m ks
      | Some ns \<Rightarrow>
          (let tag = mget m k; queue = mget m (ns @ ''_queue'')
           in if ns = [] \<or> tag = MNone then broker_tag m ks
              else Some (ns, if queue = MNone then mval_str tag
                             else mval_str queue @ ''/'' @ mval_str tag)))"

definition broker_meta_unit_key :: "meta \<Rightarrow> unit_key option" where
  "broker_meta_unit_key m =
     (case broker_coordinates m (dkeys m) of Some k \<Rightarrow> Some k | None \<Rightarrow> broker_tag m (dkeys m))"

text \<open>The key of a batch chunk, and the metadata with the broker key stashed.\<close>

definition batch_source_unit_key :: "meta \<Rightarrow> unit_key option \<times> meta" where
  "batch_source_unit_key m =
     (case source_unit_key m of
        Some k \<Rightarrow> (Some k, m)
      | None \<Rightarrow>
          (case broker_meta_unit_key m of
             Some (a, b) \<Rightarrow> (Some (a, b), dset unit_key_meta (MPair a b) m)
           | None \<Rightarrow> (None, m)))"

definition broker_partition_frontier :: "meta \<Rightarrow> ((string \<times> mval \<times> mval) \<times> int) option" where
  "broker_partition_frontier m =
     (case broker_meta_unit_key m of
        None \<Rightarrow> None
      | Some (ns, ident) \<Rightarrow>
          (case mget m (ns @ ''_offset'') of
             MInt n \<Rightarrow> Some ((ns, mget m (ns @ ''_topic''), mget m (ns @ ''_partition'')), n)
           | _ \<Rightarrow> None))"

text \<open>The frontier scalar of a checkpoint: the first non-negative integer offset, else 1.\<close>

fun checkpoint_frontier_of :: "meta \<Rightarrow> string list \<Rightarrow> int" where
  "checkpoint_frontier_of m [] = 1"
| "checkpoint_frontier_of m (k # ks) =
     (case (strip_suffix ''_offset'' k, mget m k) of
        (Some ns, MInt v) \<Rightarrow> if v \<ge> 0 then v else checkpoint_frontier_of m ks
      | _ \<Rightarrow> checkpoint_frontier_of m ks)"

definition checkpoint_frontier :: "meta \<Rightarrow> int" where
  "checkpoint_frontier m = checkpoint_frontier_of m (dkeys m)"

section \<open>The outcome of a unit\<close>

datatype ack_disposition = DELIVERED | FILTERED | DLQ | DROPPED

datatype on_error = OnContinue | OnAbort | OnRetry | OnDlq

record unit_outcome =
  u_meta :: meta
  u_records_in :: int
  u_delivered :: int
  u_filtered :: int
  u_failed :: int
  u_dlq_ok :: int
  u_dlq_failed :: int

definition new_unit :: "meta \<Rightarrow> unit_outcome" where
  "new_unit m = \<lparr>u_meta = m, u_records_in = 0, u_delivered = 0, u_filtered = 0, u_failed = 0,
     u_dlq_ok = 0, u_dlq_failed = 0\<rparr>"

definition unit_finish :: "unit_outcome \<Rightarrow> unit_outcome" where
  "unit_finish u =
     u\<lparr>u_filtered := max 0 (u_records_in u - (u_delivered u + u_failed u + u_dlq_ok u + u_dlq_failed u))\<rparr>"

definition disposition :: "on_error \<Rightarrow> unit_outcome \<Rightarrow> ack_disposition option" where
  "disposition oe u =
     (if u_dlq_failed u > 0 then None
      else if u_dlq_ok u > 0 then Some DLQ
      else if u_failed u > 0 then (if oe = OnContinue then Some DROPPED else None)
      else if u_delivered u > 0 then Some DELIVERED
      else if u_records_in u > 0 then Some FILTERED
      else None)"

section \<open>The accounting of a run\<close>

record sink_counts =
  n_delivered :: int
  n_failed :: int
  n_dlq :: int

record delivery =
  d_units :: "(unit_key, unit_outcome) dict"
  d_failed :: int
  d_dlq_ok :: int
  d_dlq_failed :: int
  d_pending :: int
  d_gaps :: "((string \<times> mval \<times> mval), int) dict"
  d_revision :: int
  d_sinks :: "(string, sink_counts) dict"
  d_spool_ok :: int
  d_spool_failed :: int

definition new_delivery :: delivery where
  "new_delivery = \<lparr>d_units = [], d_failed = 0, d_dlq_ok = 0, d_dlq_failed = 0, d_pending = 0, d_gaps = [],
     d_revision = 0, d_sinks = [], d_spool_ok = 0, d_spool_failed = 0\<rparr>"

definition register_unit :: "unit_key \<Rightarrow> meta \<Rightarrow> delivery \<Rightarrow> delivery" where
  "register_unit k m d =
     (if dhas k (d_units d) then d else d\<lparr>d_units := dset k (new_unit m) (d_units d)\<rparr>)"

definition take_unit :: "unit_key \<Rightarrow> delivery \<Rightarrow> unit_outcome option \<times> delivery" where
  "take_unit k d = (map_option unit_finish (dget (d_units d) k), d\<lparr>d_units := dpop k (d_units d)\<rparr>)"

definition update_unit :: "unit_key option \<Rightarrow> (unit_outcome \<Rightarrow> unit_outcome) \<Rightarrow> delivery \<Rightarrow> delivery" where
  "update_unit key f d =
     (case key of
        None \<Rightarrow> d
      | Some k \<Rightarrow>
          (case dget (d_units d) k of
             None \<Rightarrow> d
           | Some u \<Rightarrow> d\<lparr>d_units := dset k (f u) (d_units d)\<rparr>))"

definition record_chunk :: "unit_key option \<Rightarrow> int \<Rightarrow> int \<Rightarrow> delivery \<Rightarrow> delivery" where
  "record_chunk key n_in n_out =
     update_unit key (\<lambda>u. u\<lparr>u_records_in := u_records_in u + n_in, u_delivered := u_delivered u + n_out\<rparr>)"

definition record_loss :: "unit_key option \<Rightarrow> int \<Rightarrow> int \<Rightarrow> int \<Rightarrow> delivery \<Rightarrow> delivery" where
  "record_loss key failed dlq_ok dlq_failed d =
     update_unit key
       (\<lambda>u. u\<lparr>u_failed := u_failed u + failed, u_dlq_ok := u_dlq_ok u + dlq_ok,
              u_dlq_failed := u_dlq_failed u + dlq_failed\<rparr>)
       (d\<lparr>d_failed := d_failed d + failed, d_dlq_ok := d_dlq_ok d + dlq_ok,
          d_dlq_failed := d_dlq_failed d + dlq_failed\<rparr>)"

definition record_sink :: "string \<Rightarrow> int \<Rightarrow> int \<Rightarrow> int \<Rightarrow> delivery \<Rightarrow> delivery" where
  "record_sink sink_key delivered failed dlq d =
     (if sink_key = [] then d
      else
        (let e = (case dget (d_sinks d) sink_key of
                    Some e \<Rightarrow> e | None \<Rightarrow> \<lparr>n_delivered = 0, n_failed = 0, n_dlq = 0\<rparr>)
         in d\<lparr>d_sinks := dset sink_key
                \<lparr>n_delivered = n_delivered e + delivered, n_failed = n_failed e + failed,
                 n_dlq = n_dlq e + dlq\<rparr> (d_sinks d)\<rparr>))"

definition record_spool :: "bool \<Rightarrow> delivery \<Rightarrow> delivery" where
  "record_spool ok d =
     (if ok then d\<lparr>d_spool_ok := d_spool_ok d + 1\<rparr> else d\<lparr>d_spool_failed := d_spool_failed d + 1\<rparr>)"

definition nonzero :: "(string \<times> int) list \<Rightarrow> (string, int) dict" where
  "nonzero = filter (\<lambda>(k, v). v \<noteq> 0)"

definition sink_disposition_map :: "delivery \<Rightarrow> (string, (string, int) dict) dict" where
  "sink_disposition_map d =
     filter (\<lambda>(k, e). e \<noteq> [])
       (map (\<lambda>(k, e). (k, nonzero [(''delivered'', n_delivered e), (''failed'', n_failed e), (''dlq'', n_dlq e)]))
         (d_sinks d))"

definition spool_counters :: "delivery \<Rightarrow> (string, int) dict" where
  "spool_counters d = nonzero [(''spooled'', d_spool_ok d), (''failed'', d_spool_failed d)]"

definition record_checkpoint_pending :: "delivery \<Rightarrow> delivery" where
  "record_checkpoint_pending d = d\<lparr>d_pending := d_pending d + 1\<rparr>"

definition has_pending_checkpoints :: "delivery \<Rightarrow> bool" where
  "has_pending_checkpoints d \<longleftrightarrow> d_pending d > 0"

definition has_loss :: "delivery \<Rightarrow> bool" where
  "has_loss d \<longleftrightarrow> d_failed d > 0 \<or> d_dlq_failed d > 0"

definition batch_outcome :: "on_error \<Rightarrow> delivery \<Rightarrow> bool \<Rightarrow> run_status" where
  "batch_outcome oe d commit_failed =
     (if commit_failed then Partial
      else if (oe = OnContinue \<or> oe = OnRetry) \<and> has_loss d then Partial
      else if has_pending_checkpoints d then Partial
      else Success)"

end
