(* ===== verification/Executor.thy ===== *)
theory Executor
  imports Delivery
begin

text \<open>
  The batch path of \<open>tram/pipeline/executor.py\<close>: transforms, routing to the sinks with
  retries, circuit breakers and dead-letter handling, the commit barrier, the checkpoint gate,
  the acknowledgement of source units, the sequential chunk loop and the run with its retries.

  Everything outside the executor answers by the number of the call: the state counts the
  external calls of the run (\<open>x_n\<close>), and the environment gives for each kind of call the
  answer to call number \<open>n\<close>. A sink, transform, source, manager or clock may therefore behave
  differently at every call. What the executor does to the outside is logged (\<open>x_log\<close>).
  Not modelled: rate limiting (it only delays), Prometheus counters and logging.
\<close>

section \<open>Exceptions, effects and state\<close>

text \<open>\<open>TramError\<close>, its subclass for a failed dead-letter delivery, and any other exception.\<close>

datatype xerror = Tram string | DlqError string | OtherExc string

definition is_tram :: "xerror \<Rightarrow> bool" where
  "is_tram e = (case e of OtherExc m \<Rightarrow> False | _ \<Rightarrow> True)"

definition exc_str :: "xerror \<Rightarrow> string" where
  "exc_str e = (case e of Tram m \<Rightarrow> m | DlqError m \<Rightarrow> m | OtherExc m \<Rightarrow> m)"

datatype 'r event =
    EWrite nat "'r list"                 \<comment> \<open>sink \<open>i\<close> accepted the records\<close>
  | EDlq string                          \<comment> \<open>an envelope reached the dead-letter sink\<close>
  | ESpool string bool                   \<comment> \<open>the spool fallback and whether it succeeded\<close>
  | ECommit nat bool                     \<comment> \<open>sink \<open>i\<close> answered its commit, confirmed or not\<close>
  | ESinkFinal nat bool                  \<comment> \<open>\<open>finalize_source\<close> of sink \<open>i\<close>\<close>
  | ECheckpoint string bool              \<comment> \<open>a checkpoint was posted; did the manager accept it\<close>
  | EAck meta ack_disposition
  | EFinal meta bool                     \<comment> \<open>\<open>source.finalize\<close>\<close>
  | ESave                                \<comment> \<open>the transform state was saved\<close>

text \<open>
  The unit the chunk loop is in: its key, the metadata of its latest chunk, and the outcome
  object registered for it.
\<close>

record current_unit =
  cu_key :: unit_key
  cu_meta :: meta
  cu_unit :: "unit_outcome option"

text \<open>
  The micro-batch buffer of a stream (\<open>_StreamFlushBuffer\<close>); the queue of completed units holds
  the metadata and the outcome of each. A batch run leaves it empty.
\<close>

record 'r flush_buffer =
  fb_records :: "'r list"
  fb_meta :: "meta option"
  fb_oldest :: "int option"
  fb_contributors :: "(meta \<times> 'r list) list"
  fb_completed :: "(meta \<times> unit_outcome) list"

definition empty_buffer :: "'r flush_buffer" where
  "empty_buffer = \<lparr>fb_records = [], fb_meta = None, fb_oldest = None, fb_contributors = [], fb_completed = []\<rparr>"

record 'r xstate =
  x_n :: nat
  x_ctx :: run_context
  x_stats :: "pipeline_stats option"
  x_del :: "delivery option"
  x_cb :: "(string, int \<times> int) dict"
  x_cur :: "current_unit option"
  x_buf :: "'r flush_buffer"
  x_log :: "'r event list"

type_synonym ('r, 'a) xm = "'r xstate \<Rightarrow> (xerror + 'a) \<times> 'r xstate"

definition ret :: "'a \<Rightarrow> ('r, 'a) xm" where
  "ret a s = (Inr a, s)"

definition throw :: "xerror \<Rightarrow> ('r, 'a) xm" where
  "throw e s = (Inl e, s)"

definition bind :: "('r, 'a) xm \<Rightarrow> ('a \<Rightarrow> ('r, 'b) xm) \<Rightarrow> ('r, 'b) xm" where
  "bind m f s = (case m s of (Inl e, s') \<Rightarrow> (Inl e, s') | (Inr a, s') \<Rightarrow> f a s')"

text \<open>\<open>try: m except e: h\<close>, and \<open>try\<close> whose outcome is a value.\<close>

definition catch :: "('r, 'a) xm \<Rightarrow> (xerror \<Rightarrow> ('r, 'a) xm) \<Rightarrow> ('r, 'a) xm" where
  "catch m h s = (case m s of (Inl e, s') \<Rightarrow> h e s' | (Inr a, s') \<Rightarrow> (Inr a, s'))"

definition try_m :: "('r, 'a) xm \<Rightarrow> ('r, xerror + 'a) xm" where
  "try_m m s = (case m s of (r, s') \<Rightarrow> (Inr r, s'))"

definition modify :: "('r xstate \<Rightarrow> 'r xstate) \<Rightarrow> ('r, unit) xm" where
  "modify f s = (Inr (), f s)"

definition gets :: "('r xstate \<Rightarrow> 'a) \<Rightarrow> ('r, 'a) xm" where
  "gets f s = (Inr (f s), s)"

text \<open>One external call: its answer is taken at the call's number.\<close>

definition ask :: "(nat \<Rightarrow> 'a) \<Rightarrow> ('r, 'a) xm" where
  "ask f s = (Inr (f (x_n s)), s\<lparr>x_n := Suc (x_n s)\<rparr>)"

definition emit :: "'r event \<Rightarrow> ('r, unit) xm" where
  "emit e = modify (\<lambda>s. s\<lparr>x_log := x_log s @ [e]\<rparr>)"

definition ctx_do :: "ctx_op \<Rightarrow> ('r, unit) xm" where
  "ctx_do op = modify (\<lambda>s. s\<lparr>x_ctx := ctx_step op (x_ctx s)\<rparr>)"

definition no_inc :: increment_args where
  "no_inc = \<lparr>ia_records_in = 0, ia_records_out = 0, ia_skipped = 0, ia_dlq = 0, ia_bytes_in = 0,
     ia_bytes_out = 0, ia_errors = []\<rparr>"

definition stats_do :: "increment_args \<Rightarrow> ('r, unit) xm" where
  "stats_do a = modify (\<lambda>s. s\<lparr>x_stats := map_option (stats_increment a) (x_stats s)\<rparr>)"

definition del_do :: "(delivery \<Rightarrow> delivery) \<Rightarrow> ('r, unit) xm" where
  "del_do f = modify (\<lambda>s. s\<lparr>x_del := map_option f (x_del s)\<rparr>)"

definition skip :: "('r, unit) xm" where
  "skip = ret ()"

section \<open>The environment of a run\<close>

text \<open>Transforms: the error text or the records of call number \<open>n\<close>.\<close>

type_synonym 'r transform = "nat \<Rightarrow> 'r list \<Rightarrow> string + 'r list"

datatype commit_answer = CommitRaises string | Receipt string bool string

datatype latched_answer = NotLatched | LatchedRaises string | Latched string

record 'r sink =
  sk_type :: string
  sk_condition :: "('r \<Rightarrow> string + bool) option"
  sk_transforms :: "'r transform list"
  sk_fields :: "'r \<Rightarrow> (string \<times> string) list"
  sk_serialize :: "nat \<Rightarrow> 'r list \<Rightarrow> xerror + int"
  sk_write :: "nat \<Rightarrow> string option"
  sk_retry :: nat
  sk_cb_threshold :: int
  sk_cb_window :: int
  sk_cb_key :: string
  sk_commit :: "nat \<Rightarrow> commit_answer"
  sk_latched :: "nat \<Rightarrow> latched_answer"
  sk_finalize :: "nat \<Rightarrow> string option"

record ckpt_result =
  cr_already :: bool
  cr_revision :: "int option"

record 'r xenv =
  v_on_error :: on_error
  v_transforms :: "'r transform list"
  v_sinks :: "'r sink list"
  v_dlq :: "(nat \<Rightarrow> string option) option"
  v_spool :: "nat \<Rightarrow> bool"
  v_parallel :: bool
  v_monotonic :: "nat \<Rightarrow> int"
  v_now :: "nat \<Rightarrow> instant"
  v_parse :: "nat \<Rightarrow> string \<Rightarrow> string + 'r list"
  v_parse_chunks :: "string \<Rightarrow> nat \<Rightarrow> 'r list list \<times> xerror option"
  v_batch_size :: "nat option"
  v_record_chunk :: "nat option"
  v_stop :: "nat \<Rightarrow> bool"
  v_stop_reason :: "nat \<Rightarrow> string"
  v_strict :: bool
  v_checkpoint :: "(nat \<Rightarrow> string + ckpt_result) option"
  v_unit_id :: "meta \<Rightarrow> string option"
  v_source_finalize :: "nat \<Rightarrow> xerror option"
  v_completion_error :: "nat \<Rightarrow> string option"
  v_flush :: bool
  v_flush_records :: "nat \<Rightarrow> 'r list"
  v_has_store :: bool

section \<open>Dead letters and transforms\<close>

text \<open>
  \<open>_write_dlq_envelope\<close>: the dead-letter sink, else the local spool; the answer says whether
  the envelope is durable.
\<close>

definition write_dlq_envelope :: "'r xenv \<Rightarrow> (nat \<Rightarrow> string option) \<Rightarrow> string \<Rightarrow> ('r, bool) xm" where
  "write_dlq_envelope env dlq stage =
     bind (ask dlq) (\<lambda>failed.
       case failed of
         None \<Rightarrow> bind (emit (EDlq stage)) (\<lambda>_. ret True)
       | Some e \<Rightarrow>
           bind (ask (v_spool env)) (\<lambda>ok.
             bind (emit (ESpool stage ok)) (\<lambda>_.
               bind (del_do (record_spool ok)) (\<lambda>_. ret ok))))"

definition int_of_bool :: "bool \<Rightarrow> int" where
  "int_of_bool b = (if b then 1 else 0)"

text \<open>A failed dead-letter delivery under \<open>dlq\<close> or \<open>retry\<close>, with accounting present.\<close>

definition dlq_fatal :: "'r xenv \<Rightarrow> bool \<Rightarrow> delivery option \<Rightarrow> bool" where
  "dlq_fatal env ok d \<longleftrightarrow> \<not> ok \<and> (v_on_error env = OnDlq \<or> v_on_error env = OnRetry) \<and> d \<noteq> None"

definition dlq_record :: "'r xenv \<Rightarrow> unit_key option \<Rightarrow> (nat \<Rightarrow> string option) \<Rightarrow> string \<Rightarrow> ('r, bool) xm" where
  "dlq_record env key dlq stage =
     bind (write_dlq_envelope env dlq stage) (\<lambda>ok.
       bind (ctx_do RecordDlq) (\<lambda>_.
         bind (del_do (record_loss key 0 (int_of_bool ok) (int_of_bool (\<not> ok)))) (\<lambda>_. ret ok)))"

text \<open>A transform raised, globally or at a sink (\<open>what\<close> names which in the message).\<close>

definition transform_failure :: "'r xenv \<Rightarrow> unit_key option \<Rightarrow> string \<Rightarrow> string \<Rightarrow> ('r, unit) xm" where
  "transform_failure env key what exc =
     (if v_on_error env = OnAbort then throw (Tram (''Transform error: '' @ exc))
      else
        bind (case v_dlq env of
                Some dlq \<Rightarrow>
                  bind (dlq_record env key dlq ''transform'') (\<lambda>ok.
                    bind (gets x_del) (\<lambda>d.
                      if dlq_fatal env ok d
                      then throw (DlqError (''DLQ delivery failed for '' @ what @ '' error: '' @ exc)) else skip))
              | None \<Rightarrow> del_do (record_loss key 1 0 0)) (\<lambda>_.
          bind (ctx_do (RecordError exc)) (\<lambda>_.
            stats_do (no_inc\<lparr>ia_skipped := 1, ia_dlq := (if v_dlq env \<noteq> None then 1 else 0),
                             ia_errors := [exc]\<rparr>))))"

text \<open>The chain of transforms on one batch of records: the error text or the result.\<close>

fun apply_chain :: "'r transform list \<Rightarrow> 'r list \<Rightarrow> ('r, string + 'r list) xm" where
  "apply_chain [] rs = ret (Inr rs)"
| "apply_chain (t # ts) rs =
     bind (ask (\<lambda>n. t n rs)) (\<lambda>a. case a of Inl e \<Rightarrow> ret (Inl e) | Inr rs' \<Rightarrow> apply_chain ts rs')"

fun apply_global_transforms :: "'r xenv \<Rightarrow> unit_key option \<Rightarrow> 'r transform list \<Rightarrow> 'r list \<Rightarrow> ('r, 'r list) xm" where
  "apply_global_transforms env key ts [] = ret []"
| "apply_global_transforms env key ts (r # rs) =
     bind (apply_chain ts [r]) (\<lambda>a.
       case a of
         Inr out \<Rightarrow> bind (apply_global_transforms env key ts rs) (\<lambda>rest. ret (out @ rest))
       | Inl e \<Rightarrow> bind (transform_failure env key ''transform'' e) (\<lambda>_. apply_global_transforms env key ts rs))"

section \<open>Writing one sink\<close>

fun filter_by_condition :: "('r \<Rightarrow> string + bool) \<Rightarrow> 'r list \<Rightarrow> string + 'r list" where
  "filter_by_condition c [] = Inr []"
| "filter_by_condition c (r # rs) =
     (case c r of
        Inl e \<Rightarrow> Inl (''Condition eval error: '' @ e)
      | Inr b \<Rightarrow>
          (case filter_by_condition c rs of
             Inl e \<Rightarrow> Inl e
           | Inr out \<Rightarrow> Inr (if b then r # out else out)))"

text \<open>Grouping by the template's field values, in order of first appearance.\<close>

definition partition_records_for_template :: "('r \<Rightarrow> (string \<times> string) list) \<Rightarrow> 'r list \<Rightarrow> 'r list list" where
  "partition_records_for_template values rs =
     map snd (fold (\<lambda>r g. dset (values r)
       ((case dget g (values r) of Some xs \<Rightarrow> xs | None \<Rightarrow> []) @ [r]) g) rs [])"

fun write_attempts :: "nat \<Rightarrow> nat \<Rightarrow> 'r sink \<Rightarrow> 'r list \<Rightarrow> int \<Rightarrow> ('r, string option) xm" where
  "write_attempts 0 i sk rs sz = ret (Some [])"
| "write_attempts (Suc k) i sk rs sz =
     bind (ask (sk_write sk)) (\<lambda>failed.
       case failed of
         None \<Rightarrow>
           bind (emit (EWrite i rs)) (\<lambda>_.
             bind (ctx_do (IncBytesOut sz)) (\<lambda>_.
               bind (stats_do (no_inc\<lparr>ia_bytes_out := sz\<rparr>)) (\<lambda>_.
                 bind (modify (\<lambda>s. if sk_cb_threshold sk > 0
                         then s\<lparr>x_cb := dset (sk_cb_key sk) (0, 0) (x_cb s)\<rparr> else s)) (\<lambda>_.
                   ret None))))
       | Some e \<Rightarrow> if k = 0 then ret (Some e) else write_attempts k i sk rs sz)"

text \<open>A partition's retries are exhausted: the breaker counts the failure and may open.\<close>

definition trip_breaker :: "'r xenv \<Rightarrow> 'r sink \<Rightarrow> ('r, unit) xm" where
  "trip_breaker env sk =
     (if sk_cb_threshold sk > 0
      then bind (gets (\<lambda>s. case dget (x_cb s) (sk_cb_key sk) of Some (n, _) \<Rightarrow> n + 1 | None \<Rightarrow> 1)) (\<lambda>n.
             if n \<ge> sk_cb_threshold sk
             then bind (ask (v_monotonic env)) (\<lambda>now.
                    modify (\<lambda>s. s\<lparr>x_cb := dset (sk_cb_key sk) (n, now + sk_cb_window sk) (x_cb s)\<rparr>))
             else modify (\<lambda>s. s\<lparr>x_cb := dset (sk_cb_key sk) (n, 0) (x_cb s)\<rparr>))
      else skip)"

definition partition_failed ::
  "'r xenv \<Rightarrow> unit_key option \<Rightarrow> 'r sink \<Rightarrow> 'r list \<Rightarrow> string \<Rightarrow> ('r, unit) xm" where
  "partition_failed env key sk rs exc =
     bind (trip_breaker env sk) (\<lambda>_.
       bind (case v_dlq env of
               Some dlq \<Rightarrow>
                 bind (dlq_record env key dlq ''sink'') (\<lambda>ok.
                   bind (del_do (record_sink (sk_type sk) 0 (int_of_bool (\<not> ok)) (int_of_bool ok))) (\<lambda>_.
                     bind (gets x_del) (\<lambda>d.
                       if dlq_fatal env ok d
                       then throw (DlqError (''DLQ delivery failed for sink error: '' @ exc)) else ret ok)))
             | None \<Rightarrow>
                 bind (del_do (record_loss key (int (length rs)) 0 0)) (\<lambda>_.
                   bind (del_do (record_sink (sk_type sk) 0 (int (length rs)) 0)) (\<lambda>_. ret False))) (\<lambda>dlqd.
         if v_on_error env = OnAbort \<or> v_on_error env = OnRetry \<and> \<not> dlqd
         then throw (Tram (''Sink write error: '' @ exc))
         else
           bind (ctx_do (NoteSkip exc)) (\<lambda>_.
             stats_do (no_inc\<lparr>ia_dlq := (if v_dlq env \<noteq> None then 1 else 0), ia_errors := [exc]\<rparr>))))"

fun write_partitions ::
  "'r xenv \<Rightarrow> unit_key option \<Rightarrow> nat \<Rightarrow> 'r sink \<Rightarrow> 'r list list \<Rightarrow> int \<Rightarrow> ('r, int) xm" where
  "write_partitions env key i sk [] written = ret written"
| "write_partitions env key i sk (p # ps) written =
     bind (ask (\<lambda>n. sk_serialize sk n p)) (\<lambda>a.
       case a of
         Inl e \<Rightarrow> throw e
       | Inr sz \<Rightarrow>
           bind (write_attempts (Suc (sk_retry sk)) i sk p sz) (\<lambda>failed.
             case failed of
               None \<Rightarrow> write_partitions env key i sk ps (written + int (length p))
             | Some e \<Rightarrow> bind (partition_failed env key sk p e) (\<lambda>_. ret written)))"

text \<open>Is the breaker of this sink open? The clock is read only when a breaker is configured.\<close>

definition breaker_open :: "'r xenv \<Rightarrow> 'r sink \<Rightarrow> ('r, bool) xm" where
  "breaker_open env sk =
     (if sk_cb_threshold sk > 0
      then bind (gets (\<lambda>s. case dget (x_cb s) (sk_cb_key sk) of Some (_, t) \<Rightarrow> t | None \<Rightarrow> 0)) (\<lambda>t.
             bind (ask (v_monotonic env)) (\<lambda>now. ret (t > now)))
      else ret False)"

definition circuit_message :: string where
  "circuit_message = ''Circuit breaker open''"

definition write_one_sink ::
  "'r xenv \<Rightarrow> unit_key option \<Rightarrow> 'r list \<Rightarrow> nat \<Rightarrow> 'r sink \<Rightarrow> ('r, int) xm" where
  "write_one_sink env key records_in i sk =
     (case (case sk_condition sk of Some c \<Rightarrow> filter_by_condition c records_in | None \<Rightarrow> Inr records_in) of
        Inl e \<Rightarrow> throw (Tram e)
      | Inr filtered \<Rightarrow>
          if filtered = [] then ret 0
          else
            bind (apply_chain (sk_transforms sk) filtered) (\<lambda>a.
              case a of
                Inl e \<Rightarrow> bind (transform_failure env key ''sink transform'' e) (\<lambda>_. ret 0)
              | Inr sink_records \<Rightarrow>
                  if sink_records = [] then ret 0
                  else
                    bind (breaker_open env sk) (\<lambda>is_open.
                      if is_open
                      then
                        bind (ctx_do (NoteSkip circuit_message)) (\<lambda>_.
                          bind (del_do (record_loss key (int (length records_in)) 0 0)) (\<lambda>_.
                            bind (stats_do (no_inc\<lparr>ia_errors := [circuit_message]\<rparr>)) (\<lambda>_. ret 0)))
                      else
                        bind (write_partitions env key i sk
                               (partition_records_for_template (sk_fields sk) sink_records) 0) (\<lambda>written.
                          bind (del_do (record_sink (sk_type sk) written 0 0)) (\<lambda>_. ret written)))))"

fun write_sinks :: "'r xenv \<Rightarrow> unit_key option \<Rightarrow> 'r list \<Rightarrow> nat \<Rightarrow> 'r sink list \<Rightarrow> ('r, int list) xm" where
  "write_sinks env key rs i [] = ret []"
| "write_sinks env key rs i (sk # sks) =
     bind (write_one_sink env key rs i sk) (\<lambda>w.
       bind (write_sinks env key rs (Suc i) sks) (\<lambda>ws. ret (w # ws)))"

text \<open>
  The parallel fan-out, each sink's work taken as one step: every sink is written, then the
  results are collected in order and the first exception is raised, folded into \<open>TramError\<close>.
\<close>

fun run_sinks :: "'r xenv \<Rightarrow> unit_key option \<Rightarrow> 'r list \<Rightarrow> nat \<Rightarrow> 'r sink list \<Rightarrow> ('r, (xerror + int) list) xm" where
  "run_sinks env key rs i [] = ret []"
| "run_sinks env key rs i (sk # sks) =
     bind (try_m (write_one_sink env key rs i sk)) (\<lambda>w.
       bind (run_sinks env key rs (Suc i) sks) (\<lambda>ws. ret (w # ws)))"

fun collect_results :: "(xerror + int) list \<Rightarrow> ('r, int list) xm" where
  "collect_results [] = ret []"
| "collect_results (w # ws) =
     (case w of
        Inl e \<Rightarrow> throw (if is_tram e then e else Tram (''Sink write error: '' @ exc_str e))
      | Inr k \<Rightarrow> bind (collect_results ws) (\<lambda>ks. ret (k # ks)))"

definition write_all_sinks :: "'r xenv \<Rightarrow> unit_key option \<Rightarrow> 'r list \<Rightarrow> ('r, int list) xm" where
  "write_all_sinks env key rs =
     (if v_parallel env \<and> length (v_sinks env) > 1
      then bind (run_sinks env key rs 0 (v_sinks env)) collect_results
      else write_sinks env key rs 0 (v_sinks env))"

section \<open>Chunks\<close>

definition skip_message :: string where
  "skip_message = ''Records skipped - no sink wrote successfully'' @
     '' (condition filtered all records or every sink failed/circuit-open)''"

text \<open>
  The handler around a chunk: a \<open>TramError\<close> is raised again under \<open>abort\<close>, for a failed
  dead-letter delivery, and under \<open>retry\<close> when loss is recorded; otherwise it is noted
  and \<open>after\<close> answers.
\<close>

definition handle_tram :: "'r xenv \<Rightarrow> ('r, bool) xm \<Rightarrow> ('r, bool) xm \<Rightarrow> ('r, bool) xm" where
  "handle_tram env after m =
     catch m (\<lambda>e.
       if \<not> is_tram e \<or> v_on_error env = OnAbort \<or> (case e of DlqError _ \<Rightarrow> True | _ \<Rightarrow> False)
       then throw e
       else
         bind (gets x_del) (\<lambda>d.
           if v_on_error env = OnRetry \<and> (case d of Some d \<Rightarrow> has_loss d | None \<Rightarrow> False) then throw e
           else
             bind (ctx_do (RecordError (''Processing error: '' @ exc_str e))) (\<lambda>_.
               bind (stats_do (no_inc\<lparr>ia_skipped := 1, ia_errors := [''Processing error: '' @ exc_str e]\<rparr>)) (\<lambda>_.
                 after))))"

definition max_count :: "int list \<Rightarrow> int" where
  "max_count ws = fold max ws 0"

definition process_records_body ::
  "'r xenv \<Rightarrow> unit_key option \<Rightarrow> 'r transform list \<Rightarrow> 'r list \<Rightarrow> bool \<Rightarrow> ('r, bool) xm" where
  "process_records_body env key ts rs count_in =
     bind (if count_in
           then bind (ctx_do (IncRecordsIn (int (length rs)))) (\<lambda>_.
                  stats_do (no_inc\<lparr>ia_records_in := int (length rs)\<rparr>))
           else skip) (\<lambda>_.
       bind (apply_global_transforms env key ts rs) (\<lambda>recs.
         bind (write_all_sinks env key recs) (\<lambda>counts.
           let written = max_count counts in
           bind (del_do (record_chunk key (int (length recs)) written)) (\<lambda>_.
             if written > 0
             then bind (ctx_do (IncRecordsOut written)) (\<lambda>_.
                    bind (stats_do (no_inc\<lparr>ia_records_out := written\<rparr>)) (\<lambda>_. ret True))
             else if recs \<noteq> []
             then bind (ctx_do (IncRecordsSkipped (int (length recs)))) (\<lambda>_.
                    bind (stats_do (no_inc\<lparr>ia_skipped := int (length recs)\<rparr>)) (\<lambda>_.
                      bind (ctx_do (NoteSkip skip_message)) (\<lambda>_. ret True)))
             else ret True))))"

definition process_records ::
  "'r xenv \<Rightarrow> meta \<Rightarrow> 'r transform list \<Rightarrow> 'r list \<Rightarrow> bool \<Rightarrow> ('r, bool) xm" where
  "process_records env m ts rs count_in =
     handle_tram env (ret False) (process_records_body env (source_unit_key m) ts rs count_in)"

text \<open>Run-scoped metadata; \<open>run_timestamp\<close> keeps the instant the code formats.\<close>

definition augment_chunk_meta :: "meta \<Rightarrow> run_context \<Rightarrow> meta" where
  "augment_chunk_meta m ctx =
     dset ''run_timestamp'' (MInt (px_started ctx))
       (dset ''run_id'' (MStr (px_run ctx)) (dset ''pipeline_name'' (MStr (px_pipeline ctx)) m))"

text \<open>A chunk that does not parse: dead-lettered or counted as one lost record, and raised.\<close>

definition parse_failure :: "'r xenv \<Rightarrow> unit_key option \<Rightarrow> string \<Rightarrow> ('r, 'a) xm" where
  "parse_failure env key exc =
     bind (case v_dlq env of
             Some dlq \<Rightarrow> dlq_record env key dlq ''parse''
           | None \<Rightarrow> bind (del_do (record_loss key 1 0 0)) (\<lambda>_. ret True)) (\<lambda>ok.
       bind (gets x_del) (\<lambda>d.
         if dlq_fatal env ok d
         then throw (DlqError (''DLQ delivery failed for unparseable chunk: '' @ exc))
         else
           bind (stats_do (no_inc\<lparr>ia_dlq := (if v_dlq env \<noteq> None then 1 else 0),
                                  ia_errors := [''Parse error: '' @ exc]\<rparr>)) (\<lambda>_.
             throw (Tram (''Parse error: '' @ exc)))))"

definition count_bytes_in :: "string \<Rightarrow> ('r, unit) xm" where
  "count_bytes_in raw =
     bind (ctx_do (IncBytesIn (int (length raw)))) (\<lambda>_.
       stats_do (no_inc\<lparr>ia_bytes_in := int (length raw)\<rparr>))"

definition process_chunk :: "'r xenv \<Rightarrow> string \<Rightarrow> meta \<Rightarrow> ('r, bool) xm" where
  "process_chunk env raw m0 =
     bind (gets x_ctx) (\<lambda>ctx.
       let m = augment_chunk_meta m0 ctx in
       handle_tram env (ret False)
         (bind (count_bytes_in raw) (\<lambda>_.
            bind (ask (\<lambda>n. v_parse env n raw)) (\<lambda>a.
              case a of
                Inl exc \<Rightarrow> parse_failure env (source_unit_key m) exc
              | Inr rs \<Rightarrow> process_records env m (v_transforms env) rs True))))"

text \<open>
  The incremental variant: batches of records are processed as the parser yields them,
  truncated at \<open>batch_size\<close>; \<open>err\<close> is the exception the parser ends with, if any. A batch's
  return value is ignored.
\<close>

fun process_batches :: "'r xenv \<Rightarrow> meta \<Rightarrow> 'r list list \<Rightarrow> xerror option \<Rightarrow> ('r, bool) xm" where
  "process_batches env m [] err = (case err of None \<Rightarrow> ret True | Some e \<Rightarrow> throw e)"
| "process_batches env m (rs # rest) err =
     bind (gets (\<lambda>s. px_records_in (x_ctx s))) (\<lambda>seen.
       case v_batch_size env of
         None \<Rightarrow>
           if rs = [] then process_batches env m rest err
           else bind (process_records env m (v_transforms env) rs True) (\<lambda>_. process_batches env m rest err)
       | Some b \<Rightarrow>
           if int b - seen \<le> 0 then ret True
           else
             let rs' = take (nat (int b - seen)) rs in
             if rs' = [] then process_batches env m rest err
             else
               bind (process_records env m (v_transforms env) rs' True) (\<lambda>_.
                 bind (gets (\<lambda>s. px_records_in (x_ctx s))) (\<lambda>now.
                   if b \<noteq> 0 \<and> now \<ge> int b then ret True else process_batches env m rest err)))"

definition process_chunk_incrementally :: "'r xenv \<Rightarrow> nat \<Rightarrow> string \<Rightarrow> meta \<Rightarrow> ('r, bool) xm" where
  "process_chunk_incrementally env csize raw m0 =
     bind (gets x_ctx) (\<lambda>ctx.
       let m = augment_chunk_meta m0 ctx in
       handle_tram env (ret False)
         (bind (count_bytes_in raw) (\<lambda>_.
            catch
              (case v_parse_chunks env raw csize of (batches, err) \<Rightarrow> process_batches env m batches err)
              (\<lambda>e. if is_tram e then throw e else parse_failure env (source_unit_key m) (exc_str e)))))"

section \<open>The commit barrier\<close>

record receipt =
  rc_key :: string
  rc_confirmed :: bool
  rc_notes :: string

definition commit_failure :: "'r xenv \<Rightarrow> string \<Rightarrow> ('r, unit) xm" where
  "commit_failure env msg =
     (if v_on_error env = OnContinue then ctx_do (NoteSkip msg) else throw (Tram msg))"

text \<open>Commit every sink until one raises (\<open>Inl\<close> its text).\<close>

fun collect_receipts :: "nat \<Rightarrow> 'r sink list \<Rightarrow> ('r, string + receipt list) xm" where
  "collect_receipts i [] = ret (Inr [])"
| "collect_receipts i (sk # sks) =
     bind (ask (sk_commit sk)) (\<lambda>a.
       case a of
         CommitRaises e \<Rightarrow> ret (Inl e)
       | Receipt k ok notes \<Rightarrow>
           bind (emit (ECommit i ok)) (\<lambda>_.
             bind (collect_receipts (Suc i) sks) (\<lambda>r.
               ret (case r of Inl e \<Rightarrow> Inl e
                    | Inr rs \<Rightarrow> Inr (\<lparr>rc_key = k, rc_confirmed = ok, rc_notes = notes\<rparr> # rs)))))"

fun check_latched :: "'r sink list \<Rightarrow> ('r, string option) xm" where
  "check_latched [] = ret None"
| "check_latched (sk # sks) =
     bind (ask (sk_latched sk)) (\<lambda>a.
       case a of
         NotLatched \<Rightarrow> check_latched sks
       | LatchedRaises e \<Rightarrow> ret (Some (''Sink latched_error check failed: '' @ e))
       | Latched e \<Rightarrow> ret (Some (''Sink has a latched delivery failure: '' @ e)))"

definition commit_sinks_receipts :: "'r xenv \<Rightarrow> ('r, receipt list option) xm" where
  "commit_sinks_receipts env =
     bind (collect_receipts 0 (v_sinks env)) (\<lambda>r.
       case r of
         Inl e \<Rightarrow> bind (commit_failure env (''Sink commit failed: '' @ e)) (\<lambda>_. ret None)
       | Inr rcs \<Rightarrow>
           (case List.find (\<lambda>rc. \<not> rc_confirmed rc) rcs of
              Some rc \<Rightarrow>
                bind (commit_failure env (''Sink commit unconfirmed: '' @ rc_key rc @ '': '' @ rc_notes rc))
                  (\<lambda>_. ret None)
            | None \<Rightarrow>
                bind (check_latched (v_sinks env)) (\<lambda>l.
                  case l of
                    Some msg \<Rightarrow> bind (commit_failure env msg) (\<lambda>_. ret None)
                  | None \<Rightarrow> ret (Some rcs))))"

section \<open>Checkpoint gate, acknowledgement, finalization\<close>

definition set_pending :: "'r xenv \<Rightarrow> ('r, bool) xm" where
  "set_pending env =
     bind (if v_strict env then del_do record_checkpoint_pending else skip) (\<lambda>_. ret (\<not> v_strict env))"

definition check_unit :: "'r xenv \<Rightarrow> meta \<Rightarrow> ('r, bool) xm" where
  "check_unit env m =
     (case (v_checkpoint env, v_unit_id env m) of
        (Some client, Some uid) \<Rightarrow>
          bind (ask client) (\<lambda>a.
            case a of
              Inl e \<Rightarrow> bind (emit (ECheckpoint uid False)) (\<lambda>_. set_pending env)
            | Inr r \<Rightarrow>
                bind (emit (ECheckpoint uid True)) (\<lambda>_.
                  bind (del_do (\<lambda>d. d\<lparr>d_revision :=
                          (case cr_revision r of Some v \<Rightarrow> v | None \<Rightarrow> d_revision d)\<rparr>)) (\<lambda>_. ret True)))
      | _ \<Rightarrow> set_pending env)"

fun finalize_source_for_sinks :: "nat \<Rightarrow> 'r sink list \<Rightarrow> bool \<Rightarrow> ('r, unit) xm" where
  "finalize_source_for_sinks i [] success = skip"
| "finalize_source_for_sinks i (sk # sks) success =
     bind (emit (ESinkFinal i success)) (\<lambda>_.
       bind (ask (sk_finalize sk)) (\<lambda>failed.
         bind (case failed of None \<Rightarrow> skip | Some e \<Rightarrow> ctx_do (NoteSkip (''Sink finalize failed: '' @ e))) (\<lambda>_.
           finalize_source_for_sinks (Suc i) sks success)))"

definition source_finalize :: "'r xenv \<Rightarrow> meta \<Rightarrow> bool \<Rightarrow> ('r, unit) xm" where
  "source_finalize env m success =
     bind (emit (EFinal m success)) (\<lambda>_.
       bind (ask (v_source_finalize env)) (\<lambda>failed.
         case failed of None \<Rightarrow> skip | Some e \<Rightarrow> throw e))"

definition ack_unit :: "'r xenv \<Rightarrow> meta \<Rightarrow> unit_outcome \<Rightarrow> ('r, unit) xm" where
  "ack_unit env m u =
     (case disposition (v_on_error env) u of
        None \<Rightarrow> skip
      | Some DELIVERED \<Rightarrow>
          bind (check_unit env m) (\<lambda>ok. if ok then emit (EAck m DELIVERED) else skip)
      | Some disp \<Rightarrow> emit (EAck m disp))"

definition finalize_batch_source_unit ::
  "'r xenv \<Rightarrow> unit_key \<Rightarrow> meta \<Rightarrow> unit_outcome option \<Rightarrow> bool \<Rightarrow> ('r, unit) xm" where
  "finalize_batch_source_unit env key m unit0 finalize_source =
     bind (commit_sinks_receipts env) (\<lambda>receipts.
       bind (finalize_source_for_sinks 0 (v_sinks env) (receipts \<noteq> None)) (\<lambda>_.
         bind (gets (\<lambda>s. case x_del s of
                  None \<Rightarrow> unit0
                | Some d \<Rightarrow> (case fst (take_unit key d) of Some u \<Rightarrow> Some u | None \<Rightarrow> unit0))) (\<lambda>u.
           bind (del_do (\<lambda>d. snd (take_unit key d))) (\<lambda>_.
             bind (if receipts \<noteq> None \<and> finalize_source
                   then (case u of None \<Rightarrow> skip | Some u \<Rightarrow> ack_unit env m u) else skip) (\<lambda>_.
               if finalize_source then source_finalize env m (receipts \<noteq> None) else skip)))))"

section \<open>The sequential chunk loop\<close>

text \<open>
  What a source yields: chunks with their metadata, and the exception the iteration ends
  with, if any.
\<close>

type_synonym source_run = "(string \<times> meta) list \<times> xerror option"

datatype loop_end = Exhausted | StoppedEarly | DrainStopped

definition file_meta :: "meta \<Rightarrow> meta" where
  "file_meta m =
     (if meta_truthy m ''source_path'' \<or> meta_truthy m ''source_filename''
      then dset ''enable_safe_finalize'' (MBool True) m else m)"

definition set_cur :: "current_unit option \<Rightarrow> ('r, unit) xm" where
  "set_cur c = modify (\<lambda>s. s\<lparr>x_cur := c\<rparr>)"

definition finalize_current :: "'r xenv \<Rightarrow> current_unit \<Rightarrow> bool \<Rightarrow> ('r, unit) xm" where
  "finalize_current env c finalize_source =
     finalize_batch_source_unit env (cu_key c) (cu_meta c) (cu_unit c) finalize_source"

text \<open>A chunk of another unit finalizes the current one and opens its own.\<close>

definition enter_unit :: "'r xenv \<Rightarrow> unit_key \<Rightarrow> meta \<Rightarrow> ('r, unit) xm" where
  "enter_unit env key m =
     bind (gets x_cur) (\<lambda>cur.
       bind (case cur of
               Some c \<Rightarrow>
                 if key \<noteq> cu_key c then bind (finalize_current env c True) (\<lambda>_. set_cur None) else skip
             | None \<Rightarrow> skip) (\<lambda>_.
         bind (gets x_cur) (\<lambda>cur'.
           case cur' of
             Some c \<Rightarrow> set_cur (Some (c\<lparr>cu_meta := m\<rparr>))
           | None \<Rightarrow>
               bind (del_do (register_unit key m)) (\<lambda>_.
                 bind (gets (\<lambda>s. case x_del s of None \<Rightarrow> None | Some d \<Rightarrow> dget (d_units d) key)) (\<lambda>u.
                   set_cur (Some \<lparr>cu_key = key, cu_meta = m, cu_unit = u\<rparr>))))))"

definition process_any_chunk :: "'r xenv \<Rightarrow> string \<Rightarrow> meta \<Rightarrow> ('r, bool) xm" where
  "process_any_chunk env raw m =
     (case v_record_chunk env of
        Some csize \<Rightarrow>
          if csize \<noteq> 0 then process_chunk_incrementally env csize raw m else process_chunk env raw m
      | None \<Rightarrow> process_chunk env raw m)"

text \<open>A broker record is a whole unit: it is finalized right after its chunk.\<close>

definition leave_broker_unit :: "'r xenv \<Rightarrow> unit_key \<Rightarrow> meta \<Rightarrow> ('r, unit) xm" where
  "leave_broker_unit env key m =
     (if broker_meta_unit_key m \<noteq> None
      then
        bind (gets (\<lambda>s. case x_cur s of Some c \<Rightarrow> cu_unit c | None \<Rightarrow> None)) (\<lambda>u.
          bind (finalize_batch_source_unit env key m u True) (\<lambda>_. set_cur None))
      else skip)"

fun batch_loop :: "'r xenv \<Rightarrow> (string \<times> meta) list \<Rightarrow> xerror option \<Rightarrow> ('r, loop_end) xm" where
  "batch_loop env [] err = (case err of None \<Rightarrow> ret Exhausted | Some e \<Rightarrow> throw e)"
| "batch_loop env ((raw, m0) # rest) err =
     bind (ask (v_stop env)) (\<lambda>stop.
       if stop then ret DrainStopped
       else
         bind (gets x_ctx) (\<lambda>ctx.
           case batch_source_unit_key (augment_chunk_meta m0 ctx) of
             (None, m) \<Rightarrow>
               bind (process_any_chunk env raw m) (\<lambda>_.
                 bind (gets (\<lambda>s. px_records_in (x_ctx s))) (\<lambda>n.
                   if (case v_batch_size env of Some b \<Rightarrow> b \<noteq> 0 \<and> n \<ge> int b | None \<Rightarrow> False)
                   then ret StoppedEarly else batch_loop env rest err))
           | (Some key, m) \<Rightarrow>
               bind (enter_unit env key (file_meta m)) (\<lambda>_.
                 bind (process_any_chunk env raw (file_meta m)) (\<lambda>_.
                   bind (leave_broker_unit env key (file_meta m)) (\<lambda>_.
                     bind (gets (\<lambda>s. px_records_in (x_ctx s))) (\<lambda>n.
                       if (case v_batch_size env of Some b \<Rightarrow> b \<noteq> 0 \<and> n \<ge> int b | None \<Rightarrow> False)
                       then ret StoppedEarly else batch_loop env rest err))))))"

definition run_batch_chunks_sequential :: "'r xenv \<Rightarrow> source_run \<Rightarrow> ('r, unit) xm" where
  "run_batch_chunks_sequential env src =
     bind (set_cur None) (\<lambda>_.
       bind (try_m (batch_loop env (fst src) (snd src))) (\<lambda>r.
         bind (gets x_cur) (\<lambda>cur.
           case r of
             Inl e \<Rightarrow>
               bind (case cur of
                       None \<Rightarrow> skip
                     | Some c \<Rightarrow>
                         bind (finalize_source_for_sinks 0 (v_sinks env) False) (\<lambda>_.
                           source_finalize env (cu_meta c) False)) (\<lambda>_. throw e)
           | Inr fin \<Rightarrow>
               (case cur of
                  None \<Rightarrow> skip
                | Some c \<Rightarrow> finalize_current env c (fin \<noteq> StoppedEarly)))))"

section \<open>The batch run\<close>

text \<open>The partial windows of a manual flush are written outside the delivery accounting.\<close>

definition without_accounting :: "('r, 'a) xm \<Rightarrow> ('r, 'a) xm" where
  "without_accounting m s =
     (case m (s\<lparr>x_del := None, x_stats := None\<rparr>) of
        (r, s') \<Rightarrow> (r, s'\<lparr>x_del := x_del s, x_stats := x_stats s\<rparr>))"

definition flush_windows :: "'r xenv \<Rightarrow> ('r, unit) xm" where
  "flush_windows env =
     (if v_flush env
      then
        bind (ask (v_flush_records env)) (\<lambda>rs.
          if rs = [] then skip
          else bind (try_m (without_accounting (process_records env [] [] rs True))) (\<lambda>_. skip))
      else skip)"

definition make_result :: "instant \<Rightarrow> run_status \<Rightarrow> string option \<Rightarrow> 'r xstate \<Rightarrow> run_result" where
  "make_result now status error s =
     (let r = from_context now (x_ctx s) status error
      in case x_del s of
           None \<Rightarrow> r
         | Some d \<Rightarrow>
             r\<lparr>rr_failed := d_failed d, rr_dlq_succeeded := d_dlq_ok d, rr_dlq_failed := d_dlq_failed d,
               rr_disposition := sink_disposition_map d, rr_spool := spool_counters d\<rparr>)"

definition batch_status :: "'r xenv \<Rightarrow> bool \<Rightarrow> bool \<Rightarrow> ('r, run_status \<times> string option) xm" where
  "batch_status env drained commit_ok =
     (if drained then bind (ask (v_stop_reason env)) (\<lambda>why. ret (Aborted, Some why))
      else
        bind (gets x_del) (\<lambda>d.
          ret (batch_outcome (v_on_error env) (case d of Some d \<Rightarrow> d | None \<Rightarrow> new_delivery) (\<not> commit_ok), None)))"

definition batch_attempt :: "'r xenv \<Rightarrow> source_run \<Rightarrow> ('r, run_result) xm" where
  "batch_attempt env src =
     bind (run_batch_chunks_sequential env src) (\<lambda>_.
       bind (ask (v_stop env)) (\<lambda>drained.
         bind (flush_windows env) (\<lambda>_.
           bind (commit_sinks_receipts env) (\<lambda>receipts.
             bind (if receipts \<noteq> None \<and> \<not> drained
                   then bind (ask (v_completion_error env)) (\<lambda>msg.
                          case msg of
                            Some t \<Rightarrow> if t \<noteq> [] then throw (Tram t) else skip
                          | None \<Rightarrow> skip)
                   else skip) (\<lambda>_.
               bind (batch_status env drained (receipts \<noteq> None)) (\<lambda>st.
                 bind (ask (v_now env)) (\<lambda>now.
                   bind (gets (make_result now (fst st) (snd st))) (\<lambda>res.
                     bind (if v_has_store env then emit ESave else skip) (\<lambda>_. ret res)))))))))"

definition fresh_context :: "instant \<Rightarrow> run_context \<Rightarrow> run_context" where
  "fresh_context now ctx =
     \<lparr>px_pipeline = px_pipeline ctx, px_run = px_run ctx, px_started = now, px_records_in = 0,
      px_records_out = 0, px_records_skipped = 0, px_bytes_in = 0, px_bytes_out = 0, px_dlq = 0,
      px_errors = []\<rparr>"

text \<open>
  The attempts of a run: \<open>left\<close> retries remain, \<open>srcs k\<close> is what the source yields in attempt
  \<open>k\<close>, \<open>revision\<close> the hydrated state revision. Every attempt has its own accounting.
\<close>

definition start_attempt :: "'r xenv \<Rightarrow> int \<Rightarrow> source_run \<Rightarrow> ('r, xerror + run_result) xm" where
  "start_attempt env revision src =
     bind (modify (\<lambda>s. s\<lparr>x_del := Some (new_delivery\<lparr>d_revision := revision\<rparr>)\<rparr>)) (\<lambda>_.
       try_m (batch_attempt env src))"

fun batch_attempts :: "'r xenv \<Rightarrow> int \<Rightarrow> (nat \<Rightarrow> source_run) \<Rightarrow> nat \<Rightarrow> nat \<Rightarrow> ('r, run_result) xm" where
  "batch_attempts env revision srcs k 0 =
     bind (start_attempt env revision (srcs k)) (\<lambda>r.
       case r of
         Inr res \<Rightarrow> ret res
       | Inl e \<Rightarrow>
           if \<not> is_tram e then throw e
           else bind (ask (v_now env)) (\<lambda>now. gets (make_result now Failed (Some (exc_str e)))))"
| "batch_attempts env revision srcs k (Suc left) =
     bind (start_attempt env revision (srcs k)) (\<lambda>r.
       case r of
         Inr res \<Rightarrow> ret res
       | Inl e \<Rightarrow>
           if \<not> is_tram e then throw e
           else
             bind (ask (v_now env)) (\<lambda>now.
               bind (modify (\<lambda>s. s\<lparr>x_ctx := fresh_context now (x_ctx s),
                                   x_stats := map_option stats_reset (x_stats s)\<rparr>)) (\<lambda>_.
                 batch_attempts env revision srcs (Suc k) left)))"

definition batch_run :: "'r xenv \<Rightarrow> nat \<Rightarrow> int \<Rightarrow> (nat \<Rightarrow> source_run) \<Rightarrow> ('r, run_result) xm" where
  "batch_run env retry_count revision srcs =
     batch_attempts env revision srcs 0 (if v_on_error env = OnRetry then retry_count else 0)"

definition init_xstate :: "run_context \<Rightarrow> pipeline_stats option \<Rightarrow> (string, int \<times> int) dict \<Rightarrow> 'r xstate" where
  "init_xstate ctx stats cb =
     \<lparr>x_n = 0, x_ctx = ctx, x_stats = stats, x_del = None, x_cb = cb, x_cur = None,
      x_buf = empty_buffer, x_log = []\<rparr>"

end
