(* ===== verification/Executor_Props.thy ===== *)
theory Executor_Props
  imports Executor
begin

text \<open>
  Properties of the batch executor. \<open>keeps P m\<close> says that the computation \<open>m\<close> preserves \<open>P\<close>,
  whether it returns or raises; the locale \<open>exec_invariant\<close> collects what a condition must
  satisfy to survive a whole run, and is interpreted for the acknowledgement discipline (a
  condition on the log) and for the sign of the loss counters (a condition on the accounting).
\<close>

section \<open>Computations that keep a condition\<close>

named_theorems keeps_rules "introduction rules for preserved conditions"

definition keeps :: "('r xstate \<Rightarrow> bool) \<Rightarrow> ('r, 'a) xm \<Rightarrow> bool" where
  "keeps P m \<longleftrightarrow> (\<forall>s. P s \<longrightarrow> P (snd (m s)))"

lemma keepsD: "keeps P m \<Longrightarrow> P s \<Longrightarrow> P (snd (m s))"
  by (simp add: keeps_def)

lemma keeps_ret [keeps_rules]: "keeps P (ret a)"
  by (simp add: keeps_def ret_def)

lemma keeps_throw [keeps_rules]: "keeps P (throw e)"
  by (simp add: keeps_def throw_def)

lemma keeps_gets [keeps_rules]: "keeps P (gets f)"
  by (simp add: keeps_def gets_def)

lemma keeps_skip [keeps_rules]: "keeps P skip"
  by (simp add: skip_def keeps_ret)

lemma keeps_bind [keeps_rules]: "keeps P m \<Longrightarrow> (\<And>a. keeps P (f a)) \<Longrightarrow> keeps P (bind m f)"
  by (fastforce simp: keeps_def bind_def split: prod.splits sum.splits)

lemma keeps_catch [keeps_rules]: "keeps P m \<Longrightarrow> (\<And>e. keeps P (h e)) \<Longrightarrow> keeps P (catch m h)"
  by (fastforce simp: keeps_def catch_def split: prod.splits sum.splits)

lemma keeps_try [keeps_rules]: "keeps P m \<Longrightarrow> keeps P (try_m m)"
  by (simp add: keeps_def try_m_def case_prod_unfold)

lemma keeps_if [keeps_rules]: "(b \<Longrightarrow> keeps P m) \<Longrightarrow> (\<not> b \<Longrightarrow> keeps P m') \<Longrightarrow> keeps P (if b then m else m')"
  by simp

lemma keeps_let [keeps_rules]: "keeps P (f a) \<Longrightarrow> keeps P (let x = a in f x)"
  by simp

lemma keeps_option [keeps_rules]:
  "(x = None \<Longrightarrow> keeps P m) \<Longrightarrow> (\<And>a. x = Some a \<Longrightarrow> keeps P (f a)) \<Longrightarrow> keeps P (case x of None \<Rightarrow> m | Some a \<Rightarrow> f a)"
  by (cases x) auto

lemma keeps_sum [keeps_rules]:
  "(\<And>a. x = Inl a \<Longrightarrow> keeps P (f a)) \<Longrightarrow> (\<And>b. x = Inr b \<Longrightarrow> keeps P (g b)) \<Longrightarrow>
     keeps P (case x of Inl a \<Rightarrow> f a | Inr b \<Rightarrow> g b)"
  by (cases x) auto

lemma keeps_prod [keeps_rules]: "(\<And>a b. x = (a, b) \<Longrightarrow> keeps P (f a b)) \<Longrightarrow> keeps P (case x of (a, b) \<Rightarrow> f a b)"
  by (cases x) auto

text \<open>Sequencing after a step whose answer is known.\<close>

lemma bind_steps:
  "bind (ret a) p s = p a s" "bind skip q s = q () s" "bind (gets g) p' s = p' (g s) s"
  "bind (modify h) q s = q () (h s)" "bind (del_do u) q s = q () (s\<lparr>x_del := map_option u (x_del s)\<rparr>)"
  by (simp_all add: bind_def skip_def ret_def gets_def modify_def del_do_def)

lemma keeps_modify: "(\<And>s. P s \<Longrightarrow> P (f s)) \<Longrightarrow> keeps P (modify f)"
  by (simp add: keeps_def modify_def)

lemma keeps_ask: "(\<And>s n. P s \<Longrightarrow> P (s\<lparr>x_n := n\<rparr>)) \<Longrightarrow> keeps P (ask f)"
  by (simp add: keeps_def ask_def)

lemmas exec_defs =
  write_dlq_envelope_def dlq_record_def transform_failure_def trip_breaker_def partition_failed_def
  breaker_open_def write_one_sink_def write_all_sinks_def handle_tram_def process_records_body_def
  process_records_def parse_failure_def count_bytes_in_def process_chunk_def
  process_chunk_incrementally_def commit_failure_def commit_sinks_receipts_def set_pending_def
  check_unit_def source_finalize_def process_any_chunk_def emit_def ctx_do_def stats_do_def del_do_def

section \<open>Conditions that survive a run\<close>

text \<open>The updates of the accounting the executor makes, besides taking and registering units.\<close>

inductive accounting_update :: "(delivery \<Rightarrow> delivery) \<Rightarrow> bool" where
  A_loss: "0 \<le> a \<Longrightarrow> 0 \<le> b \<Longrightarrow> 0 \<le> c \<Longrightarrow> accounting_update (record_loss key a b c)"
| A_chunk: "accounting_update (record_chunk key a b)"
| A_sink: "accounting_update (record_sink t a b c)"
| A_spool: "accounting_update (record_spool ok)"
| A_pending: "accounting_update record_checkpoint_pending"
| A_revision: "accounting_update (\<lambda>d. d\<lparr>d_revision := (case r of Some v \<Rightarrow> v | None \<Rightarrow> d_revision d)\<rparr>)"
| A_register: "accounting_update (register_unit key m)"
| A_take: "accounting_update (\<lambda>d. snd (take_unit key d))"
| A_unit: "accounting_update (update_unit key g)"
| A_gaps: "accounting_update (\<lambda>d. d\<lparr>d_gaps := gs d\<rparr>)"
| A_id: "accounting_update (\<lambda>d. d)"
| A_comp: "accounting_update g \<Longrightarrow> accounting_update h \<Longrightarrow> accounting_update (\<lambda>d. h (g d))"

text \<open>Everything but an acknowledgement may be logged without breaking the condition.\<close>

locale exec_steps =
  fixes env :: "'r xenv" and P :: "'r xstate \<Rightarrow> bool"
  assumes P_irrelevant: "P s \<Longrightarrow> P (s\<lparr>x_n := n\<rparr>)" "P s \<Longrightarrow> P (s\<lparr>x_ctx := c\<rparr>)"
      "P s \<Longrightarrow> P (s\<lparr>x_stats := st\<rparr>)" "P s \<Longrightarrow> P (s\<lparr>x_cb := cb\<rparr>)" "P s \<Longrightarrow> P (s\<lparr>x_cur := cu\<rparr>)"
      "P s \<Longrightarrow> P (s\<lparr>x_buf := bu\<rparr>)"
    and P_event: "P s \<Longrightarrow> (\<And>m d. e \<noteq> EAck m d) \<Longrightarrow> P (s\<lparr>x_log := x_log s @ [e]\<rparr>)"
    and P_accounting: "P s \<Longrightarrow> accounting_update f \<Longrightarrow> P (s\<lparr>x_del := map_option f (x_del s)\<rparr>)"
    and P_none: "P s \<Longrightarrow> P (s\<lparr>x_del := None\<rparr>)"
    and P_new: "P s \<Longrightarrow> P (s\<lparr>x_del := Some (new_delivery\<lparr>d_revision := r\<rparr>)\<rparr>)"
    and P_restore: "P s \<Longrightarrow> P t \<Longrightarrow> P (s\<lparr>x_del := x_del t\<rparr>)"
begin

lemma k_ask: "keeps P (ask f)"
  by (rule keeps_ask) (rule P_irrelevant)

lemma k_ctx: "keeps P (ctx_do op)"
  unfolding ctx_do_def by (rule keeps_modify) (rule P_irrelevant)

lemma k_stats: "keeps P (stats_do a)"
  unfolding stats_do_def by (rule keeps_modify) (rule P_irrelevant)

lemma k_del: "accounting_update f \<Longrightarrow> keeps P (del_do f)"
  unfolding del_do_def by (rule keeps_modify) (rule P_accounting)

lemma k_emit: "(\<And>m d. e \<noteq> EAck m d) \<Longrightarrow> keeps P (emit e)"
  unfolding emit_def by (rule keeps_modify) (rule P_event)

lemma k_cb: "keeps P (modify (\<lambda>s. s\<lparr>x_cb := g s\<rparr>))"
  by (rule keeps_modify) (rule P_irrelevant)

lemma k_cb_if: "keeps P (modify (\<lambda>s. if b then s\<lparr>x_cb := g s\<rparr> else s))"
  by (rule keeps_modify) (simp add: P_irrelevant)

lemma k_cur: "keeps P (set_cur c)"
  unfolding set_cur_def by (rule keeps_modify) (rule P_irrelevant)

lemma k_buf: "keeps P (modify (\<lambda>s. s\<lparr>x_buf := g s\<rparr>))"
  by (rule keeps_modify) (rule P_irrelevant)

lemmas k_accounting = A_loss A_chunk A_sink A_spool A_pending A_revision A_register A_take

lemmas k_basic = k_ask k_ctx k_stats k_del k_emit k_cb k_cb_if k_cur k_buf keeps_rules k_accounting

lemma k_dlq: "keeps P (dlq_record env key dlq stage)"
  unfolding dlq_record_def write_dlq_envelope_def by (intro k_basic) (auto simp: int_of_bool_def)

lemma k_transform_failure: "keeps P (transform_failure env key what exc)"
  unfolding transform_failure_def by (intro k_basic k_dlq) auto

lemma k_chain: "keeps P (apply_chain ts rs)"
  by (induction ts arbitrary: rs) (auto intro!: k_basic)

lemma k_global: "keeps P (apply_global_transforms env key ts rs)"
  by (induction rs) (auto intro!: k_basic k_chain k_transform_failure)

lemma k_write_attempts: "keeps P (write_attempts k i sk rs sz)"
  by (induction k) (auto intro!: k_basic)

lemma k_partition_failed: "keeps P (partition_failed env key sk rs exc)"
  unfolding partition_failed_def trip_breaker_def by (intro k_basic k_dlq) auto

lemma k_write_partitions: "keeps P (write_partitions env key i sk ps w)"
  by (induction ps arbitrary: w) (auto intro!: k_basic k_write_attempts k_partition_failed)

lemma k_write_one_sink: "keeps P (write_one_sink env key rs i sk)"
  unfolding write_one_sink_def breaker_open_def
  by (intro k_basic k_chain k_transform_failure k_write_partitions) auto

lemma k_write_sinks: "keeps P (write_sinks env key rs i sks)"
  by (induction sks arbitrary: i) (auto intro!: k_basic k_write_one_sink)

lemma k_run_sinks: "keeps P (run_sinks env key rs i sks)"
  by (induction sks arbitrary: i) (auto intro!: k_basic k_write_one_sink)

lemma k_collect: "keeps P (collect_results ws)"
  by (induction ws) (auto intro!: k_basic)

lemma k_write_all: "keeps P (write_all_sinks env key rs)"
  unfolding write_all_sinks_def by (intro k_basic k_write_sinks k_run_sinks k_collect)

lemma k_handle: "keeps P after \<Longrightarrow> keeps P m \<Longrightarrow> keeps P (handle_tram env after m)"
  unfolding handle_tram_def by (intro k_basic) auto

lemma k_process_records: "keeps P (process_records env m ts rs c)"
  unfolding process_records_def process_records_body_def
  by (intro k_handle k_basic k_global k_write_all)

lemma k_parse_failure: "keeps P (parse_failure env key exc)"
  unfolding parse_failure_def by (intro k_basic k_dlq) auto

lemma k_process_chunk: "keeps P (process_chunk env raw m)"
  unfolding process_chunk_def count_bytes_in_def
  by (intro k_basic k_handle k_parse_failure k_process_records)

lemma k_process_batches: "keeps P (process_batches env m bs err)"
  by (induction bs) (auto intro!: k_basic k_process_records)

lemma k_incremental: "keeps P (process_chunk_incrementally env n raw m)"
  unfolding process_chunk_incrementally_def count_bytes_in_def
  by (intro k_basic k_handle k_parse_failure k_process_batches)

lemma k_any_chunk: "keeps P (process_any_chunk env raw m)"
  unfolding process_any_chunk_def by (intro k_basic k_incremental k_process_chunk)

lemma k_receipts: "keeps P (collect_receipts i sks)"
  by (induction sks arbitrary: i) (auto intro!: k_basic split: commit_answer.split)

lemma k_latched: "keeps P (check_latched sks)"
  by (induction sks) (auto intro!: k_basic split: latched_answer.split)

lemma k_commit: "keeps P (commit_sinks_receipts env)"
  unfolding commit_sinks_receipts_def commit_failure_def
  by (intro k_basic k_receipts k_latched)

lemma k_finalize_sinks: "keeps P (finalize_source_for_sinks i sks ok)"
  by (induction sks arbitrary: i) (auto intro!: k_basic)

lemma k_source_finalize: "keeps P (source_finalize env m ok)"
  unfolding source_finalize_def by (intro k_basic) auto

end

text \<open>A condition that finalizing a unit keeps as well survives the whole run.\<close>

locale exec_invariant = exec_steps +
  assumes P_finalize: "keeps P (finalize_batch_source_unit env key m u fin)"
begin

lemma k_enter: "keeps P (enter_unit env key m)"
  unfolding enter_unit_def finalize_current_def by (intro k_basic P_finalize)

lemma k_leave: "keeps P (leave_broker_unit env key m)"
  unfolding leave_broker_unit_def by (intro k_basic P_finalize)

lemma k_loop: "keeps P (batch_loop env cs err)"
  by (induction cs) (auto intro!: k_basic k_any_chunk k_enter k_leave)

lemma k_chunks: "keeps P (run_batch_chunks_sequential env src)"
  unfolding run_batch_chunks_sequential_def finalize_current_def
  by (intro k_basic k_loop k_finalize_sinks k_source_finalize P_finalize)

lemma k_without_accounting: "keeps P m \<Longrightarrow> keeps P (without_accounting m)"
proof -
  assume m: "keeps P m"
  have "P (snd (without_accounting m s))" if "P s" for s
  proof -
    have "P (s\<lparr>x_del := None, x_stats := None\<rparr>)" using that by (simp add: P_irrelevant P_none)
    then have "P (snd (m (s\<lparr>x_del := None, x_stats := None\<rparr>)))" by (rule keepsD [OF m])
    then show ?thesis using that by (simp add: without_accounting_def case_prod_unfold P_irrelevant P_restore)
  qed
  then show ?thesis by (simp add: keeps_def)
qed

lemma k_flush: "keeps P (flush_windows env)"
  unfolding flush_windows_def by (intro k_basic k_without_accounting k_process_records)

lemma k_batch_attempt: "keeps P (batch_attempt env src)"
  unfolding batch_attempt_def batch_status_def
  by (intro k_basic k_chunks k_flush k_commit) auto

lemma k_start: "keeps P (start_attempt env r src)"
  unfolding start_attempt_def by (intro k_basic k_batch_attempt keeps_modify P_new)

lemma k_attempts: "keeps P (batch_attempts env r srcs k left)"
  by (induction left arbitrary: k) (auto intro!: k_basic k_start keeps_modify P_irrelevant)

lemma k_batch_run: "keeps P (batch_run env rc r srcs)"
  unfolding batch_run_def by (rule k_attempts)

end

section \<open>Acknowledgements are durable\<close>

text \<open>Sink \<open>i\<close> has accepted records since its last confirmed commit.\<close>

fun flush_step :: "nat \<Rightarrow> bool \<Rightarrow> 'r event \<Rightarrow> bool" where
  "flush_step i b (EWrite j rs) = (j = i \<or> b)"
| "flush_step i b (ECommit j ok) = (b \<and> \<not> (j = i \<and> ok))"
| "flush_step i b e = b"

definition unflushed :: "nat \<Rightarrow> 'r event list \<Rightarrow> bool" where
  "unflushed i l = foldl (flush_step i) False l"


text \<open>Every acknowledgement of a log satisfies a condition on the events before it.\<close>

fun acks_by_rev :: "(ack_disposition \<Rightarrow> 'r event list \<Rightarrow> bool) \<Rightarrow> 'r event list \<Rightarrow> bool" where
  "acks_by_rev A [] = True"
| "acks_by_rev A (e # es) =
     (acks_by_rev A es \<and> (case e of EAck m d \<Rightarrow> A d (rev es) | _ \<Rightarrow> True))"

definition acks_by :: "(ack_disposition \<Rightarrow> 'r event list \<Rightarrow> bool) \<Rightarrow> 'r event list \<Rightarrow> bool" where
  "acks_by A l = acks_by_rev A (rev l)"

lemma acks_by_Nil [simp]: "acks_by A []"
  by (simp add: acks_by_def)

lemma acks_by_snoc [simp]:
  "acks_by A (l @ [e]) \<longleftrightarrow> acks_by A l \<and> (case e of EAck m d \<Rightarrow> A d l | _ \<Rightarrow> True)"
  by (cases e) (simp_all add: acks_by_def)

lemma acks_by_split: "acks_by A (l1 @ EAck m d # l2) \<Longrightarrow> A d l1"
proof (induction l2 rule: rev_induct)
  case (snoc e l2)
  then have "acks_by A ((l1 @ EAck m d # l2) @ [e])" by simp
  then show ?case using snoc.IH by (simp only: acks_by_snoc)
qed simp

lemma unflushed_snoc [simp]: "unflushed i (l @ [e]) = flush_step i (unflushed i l) e"
  by (simp add: unflushed_def)

lemma unflushed_commits:
  "unflushed i (l @ map (\<lambda>j. ECommit j True) js) \<longleftrightarrow> unflushed i l \<and> i \<notin> set js"
proof (induction js rule: rev_induct)
  case (snoc j js)
  then show ?case by (auto simp flip: append_assoc)
qed simp

text \<open>The barrier either fails or commits every sink.\<close>

lemma collect_receipts_log:
  "collect_receipts i sks s = (r, s') \<Longrightarrow> r = Inr (Inr rcs) \<Longrightarrow>
     x_log s' = x_log s @ map (\<lambda>(j, rc). ECommit j (rc_confirmed rc)) (enumerate i rcs) \<and>
     length rcs = length sks"
proof (induction sks arbitrary: i s r s' rcs)
  case Nil
  then show ?case by (simp add: ret_def)
next
  case (Cons sk sks)
  show ?case
  proof (cases "sk_commit sk (x_n s)")
    case (CommitRaises e)
    then show ?thesis using Cons.prems by (simp add: bind_def ask_def ret_def)
  next
    case (Receipt k ok nts)
    let ?s1 = "s\<lparr>x_n := Suc (x_n s), x_log := x_log s @ [ECommit i ok]\<rparr>"
    obtain q s2 where rest: "collect_receipts (Suc i) sks ?s1 = (q, s2)"
      by (cases "collect_receipts (Suc i) sks ?s1") auto
    then obtain rcs' where q: "q = Inr (Inr rcs')" "rcs = \<lparr>rc_key = k, rc_confirmed = ok, rc_notes = nts\<rparr> # rcs'"
        "s' = s2"
      using Cons.prems Receipt
      by (auto simp: bind_def ask_def emit_def modify_def ret_def split: sum.splits prod.splits)
    show ?thesis using Cons.IH [OF rest q(1)] q(2,3) by simp
  qed
qed

lemma check_latched_log: "x_log (snd (check_latched sks s)) = x_log s"
  by (induction sks arbitrary: s)
    (auto simp: bind_def ask_def ret_def split: latched_answer.splits)

lemma commit_failure_not_Some:
  "bind (commit_failure env msg) (\<lambda>_. ret None) s = (Inr x, s') \<Longrightarrow> x = None"
  by (auto simp: bind_def commit_failure_def ctx_do_def modify_def throw_def ret_def split: if_splits)

lemma commit_barrier:
  assumes "commit_sinks_receipts env s = (Inr (Some rcs), s')"
  shows "x_log s' = x_log s @ map (\<lambda>j. ECommit j True) [0..<length (v_sinks env)]"
proof -
  obtain r s1 where c: "collect_receipts 0 (v_sinks env) s = (r, s1)"
    by (cases "collect_receipts 0 (v_sinks env) s") auto
  obtain rcs' where r: "r = Inr (Inr rcs')" "List.find (\<lambda>rc. \<not> rc_confirmed rc) rcs' = None"
    and l: "bind (check_latched (v_sinks env)) (\<lambda>l. case l of
        Some msg \<Rightarrow> bind (commit_failure env msg) (\<lambda>_. ret None) | None \<Rightarrow> ret (Some rcs')) s1 = (Inr (Some rcs), s')"
    using assms c commit_failure_not_Some
    by (fastforce simp: commit_sinks_receipts_def bind_def [of "collect_receipts _ _"]
        split: sum.splits option.splits prod.splits)
  obtain la s2 where la: "check_latched (v_sinks env) s1 = (la, s2)" by (cases "check_latched (v_sinks env) s1") auto
  have "s' = s2"
    using l la commit_failure_not_Some
    by (fastforce simp: bind_def [of "check_latched _"] ret_def split: sum.splits option.splits)
  then have s': "x_log s' = x_log s1" using check_latched_log la by (metis snd_conv)
  have log: "x_log s1 = x_log s @ map (\<lambda>(j, rc). ECommit j (rc_confirmed rc)) (enumerate 0 rcs')"
    and len: "length rcs' = length (v_sinks env)"
    using collect_receipts_log [OF c r(1)] by auto
  have "map (\<lambda>(j, rc). ECommit j (rc_confirmed rc)) (enumerate 0 rcs') = map (\<lambda>j. ECommit j True) [0..<length rcs']"
    using r(2) by (auto simp: enumerate_eq_zip find_None_iff intro!: nth_equalityI)
  then show ?thesis using s' log len by simp
qed



definition barrier_passed :: "(ack_disposition \<Rightarrow> 'r event list \<Rightarrow> bool) \<Rightarrow> nat \<Rightarrow> 'r xstate \<Rightarrow> bool" where
  "barrier_passed A n s \<longleftrightarrow>
     acks_by A (x_log s) \<and> list_all (\<lambda>i. \<not> unflushed i (x_log s)) [0..<n]"


lemma barrier_passed_frame [simp]:
  "barrier_passed A n (s\<lparr>x_n := k\<rparr>) = barrier_passed A n s"
  "barrier_passed A n (s\<lparr>x_ctx := c\<rparr>) = barrier_passed A n s"
  "barrier_passed A n (s\<lparr>x_del := d\<rparr>) = barrier_passed A n s"
  by (simp_all add: barrier_passed_def)


















section \<open>A clean success lost nothing\<close>

text \<open>The loss counters never go below zero.\<close>

definition counts_ok :: "'r xstate \<Rightarrow> bool" where
  "counts_ok s =
     (case x_del s of None \<Rightarrow> True | Some d \<Rightarrow> 0 \<le> d_failed d \<and> 0 \<le> d_dlq_failed d \<and> 0 \<le> d_pending d)"

lemma counts_ok_frame [simp]:
  "counts_ok (s\<lparr>x_n := k\<rparr>) = counts_ok s" "counts_ok (s\<lparr>x_ctx := c\<rparr>) = counts_ok s"
  "counts_ok (s\<lparr>x_stats := st\<rparr>) = counts_ok s" "counts_ok (s\<lparr>x_cb := cb\<rparr>) = counts_ok s"
  "counts_ok (s\<lparr>x_cur := cu\<rparr>) = counts_ok s" "counts_ok (s\<lparr>x_log := l\<rparr>) = counts_ok s"
  "counts_ok (s\<lparr>x_buf := bu\<rparr>) = counts_ok s"
  by (simp_all add: counts_ok_def)

lemma update_unit_counts [simp]:
  "d_failed (update_unit key f d) = d_failed d" "d_dlq_failed (update_unit key f d) = d_dlq_failed d"
  "d_pending (update_unit key f d) = d_pending d"
  by (simp_all add: update_unit_def split: option.splits)

lemma accounting_counts:
  "accounting_update f \<Longrightarrow> 0 \<le> d_failed d \<and> 0 \<le> d_dlq_failed d \<and> 0 \<le> d_pending d \<Longrightarrow>
     0 \<le> d_failed (f d) \<and> 0 \<le> d_dlq_failed (f d) \<and> 0 \<le> d_pending (f d)"
  by (induction arbitrary: d rule: accounting_update.induct)
    (auto simp: record_loss_def record_chunk_def record_sink_def record_spool_def
      record_checkpoint_pending_def register_unit_def take_unit_def Let_def)

lemma counts_ok_steps: "exec_steps counts_ok"
  by unfold_locales
    (auto simp: counts_ok_def new_delivery_def dest: accounting_counts split: option.splits)

interpretation count_steps: exec_steps env counts_ok for env :: "'r xenv"
  by (rule counts_ok_steps)

lemma counts_ok_finalize: "keeps counts_ok (finalize_batch_source_unit env key m u fin)"
proof -
  have ack: "keeps counts_ok (emit (EAck m d))" for d
    by (simp add: keeps_def emit_def modify_def)
  have check: "keeps counts_ok (check_unit env m)"
    unfolding check_unit_def set_pending_def by (intro count_steps.k_basic) auto
  have "keeps counts_ok (ack_unit env m u)" for u
    unfolding ack_unit_def
    by (auto intro!: keeps_option keeps_bind keeps_if keeps_skip ack check split: ack_disposition.split)
  then show ?thesis
    unfolding finalize_batch_source_unit_def
    by (intro count_steps.k_basic count_steps.k_commit count_steps.k_finalize_sinks
        count_steps.k_source_finalize)
qed

lemma counts_ok_invariant: "exec_invariant env counts_ok"
  by (intro exec_invariant.intro counts_ok_steps exec_invariant_axioms.intro counts_ok_finalize)

interpretation counts: exec_invariant env counts_ok for env :: "'r xenv"
  by (rule counts_ok_invariant)

lemma bind_InrE:
  assumes "bind p q s = (Inr x, s')"
  obtains y s1 where "p s = (Inr y, s1)" "q y s1 = (Inr x, s')"
  using assms by (auto simp: bind_def split: prod.splits sum.splits)

definition all_flushed :: "nat \<Rightarrow> 'r xstate \<Rightarrow> bool" where
  "all_flushed n s = list_all (\<lambda>i. \<not> unflushed i (x_log s)) [0..<n]"

definition nothing_lost :: "on_error \<Rightarrow> run_result \<Rightarrow> 'r xstate \<Rightarrow> bool" where
  "nothing_lost oe res s \<longleftrightarrow>
     (oe = OnContinue \<or> oe = OnRetry \<longrightarrow> rr_failed res = 0 \<and> rr_dlq_failed res = 0) \<and>
     (case x_del s of None \<Rightarrow> True | Some d \<Rightarrow> d_pending d = 0)"

lemma batch_status_Success:
  assumes "batch_status env drained ok s = (Inr st, s')" "fst st = Success" "counts_ok s"
  shows "s' = s \<and> ok \<and> nothing_lost (v_on_error env) (make_result now (fst st) (snd st) s) s"
  using assms
  by (auto simp: batch_status_def bind_def ask_def ret_def gets_def batch_outcome_def has_loss_def
      has_pending_checkpoints_def nothing_lost_def counts_ok_def make_result_def from_context_def Let_def
      split: if_splits option.splits)

lemma batch_attempt_Success:
  assumes "batch_attempt env src s = (Inr res, s')" "rr_status res = Success" "counts_ok s"
  shows "all_flushed (length (v_sinks env)) s' \<and> nothing_lost (v_on_error env) res s'"
proof -
  obtain u1 s1 b s2 u2 s3 receipts s4 u3 s5 st s6 now s7 r s8 u4 s9 where
      1: "run_batch_chunks_sequential env src s = (Inr u1, s1)"
    and 2: "ask (v_stop env) s1 = (Inr b, s2)"
    and 3: "flush_windows env s2 = (Inr u2, s3)"
    and 4: "commit_sinks_receipts env s3 = (Inr receipts, s4)"
    and 5: "(if receipts \<noteq> None \<and> \<not> b
            then bind (ask (v_completion_error env)) (\<lambda>msg.
                   case msg of Some t \<Rightarrow> if t \<noteq> [] then throw (Tram t) else skip | None \<Rightarrow> skip)
            else skip) s4 = (Inr u3, s5)"
    and 6: "batch_status env b (receipts \<noteq> None) s5 = (Inr st, s6)"
    and 7: "ask (v_now env) s6 = (Inr now, s7)"
    and 8: "gets (make_result now (fst st) (snd st)) s7 = (Inr r, s8)"
    and 9: "(if v_has_store env then emit ESave else skip) s8 = (Inr u4, s9)"
    and res: "res = r" "s' = s9"
    using assms(1) unfolding batch_attempt_def
    by (elim bind_InrE) (simp add: ret_def)
  have st: "fst st = Success"
    using assms(2) res 8
    by (auto simp: gets_def make_result_def from_context_def Let_def split: option.splits)
  have "counts_ok s1" using keepsD [OF counts.k_chunks assms(3)] 1 by (metis snd_conv)
  then have "counts_ok s2" using 2 by (auto simp: ask_def)
  then have "counts_ok s3" using keepsD [OF counts.k_flush] 3 by (metis snd_conv)
  then have "counts_ok s4" using keepsD [OF count_steps.k_commit] 4 by (metis snd_conv)
  moreover have s5: "\<exists>k. s5 = s4\<lparr>x_n := k\<rparr>"
    using 5 by (auto simp: bind_def ask_def skip_def ret_def throw_def split: if_splits option.splits
        intro: exI [of _ "x_n s4"])
  ultimately have "counts_ok s5" by auto
  note status = batch_status_Success [OF 6 st this]
  obtain rcs where rcs: "receipts = Some rcs" using status by auto
  have fl: "all_flushed (length (v_sinks env)) s4"
    using commit_barrier [OF 4 [unfolded rcs]]
    by (auto simp: all_flushed_def list_all_iff unflushed_commits)
  have s7: "s7 = s5\<lparr>x_n := Suc (x_n s5)\<rparr>" "r = make_result now (fst st) (snd st) s7" "s8 = s7"
    using 7 8 status by (auto simp: ask_def gets_def)
  have s9: "x_del s9 = x_del s8" "x_log s9 = x_log s8 \<or> x_log s9 = x_log s8 @ [ESave]"
    using 9 by (auto simp: emit_def modify_def skip_def ret_def split: if_splits)
  have "nothing_lost (v_on_error env) res s'"
    using status res s7 s9 by (auto simp: nothing_lost_def make_result_def)
  moreover have "all_flushed (length (v_sinks env)) s'"
    using fl s5 s7 s9 res by (auto simp: all_flushed_def list_all_iff)
  ultimately show ?thesis by simp
qed

lemma batch_attempts_Success:
  assumes "batch_attempts env rv srcs k left s = (Inr res, s')" "rr_status res = Success" "counts_ok s"
  shows "all_flushed (length (v_sinks env)) s' \<and> nothing_lost (v_on_error env) res s'"
  using assms
proof (induction left arbitrary: k s)
  case (0 k s)
  let ?s = "s\<lparr>x_del := Some (new_delivery\<lparr>d_revision := rv\<rparr>)\<rparr>"
  have "counts_ok ?s" by (simp add: counts_ok_def new_delivery_def)
  moreover have "batch_attempt env (srcs k) ?s = (Inr res, s')"
    using 0 by (auto simp: start_attempt_def bind_def modify_def try_m_def throw_def ask_def gets_def ret_def
        make_result_def from_context_def Let_def split: prod.splits sum.splits if_splits option.splits)
  ultimately show ?case using 0 batch_attempt_Success by blast
next
  case (Suc left k s)
  let ?s = "s\<lparr>x_del := Some (new_delivery\<lparr>d_revision := rv\<rparr>)\<rparr>"
  obtain r s1 where r: "batch_attempt env (srcs k) ?s = (r, s1)" by (cases "batch_attempt env (srcs k) ?s") auto
  have ok: "counts_ok ?s" by (simp add: counts_ok_def new_delivery_def)
  then have ok1: "counts_ok s1" using keepsD [OF counts.k_batch_attempt] r by (metis snd_conv)
  show ?case
  proof (cases r)
    case (Inr res')
    then have "res' = res" "s1 = s'"
      using Suc.prems r by (simp_all add: start_attempt_def bind_def modify_def try_m_def ret_def)
    then show ?thesis using r Inr ok Suc.prems batch_attempt_Success by blast
  next
    case (Inl e)
    then obtain s2 where "batch_attempts env rv srcs (Suc k) left s2 = (Inr res, s')" "counts_ok s2"
      using Suc.prems r ok1
      by (auto simp: start_attempt_def bind_def modify_def try_m_def throw_def ask_def split: if_splits)
    then show ?thesis using Suc.IH Suc.prems by blast
  qed
qed

end
