(* ===== verification/Executor_Demo.thy ===== *)
theory Executor_Demo
  imports Executor_Props
begin

text \<open>
  A small pipeline to evaluate runs on, and the rewrite rules that evaluate them.
\<close>

section \<open>Runs on a small pipeline\<close>

text \<open>
  A pipeline of one sink whose filename template splits the records by their value: the sink
  answers \<open>w\<close> to its writes and \<open>ser\<close> to the serializer; a chunk parses to one record per
  character.
\<close>

definition demo_sink :: "(nat \<Rightarrow> string list \<Rightarrow> xerror + int) \<Rightarrow> (nat \<Rightarrow> string option) \<Rightarrow> string sink" where
  "demo_sink ser w = \<lparr>sk_type = ''local'', sk_condition = None, sk_transforms = [],
     sk_fields = (\<lambda>r. [(''f'', r)]), sk_serialize = ser, sk_write = w, sk_retry = 0, sk_cb_threshold = 0,
     sk_cb_window = 60, sk_cb_key = ''k'', sk_commit = (\<lambda>_. Receipt ''local'' True []),
     sk_latched = (\<lambda>_. NotLatched), sk_finalize = (\<lambda>_. None)\<rparr>"

definition demo_env :: "on_error \<Rightarrow> bool \<Rightarrow> (nat \<Rightarrow> bool) \<Rightarrow> string sink \<Rightarrow> string xenv" where
  "demo_env oe dlq stop sk = \<lparr>v_on_error = oe, v_transforms = [], v_sinks = [sk],
     v_dlq = (if dlq then Some (\<lambda>_. None) else None), v_spool = (\<lambda>_. True), v_parallel = False,
     v_monotonic = int, v_now = int, v_parse = (\<lambda>_ raw. Inr (map (\<lambda>c. [c]) raw)),
     v_parse_chunks = (\<lambda>raw _. ([map (\<lambda>c. [c]) raw], None)), v_batch_size = None, v_record_chunk = None,
     v_stop = stop, v_stop_reason = (\<lambda>_. ''drain''), v_strict = False, v_checkpoint = None,
     v_unit_id = (\<lambda>_. None), v_source_finalize = (\<lambda>_. None), v_completion_error = (\<lambda>_. None),
     v_flush = False, v_flush_records = (\<lambda>_. []), v_has_store = False\<rparr>"

definition demo_context :: run_context where
  "demo_context = \<lparr>px_pipeline = ''p'', px_run = ''r'', px_started = 0, px_records_in = 0, px_records_out = 0,
     px_records_skipped = 0, px_bytes_in = 0, px_bytes_out = 0, px_dlq = 0, px_errors = []\<rparr>"

definition demo_run :: "string xenv \<Rightarrow> string list \<Rightarrow> (xerror + run_result) \<times> string xstate" where
  "demo_run env chunks =
     batch_run env 0 0 (\<lambda>_. (map (\<lambda>c. (c, [(''source_path'', MStr ''/in/a'')])) chunks, None))
       (init_xstate demo_context None [])"

text \<open>
  Evaluation of a run by rewriting: the continuation of a \<open>bind\<close> is left alone until its
  argument is known.
\<close>

lemma bind_arg_cong: "m = m' \<Longrightarrow> bind m f = bind m' f"
  by simp

lemmas exec_eval =
  is_tram_def exc_str_def ret_def throw_def bind_def catch_def try_m_def modify_def gets_def 
  ask_def emit_def ctx_do_def no_inc_def stats_do_def del_do_def skip_def write_dlq_envelope_def 
  int_of_bool_def dlq_fatal_def dlq_record_def transform_failure_def 
  partition_records_for_template_def trip_breaker_def partition_failed_def breaker_open_def 
  circuit_message_def write_one_sink_def write_all_sinks_def skip_message_def handle_tram_def 
  max_count_def process_records_body_def process_records_def augment_chunk_meta_def 
  parse_failure_def count_bytes_in_def process_chunk_def process_chunk_incrementally_def 
  commit_failure_def commit_sinks_receipts_def set_pending_def check_unit_def 
  source_finalize_def ack_unit_def finalize_batch_source_unit_def file_meta_def set_cur_def 
  finalize_current_def enter_unit_def process_any_chunk_def leave_broker_unit_def 
  run_batch_chunks_sequential_def without_accounting_def flush_windows_def make_result_def 
  batch_status_def batch_attempt_def fresh_context_def start_attempt_def batch_run_def 
  init_xstate_def mget_def meta_truthy_def meta_text_def unit_key_meta_def source_unit_key_def 
  strip_suffix_def broker_meta_unit_key_def batch_source_unit_key_def 
  broker_partition_frontier_def checkpoint_frontier_def new_unit_def unit_finish_def 
  disposition_def new_delivery_def register_unit_def take_unit_def update_unit_def 
  record_chunk_def record_loss_def record_sink_def record_spool_def nonzero_def 
  sink_disposition_map_def spool_counters_def record_checkpoint_pending_def 
  has_pending_checkpoints_def has_loss_def batch_outcome_def 
  demo_sink_def demo_env_def demo_context_def demo_run_def from_context_def Let_def

definition steady :: "nat \<Rightarrow> bool" where
  "steady n = False"

definition accepts :: "nat \<Rightarrow> string option" where
  "accepts n = None"

definition one_byte :: "nat \<Rightarrow> string list \<Rightarrow> xerror + int" where
  "one_byte n rs = Inr 1"

lemma demo_path [simp]: "py_strip ''/in/a'' = ''/in/a''"
  by code_simp

lemma dhas_Nil [simp]: "\<not> dhas k []"
  by (simp add: dhas_def)

lemmas demo_eval = exec_eval steady_def accepts_def one_byte_def all_flushed_def nothing_lost_def unflushed_def

end
