(* ===== verification/Executor_Runs.thy ===== *)
theory Executor_Runs
  imports Executor_Demo
begin

text \<open>
  What a clean success means, and the losses the delivery accounting does not see, each with a
  run on a small pipeline evaluated by rewriting.
\<close>

section \<open>A clean success lost nothing\<close>



section \<open>Losses the accounting does not see\<close>

fun ack_dispositions :: "'r event list \<Rightarrow> ack_disposition list" where
  "ack_dispositions [] = []"
| "ack_dispositions (EAck m d # l) = d # ack_dispositions l"
| "ack_dispositions (_ # l) = ack_dispositions l"

fun written_records :: "'r event list \<Rightarrow> 'r list" where
  "written_records [] = []"
| "written_records (EWrite i rs # l) = rs @ written_records l"
| "written_records (_ # l) = written_records l"

text \<open>What a run on the small pipeline comes to: its status, the acknowledgements, the writes.\<close>

definition demo_outcome :: "string xenv \<Rightarrow> string list \<Rightarrow> (xerror + run_status) \<times> ack_disposition list \<times> string list" where
  "demo_outcome env chunks =
     (case demo_run env chunks of
        (r, s) \<Rightarrow> (map_sum id rr_status r, ack_dispositions (x_log s), written_records (x_log s)))"

lemma global_Nil: "apply_global_transforms env key [] rs s = (Inr rs, s)"
  by (induction rs) (simp_all add: bind_def ret_def)

lemma write_attempts_fail:
  "(\<And>j. j \<le> k \<Longrightarrow> sk_write sk (x_n s + j) = Some e) \<Longrightarrow>
     write_attempts (Suc k) i sk p sz s = (Inr (Some e), s\<lparr>x_n := x_n s + Suc k\<rparr>)"
proof (induction k arbitrary: s)
  case 0
  then show ?case using "0.prems" [of 0] by (simp add: bind_def ask_def ret_def)
next
  case (Suc k)
  have "sk_write sk (x_n s) = Some e" "\<And>j. j \<le> k \<Longrightarrow> sk_write sk (Suc (x_n s) + j) = Some e"
    using Suc.prems [of 0] Suc.prems [of "Suc j" for j] by simp_all
  then show ?case using Suc.IH [of "s\<lparr>x_n := Suc (x_n s)\<rparr>"] by (simp add: bind_def ask_def)
qed

text \<open>
  When the serializer of a sink rejects the first partition of a chunk, the chunk is lost
  without a trace in the delivery accounting under every policy but \<open>abort\<close>: nothing is written
  or dead-lettered, no loss is recorded and the chunk is not even counted as read by its unit.
\<close>

theorem serializer_error_unaccounted:
  assumes "v_sinks env = [sk]" "sk_condition sk = None" "sk_transforms sk = []" "sk_cb_threshold sk = 0"
    and "rs \<noteq> []" "partition_records_for_template (sk_fields sk) rs = p # ps"
    and "sk_serialize sk (x_n s) p = Inl (Tram e)"
    and "v_on_error env \<noteq> OnAbort" "v_on_error env = OnRetry \<Longrightarrow> \<not> (\<exists>d. x_del s = Some d \<and> has_loss d)"
  shows "fst (process_records env m [] rs True s) = Inr False \<and>
    x_del (snd (process_records env m [] rs True s)) = x_del s \<and>
    x_log (snd (process_records env m [] rs True s)) = x_log s"
proof -
  obtain s1 where s1: "process_records_body env (source_unit_key m) [] rs True s = (Inl (Tram e), s1)"
      "x_del s1 = x_del s" "x_log s1 = x_log s"
    using assms(1-7)
    by (simp add: process_records_body_def bind_def ctx_do_def stats_do_def modify_def global_Nil
        write_all_sinks_def write_one_sink_def ret_def breaker_open_def ask_def throw_def)
  then show ?thesis using assms(8,9)
    by (auto simp: process_records_def handle_tram_def catch_def is_tram_def bind_def gets_def throw_def
        ctx_do_def stats_do_def modify_def ret_def split: option.splits)
qed

definition rejects_a :: "nat \<Rightarrow> string list \<Rightarrow> xerror + int" where
  "rejects_a n rs = (if rs = [''a''] then Inl (Tram ''bad value'') else Inr 1)"

text \<open>A file of two chunks, the first of which does not serialize, is acknowledged as delivered.\<close>

theorem serializer_error_unaccounted_witness:
  "fst (process_records (demo_env OnContinue True steady (demo_sink rejects_a accepts)) [] [] [''a''] True
      (init_xstate demo_context None [])) = Inr False \<and>
   demo_outcome (demo_env OnContinue True steady (demo_sink rejects_a accepts)) [''a'', ''b''] =
     (Inr Success, [DELIVERED], [''b''])"
  using serializer_error_unaccounted [of "demo_env OnContinue True steady (demo_sink rejects_a accepts)"
      "demo_sink rejects_a accepts" "[''a'']" "[''a'']" "[]" "init_xstate demo_context None []" "''bad value''" "[]"]
  by (simp add: demo_eval rejects_a_def demo_outcome_def cong: bind_arg_cong)

text \<open>
  A partition whose write fails stops its sink: the partitions after it are neither written
  nor dead-lettered nor recorded as lost, whatever they hold.
\<close>

theorem partition_failure_drops_rest:
  assumes "sk_serialize sk (x_n s) p = Inr sz"
    and "list_all (\<lambda>k. sk_write sk (Suc (x_n s) + k) = Some e) [0..<Suc (sk_retry sk)]"
  shows "write_partitions env key i sk (p # ps) w s =
    bind (partition_failed env key sk p e) (\<lambda>_. ret w) (s\<lparr>x_n := x_n s + sk_retry sk + 2\<rparr>)"
proof -
  have "write_attempts (Suc (sk_retry sk)) i sk p sz (s\<lparr>x_n := Suc (x_n s)\<rparr>) =
      (Inr (Some e), s\<lparr>x_n := x_n s + sk_retry sk + 2\<rparr>)"
    by (subst write_attempts_fail [where e = e]) (use assms(2) in \<open>auto simp: list_all_iff\<close>)
  then show ?thesis
    using assms(1)
    by (simp add: bind_def [of "ask _"] ask_def bind_def [of "write_attempts _ _ _ _ _"]
        del: write_attempts.simps)
qed

definition fails_once :: "nat \<Rightarrow> string option" where
  "fails_once n = (if n = 3 then Some ''disk full'' else None)"

text \<open>
  Under \<open>dlq\<close>, a chunk of three partitions whose first write fails: the first record is
  dead-lettered, the other two vanish, the unit is acknowledged and the run is a success.
\<close>

theorem partition_failure_drops_rest_witness:
  "write_partitions (demo_env OnDlq True steady (demo_sink one_byte fails_once)) None 0 (demo_sink one_byte fails_once)
     [[''a''], [''b''], [''c'']] 0 (init_xstate demo_context None []\<lparr>x_n := 2\<rparr>) =
   bind (partition_failed (demo_env OnDlq True steady (demo_sink one_byte fails_once)) None (demo_sink one_byte fails_once)
     [''a''] ''disk full'') (\<lambda>_. ret 0) (init_xstate demo_context None []\<lparr>x_n := 4\<rparr>) \<and>
   demo_outcome (demo_env OnDlq True steady (demo_sink one_byte fails_once)) [''abc''] = (Inr Success, [DLQ], [])"
proof (intro conjI)
  show "write_partitions (demo_env OnDlq True steady (demo_sink one_byte fails_once)) None 0 (demo_sink one_byte fails_once)
     [[''a''], [''b''], [''c'']] 0 (init_xstate demo_context None []\<lparr>x_n := 2\<rparr>) =
   bind (partition_failed (demo_env OnDlq True steady (demo_sink one_byte fails_once)) None (demo_sink one_byte fails_once)
     [''a''] ''disk full'') (\<lambda>_. ret 0) (init_xstate demo_context None []\<lparr>x_n := 4\<rparr>)"
    by (subst partition_failure_drops_rest [where sz = 1 and e = "''disk full''"])
      (simp_all add: demo_sink_def one_byte_def fails_once_def init_xstate_def)
qed (simp add: demo_eval fails_once_def demo_outcome_def cong: bind_arg_cong)

text \<open>
  A chunk the input serializer rejects is accounted for on the plain path, one failed
  record without a dead-letter sink, but not when the pipeline reads in record batches: there
  the serializer's own exception passes the parse handler, is noted by the chunk handler, and
  neither the loss counters nor the unit change.
\<close>

theorem incremental_parse_error_unaccounted:
  assumes "v_parse env (x_n s) raw = Inl e" "v_parse_chunks env raw csize = ([], Some (Tram e))"
    and "v_dlq env = None" "x_del s = Some d" "\<not> has_loss d" "v_on_error env \<noteq> OnAbort"
  shows "fst (process_chunk_incrementally env csize raw m s) = Inr False \<and>
    x_del (snd (process_chunk_incrementally env csize raw m s)) = Some d \<and>
    map_option d_failed (x_del (snd (process_chunk env raw m s))) = Some (d_failed d + 1)"
proof (intro conjI)
  have "process_chunk_incrementally env csize raw m s =
      (Inr False, snd (process_chunk_incrementally env csize raw m s)) \<and>
      x_del (snd (process_chunk_incrementally env csize raw m s)) = Some d"
    using assms
    by (auto simp: process_chunk_incrementally_def handle_tram_def count_bytes_in_def catch_def bind_def
        gets_def ctx_do_def stats_do_def modify_def throw_def is_tram_def ret_def Let_def)
  then show "fst (process_chunk_incrementally env csize raw m s) = Inr False"
      "x_del (snd (process_chunk_incrementally env csize raw m s)) = Some d"
    by (metis fst_conv, blast)
  show "map_option d_failed (x_del (snd (process_chunk env raw m s))) = Some (d_failed d + 1)"
    using assms
    by (auto simp: process_chunk_def handle_tram_def count_bytes_in_def catch_def bind_def parse_failure_def
        gets_def ctx_do_def stats_do_def del_do_def ask_def modify_def throw_def is_tram_def ret_def Let_def
        dlq_fatal_def record_loss_def)
qed

definition broken_env :: "string xenv" where
  "broken_env = (demo_env OnContinue False steady (demo_sink one_byte accepts))
     \<lparr>v_parse := \<lambda>_ _. Inl ''bad json'', v_parse_chunks := \<lambda>_ _. ([], Some (Tram ''bad json''))\<rparr>"

definition fresh_state :: "string xstate" where
  "fresh_state = init_xstate demo_context None []\<lparr>x_del := Some new_delivery\<rparr>"

theorem incremental_parse_error_unaccounted_witness:
  "x_del (snd (process_chunk_incrementally broken_env 100 ''{'' [] fresh_state)) = Some new_delivery \<and>
   map_option d_failed (x_del (snd (process_chunk broken_env ''{'' [] fresh_state))) = Some 1"
  using incremental_parse_error_unaccounted [of broken_env fresh_state "''{''" "''bad json''" 100 new_delivery "[]"]
  by (simp add: broken_env_def demo_env_def fresh_state_def init_xstate_def has_loss_def new_delivery_def)

end
