(* ===== verification/Stream_Run.thy ===== *)
theory Stream_Run
  imports Executor
begin

text \<open>
  The stream path of \<open>tram/pipeline/executor.py\<close> with one reader thread: the micro-batch
  buffer, its flush through the shared sink path, the decision of broker units at a drained
  batch boundary, and the run. The interval flusher is a second thread; it takes the same lock
  as every other flush, so its flush is one step here, and the environment says at which of the
  points where the reader may be overtaken it fires (\<open>t_tick\<close>). The threaded reader variant
  (\<open>thread_workers > 1\<close>) and the stop watcher are not modelled.
\<close>

section \<open>The micro-batch buffer\<close>

record 'r stream_env =
  t_env :: "'r xenv"
  t_threshold :: nat
  t_interval :: int
  t_tick :: "nat \<Rightarrow> bool"
  t_uuid :: "nat \<Rightarrow> string"
  t_persist :: "nat \<Rightarrow> bool"
  t_close_records :: "nat \<Rightarrow> 'r list"
  t_deadline :: "nat \<Rightarrow> bool"

definition stream_batch_broker :: "meta \<Rightarrow> bool" where
  "stream_batch_broker m \<longleftrightarrow> broker_meta_unit_key m \<noteq> None"

text \<open>What \<open>append\<close> stores; \<open>now\<close> is the reading of the clock it may take.\<close>

definition buffer_add :: "int \<Rightarrow> 'r list \<Rightarrow> meta \<Rightarrow> 'r flush_buffer \<Rightarrow> 'r flush_buffer" where
  "buffer_add now rs m b =
     (let b1 = (if stream_batch_broker m
                then b\<lparr>fb_contributors := fb_contributors b @ [(m, rs)],
                       fb_oldest := (case fb_oldest b of None \<Rightarrow> Some now | Some t \<Rightarrow> Some t)\<rparr>
                else b)
      in if rs = [] then b1
         else (if fb_records b1 = [] then b1\<lparr>fb_meta := Some m, fb_oldest := Some now\<rparr> else b1)
                \<lparr>fb_records := fb_records b @ rs\<rparr>)"

definition buffer_age_due :: "int \<Rightarrow> int \<Rightarrow> 'r flush_buffer \<Rightarrow> bool" where
  "buffer_age_due interval now b \<longleftrightarrow>
     interval > 0 \<and> now - (case fb_oldest b of Some t \<Rightarrow> t | None \<Rightarrow> 0) \<ge> interval"

definition buffer_full :: "nat \<Rightarrow> 'r flush_buffer \<Rightarrow> bool" where
  "buffer_full threshold b \<longleftrightarrow>
     length (fb_records b) \<ge> threshold \<or> length (fb_contributors b) \<ge> threshold"

text \<open>\<open>append\<close>: whether the buffer should be flushed, and the buffer.\<close>

definition buffer_append ::
  "nat \<Rightarrow> int \<Rightarrow> int \<Rightarrow> int \<Rightarrow> 'r list \<Rightarrow> meta \<Rightarrow> bool \<Rightarrow> 'r flush_buffer \<Rightarrow> bool \<times> 'r flush_buffer" where
  "buffer_append threshold interval now later rs m batch_end b =
     (if rs = [] \<and> \<not> batch_end \<and> \<not> stream_batch_broker m then (False, b)
      else
        (let b' = buffer_add now rs m b
         in if fb_records b' = [] \<and> fb_contributors b' = [] then (False, b')
            else (batch_end \<or> buffer_full threshold b' \<or> buffer_age_due interval later b', b')))"

definition buffer_due :: "int \<Rightarrow> int \<Rightarrow> 'r flush_buffer \<Rightarrow> bool" where
  "buffer_due interval now b \<longleftrightarrow>
     (fb_records b \<noteq> [] \<or> fb_contributors b \<noteq> []) \<and> buffer_age_due interval now b"

text \<open>\<open>drain\<close>: the records, their metadata and the contributors, taken out together.\<close>

definition buffer_drain ::
  "'r flush_buffer \<Rightarrow> ('r list \<times> meta \<times> (meta \<times> 'r list) list) option \<times> 'r flush_buffer" where
  "buffer_drain b =
     (if fb_records b = [] \<and> fb_contributors b = [] then (None, b)
      else (Some (fb_records b, (case fb_meta b of Some m \<Rightarrow> m | None \<Rightarrow> []), fb_contributors b),
            b\<lparr>fb_records := [], fb_meta := None, fb_oldest := None, fb_contributors := []\<rparr>))"

definition set_buf :: "'r flush_buffer \<Rightarrow> ('r, unit) xm" where
  "set_buf b = modify (\<lambda>s. s\<lparr>x_buf := b\<rparr>)"

definition complete :: "(meta \<times> unit_outcome) list \<Rightarrow> ('r, unit) xm" where
  "complete es = modify (\<lambda>s. s\<lparr>x_buf := (x_buf s)\<lparr>fb_completed := fb_completed (x_buf s) @ es\<rparr>\<rparr>)"

definition take_completed :: "('r, (meta \<times> unit_outcome) list) xm" where
  "take_completed s = (Inr (fb_completed (x_buf s)), s\<lparr>x_buf := (x_buf s)\<lparr>fb_completed := []\<rparr>\<rparr>)"

section \<open>Arrival of a chunk\<close>

definition append_chunk :: "'r stream_env \<Rightarrow> 'r list \<Rightarrow> meta \<Rightarrow> ('r, bool) xm" where
  "append_chunk te rs m =
     bind (ask (v_monotonic (t_env te))) (\<lambda>now.
       bind (ask (v_monotonic (t_env te))) (\<lambda>later.
         bind (gets x_buf) (\<lambda>b.
           case buffer_append (t_threshold te) (t_interval te) now later rs m
                  (meta_truthy m ''source_batch_end'') b of
             (due, b') \<Rightarrow> bind (set_buf b') (\<lambda>_. ret due))))"

text \<open>
  \<open>_process_chunk\<close> with a buffer: records are counted and transformed on arrival and the sink
  write is deferred; the answer says whether to flush. A broker record whose processing failed
  still contributes, with no survivors.
\<close>

definition stream_chunk :: "'r stream_env \<Rightarrow> string \<Rightarrow> meta \<Rightarrow> ('r, bool) xm" where
  "stream_chunk te raw m0 =
     (let env = t_env te in
      bind (gets x_ctx) (\<lambda>ctx.
        let m = augment_chunk_meta m0 ctx; key = source_unit_key m in
        handle_tram env (if stream_batch_broker m then append_chunk te [] m else ret False)
          (bind (count_bytes_in raw) (\<lambda>_.
             bind (ask (\<lambda>n. v_parse env n raw)) (\<lambda>a.
               case a of
                 Inl exc \<Rightarrow> parse_failure env key exc
               | Inr rs \<Rightarrow>
                   bind (ctx_do (IncRecordsIn (int (length rs)))) (\<lambda>_.
                     bind (stats_do (no_inc\<lparr>ia_records_in := int (length rs)\<rparr>)) (\<lambda>_.
                       bind (if stream_batch_broker m
                             then del_do (record_chunk key (max 1 (int (length rs))) 0) else skip) (\<lambda>_.
                         bind (apply_global_transforms env key (v_transforms env) rs) (\<lambda>survivors.
                           append_chunk te survivors m)))))))))"

section \<open>Flush\<close>

text \<open>Would some sink take records of these survivors? Conditions are tried in sink order.\<close>

fun selected :: "'r sink list \<Rightarrow> 'r list \<Rightarrow> string + bool" where
  "selected [] rs = Inr False"
| "selected (sk # sks) rs =
     (case (case sk_condition sk of Some c \<Rightarrow> filter_by_condition c rs | None \<Rightarrow> Inr rs) of
        Inl e \<Rightarrow> Inl e
      | Inr out \<Rightarrow> if out \<noteq> [] then Inr True else selected sks rs)"

definition add_cohort :: "unit_outcome \<Rightarrow> unit_outcome \<Rightarrow> unit_outcome" where
  "add_cohort c u =
     u\<lparr>u_failed := u_failed u + u_failed c, u_dlq_ok := u_dlq_ok u + u_dlq_ok c,
       u_dlq_failed := u_dlq_failed u + u_dlq_failed c\<rparr>"

definition settle_unit :: "'r xenv \<Rightarrow> unit_outcome option \<Rightarrow> unit_key option \<Rightarrow> 'r list \<Rightarrow> ('r, unit) xm" where
  "settle_unit env cohort key survivors =
     (case cohort of
        None \<Rightarrow> skip
      | Some c \<Rightarrow>
          if survivors = [] then skip
          else
            bind (del_do (update_unit key (add_cohort c))) (\<lambda>_.
              if u_delivered c = 0 then skip
              else
                (case selected (v_sinks env) survivors of
                   Inl e \<Rightarrow> throw (Tram e)
                 | Inr sel \<Rightarrow>
                     if sel
                     then del_do (update_unit key (\<lambda>u. u\<lparr>u_delivered := u_delivered u + int (length survivors)\<rparr>))
                     else skip)))"

definition unit_at :: "unit_key option \<Rightarrow> 'r xstate \<Rightarrow> unit_outcome option" where
  "unit_at key s = (case (x_del s, key) of (Some d, Some k) \<Rightarrow> dget (d_units d) k | _ \<Rightarrow> None)"

text \<open>
  Every contributor that is still registered takes over the outcome of the flush and is
  completed.
\<close>

fun settle_contributors ::
  "'r xenv \<Rightarrow> unit_outcome option \<Rightarrow> (meta \<times> 'r list) list \<Rightarrow> ('r, (meta \<times> unit_outcome) list) xm" where
  "settle_contributors env cohort [] = ret []"
| "settle_contributors env cohort ((m, survivors) # cs) =
     bind (gets (unit_at (source_unit_key m))) (\<lambda>u.
       if u = None then settle_contributors env cohort cs
       else
         bind (settle_unit env cohort (source_unit_key m) survivors) (\<lambda>_.
           bind (gets (unit_at (source_unit_key m))) (\<lambda>u'.
             bind (settle_contributors env cohort cs) (\<lambda>rest.
               ret (case u' of Some x \<Rightarrow> (m, x) # rest | None \<Rightarrow> rest)))))"

definition flush_stream_buffer :: "'r stream_env \<Rightarrow> ('r, bool) xm" where
  "flush_stream_buffer te =
     (let env = t_env te in
      bind (gets (\<lambda>s. buffer_drain (x_buf s))) (\<lambda>db.
        case fst db of
          None \<Rightarrow> ret False
        | Some (records, m, contributors) \<Rightarrow>
            bind (set_buf (snd db)) (\<lambda>_.
              if contributors = []
              then bind (process_records env m [] records False) (\<lambda>_. ret True)
              else
                bind (ask (t_uuid te)) (\<lambda>uuid.
                  let cohort_key = (''stream-flush'', uuid);
                      m' = dset unit_key_meta (MPair ''stream-flush'' uuid) m
                  in bind (del_do (register_unit cohort_key m')) (\<lambda>_.
                       bind (process_records env m' [] records False) (\<lambda>_.
                         bind (gets (\<lambda>s. case x_del s of None \<Rightarrow> None | Some d \<Rightarrow> fst (take_unit cohort_key d))) (\<lambda>cohort.
                           bind (del_do (\<lambda>d. snd (take_unit cohort_key d))) (\<lambda>_.
                             bind (settle_contributors env cohort contributors) (\<lambda>done.
                               bind (complete done) (\<lambda>_. ret True))))))))))"

text \<open>The interval flusher: when due, a flush whose exceptions are only logged.\<close>

definition flusher_tick :: "'r stream_env \<Rightarrow> ('r, unit) xm" where
  "flusher_tick te =
     bind (ask (t_tick te)) (\<lambda>fires.
       if fires
       then
         bind (ask (v_monotonic (t_env te))) (\<lambda>now.
           bind (gets (\<lambda>s. buffer_due (t_interval te) now (x_buf s))) (\<lambda>due.
             if due then bind (try_m (flush_stream_buffer te)) (\<lambda>_. skip) else skip))
       else skip)"

definition flush_now :: "'r stream_env \<Rightarrow> ('r, unit) xm" where
  "flush_now te = bind (flush_stream_buffer te) (\<lambda>_. skip)"

section \<open>Deciding broker units\<close>

text \<open>An earlier offset of the same partition among the metadata of pending units.\<close>

definition blocked_by :: "meta list \<Rightarrow> meta \<Rightarrow> bool" where
  "blocked_by pending m =
     (case broker_partition_frontier m of
        None \<Rightarrow> False
      | Some (p, off) \<Rightarrow>
          list_ex (\<lambda>e. case broker_partition_frontier e of
                         Some (p', off') \<Rightarrow> p' = p \<and> off' < off | None \<Rightarrow> False) pending)"

definition pending_metas :: "unit_key option list \<Rightarrow> delivery \<Rightarrow> meta list" where
  "pending_metas ready d =
     map (\<lambda>(k, u). u_meta u) (filter (\<lambda>(k, u). Some k \<notin> set ready) (d_units d))"

text \<open>
  The outcome of each completed unit: taken from the accounting, or, for a second entry of the
  same unit, the one taken before; else the recorded one.
\<close>

fun take_outcomes ::
  "on_error \<Rightarrow> (unit_key option \<times> unit_outcome) list \<Rightarrow> (meta \<times> unit_outcome) list \<Rightarrow> delivery
    \<Rightarrow> (meta \<times> ack_disposition option) list \<times> delivery" where
  "take_outcomes oe seen [] d = ([], d)"
| "take_outcomes oe seen ((m, u0) # es) d =
     (let key = source_unit_key m;
          taken = (case key of None \<Rightarrow> (None, d) | Some k \<Rightarrow> take_unit k d);
          u = (case fst taken of
                 Some u \<Rightarrow> u
               | None \<Rightarrow> (case map_of seen key of Some u \<Rightarrow> u | None \<Rightarrow> u0));
          r = take_outcomes oe ((key, u) # seen) es (snd taken)
      in ((m, disposition oe u) # fst r, snd r))"

definition note_gap :: "bool \<Rightarrow> meta \<times> ack_disposition option \<Rightarrow> delivery \<Rightarrow> delivery" where
  "note_gap committed dec d =
     (case broker_partition_frontier (fst dec) of
        None \<Rightarrow> d
      | Some (p, off) \<Rightarrow>
          if \<not> committed \<or> snd dec = None
          then d\<lparr>d_gaps := dset p (case dget (d_gaps d) p of Some g \<Rightarrow> min off g | None \<Rightarrow> off) (d_gaps d)\<rparr>
          else d)"

definition behind_gap :: "delivery \<Rightarrow> meta \<Rightarrow> bool" where
  "behind_gap d m =
     (case broker_partition_frontier m of
        None \<Rightarrow> False
      | Some (p, off) \<Rightarrow> (case dget (d_gaps d) p of Some g \<Rightarrow> g \<le> off | None \<Rightarrow> False))"

text \<open>
  The checkpoint identities of a cohort: the durable identity of the unit, else its key; for
  each the metadata of the highest frontier.
\<close>

type_synonym identity = "string + unit_key option"

definition unit_identity :: "'r xenv \<Rightarrow> meta \<Rightarrow> identity" where
  "unit_identity env m = (case v_unit_id env m of Some u \<Rightarrow> Inl u | None \<Rightarrow> Inr (source_unit_key m))"

definition frontier_metas :: "'r xenv \<Rightarrow> meta list \<Rightarrow> (identity, meta) dict" where
  "frontier_metas env ms =
     fold (\<lambda>m ps. case dget ps (unit_identity env m) of
             None \<Rightarrow> dset (unit_identity env m) m ps
           | Some c \<Rightarrow>
               if checkpoint_frontier m > checkpoint_frontier c then dset (unit_identity env m) m ps else ps)
       ms []"

text \<open>
  The partitions with a delivered unit are checkpointed until one is refused. Python iterates
  a set here; the order below is that of first appearance.
\<close>

fun check_partitions :: "'r xenv \<Rightarrow> meta list \<Rightarrow> ('r, bool) xm" where
  "check_partitions env [] = ret True"
| "check_partitions env (m # ms) =
     bind (check_unit env m) (\<lambda>ok. if ok then check_partitions env ms else ret False)"

definition delivered_metas :: "'r xenv \<Rightarrow> (meta \<times> ack_disposition option) list \<Rightarrow> meta list" where
  "delivered_metas env decisions =
     (let fronts = frontier_metas env (map fst decisions);
          ids = remdups (map (\<lambda>d. unit_identity env (fst d)) (filter (\<lambda>d. snd d = Some DELIVERED) decisions))
      in map (\<lambda>i. case dget fronts i of Some m \<Rightarrow> m | None \<Rightarrow> []) ids)"

fun ack_decisions :: "'r xenv \<Rightarrow> bool \<Rightarrow> bool \<Rightarrow> (meta \<times> ack_disposition option) list \<Rightarrow> ('r, unit) xm" where
  "ack_decisions env checkpoint_ok committed [] = skip"
| "ack_decisions env checkpoint_ok committed ((m, disp) # ds) =
     bind (case disp of Some d \<Rightarrow> if checkpoint_ok then emit (EAck m d) else skip | None \<Rightarrow> skip) (\<lambda>_.
       bind (source_finalize env m committed) (\<lambda>_. ack_decisions env checkpoint_ok committed ds))"

text \<open>The tests before the checkpoints: the barrier, the gaps, and the strict contract.\<close>

definition cohort_allowed :: "'r xenv \<Rightarrow> bool \<Rightarrow> (meta \<times> ack_disposition option) list \<Rightarrow> ('r, bool) xm" where
  "cohort_allowed env committed decisions =
     bind (gets x_del) (\<lambda>d.
       let gap = list_ex (\<lambda>dec. case d of Some d \<Rightarrow> behind_gap d (fst dec) | None \<Rightarrow> False) decisions in
       bind (if gap then del_do record_checkpoint_pending else skip) (\<lambda>_.
         bind (gets x_del) (\<lambda>d'.
           if v_strict env \<and> ((case d' of Some d \<Rightarrow> has_pending_checkpoints d | None \<Rightarrow> False) \<or>
                              list_ex (\<lambda>dec. snd dec = None) decisions)
           then bind (del_do record_checkpoint_pending) (\<lambda>_. ret False)
           else ret (committed \<and> \<not> gap))))"

definition decide_cohort :: "'r xenv \<Rightarrow> (meta \<times> unit_outcome) list \<Rightarrow> ('r, unit) xm" where
  "decide_cohort env completed =
     bind (commit_sinks_receipts env) (\<lambda>receipts.
       let committed = (receipts \<noteq> None) in
       bind (if committed then skip else del_do record_checkpoint_pending) (\<lambda>_.
         bind (gets (\<lambda>s. fst (take_outcomes (v_on_error env) [] completed
                  (case x_del s of Some d \<Rightarrow> d | None \<Rightarrow> new_delivery)))) (\<lambda>decisions.
           bind (del_do (\<lambda>d. snd (take_outcomes (v_on_error env) [] completed d))) (\<lambda>_.
             bind (del_do (fold (note_gap committed) decisions)) (\<lambda>_.
               bind (cohort_allowed env committed decisions) (\<lambda>allowed.
                 bind (if allowed then check_partitions env (delivered_metas env decisions) else ret False) (\<lambda>ok.
                   ack_decisions env ok committed decisions)))))))"

definition finalize_stream_broker_units :: "'r xenv \<Rightarrow> ('r, unit) xm" where
  "finalize_stream_broker_units env =
     bind take_completed (\<lambda>completed.
       if completed = [] then skip
       else
         bind (gets (\<lambda>s. case x_del s of
                  Some d \<Rightarrow> pending_metas (map (\<lambda>e. source_unit_key (fst e)) completed) d | None \<Rightarrow> [])) (\<lambda>pending.
           if list_ex (\<lambda>e. blocked_by pending (fst e)) completed then complete completed
           else decide_cohort env completed))"

section \<open>The stream run\<close>

definition stream_source_unit_key :: "'r xenv \<Rightarrow> meta \<Rightarrow> unit_key option \<times> meta" where
  "stream_source_unit_key env m =
     (case batch_source_unit_key m of
        (Some k, m') \<Rightarrow> (Some k, m')
      | (None, m') \<Rightarrow>
          (case v_unit_id env m of
             Some u \<Rightarrow> (Some (''unit'', u), dset unit_key_meta (MPair ''unit'' u) m)
           | None \<Rightarrow> (None, m)))"

text \<open>A chunk of another file drains the buffer, finalizes the current one and opens its own.\<close>

definition enter_stream_unit :: "'r stream_env \<Rightarrow> unit_key \<Rightarrow> meta \<Rightarrow> ('r, unit) xm" where
  "enter_stream_unit te key m =
     bind (gets x_cur) (\<lambda>cur.
       bind (case cur of
               Some c \<Rightarrow> if key \<noteq> cu_key c then flush_now te else skip
             | None \<Rightarrow> skip) (\<lambda>_. enter_unit (t_env te) key m))"

definition stream_step :: "'r stream_env \<Rightarrow> string \<Rightarrow> meta \<Rightarrow> ('r, unit) xm" where
  "stream_step te raw m0 =
     (let env = t_env te; (key, m) = stream_source_unit_key env m0; broker = stream_batch_broker m in
      bind (case key of
              None \<Rightarrow> skip
            | Some k \<Rightarrow> if broker then del_do (register_unit k m) else enter_stream_unit te k m) (\<lambda>_.
        bind (stream_chunk te raw m) (\<lambda>due.
          bind (flusher_tick te) (\<lambda>_.
            bind (if due then flush_now te else skip) (\<lambda>_.
              bind (if broker \<and> meta_truthy m ''source_batch_end'' then finalize_stream_broker_units env else skip) (\<lambda>_.
                bind (ask (t_persist te)) (\<lambda>p.
                  if p \<and> v_has_store env then emit ESave else skip)))))))"

text \<open>The reader: the answer is whether it was stopped before the source ended.\<close>

fun stream_loop :: "'r stream_env \<Rightarrow> (string \<times> meta) list \<Rightarrow> xerror option \<Rightarrow> ('r, bool) xm" where
  "stream_loop te [] err = (case err of None \<Rightarrow> ret False | Some e \<Rightarrow> throw e)"
| "stream_loop te ((raw, m) # rest) err =
     bind (flusher_tick te) (\<lambda>_.
       bind (ask (v_stop (t_env te))) (\<lambda>stop.
         if stop then ret True
         else bind (stream_step te raw m) (\<lambda>_. stream_loop te rest err)))"

definition stream_body :: "'r stream_env \<Rightarrow> source_run \<Rightarrow> ('r, unit) xm" where
  "stream_body te src =
     bind (set_cur None) (\<lambda>_.
       bind (stream_loop te (fst src) (snd src)) (\<lambda>stopped.
         bind (gets x_cur) (\<lambda>cur.
           bind (case cur of
                   Some c \<Rightarrow>
                     if stopped then skip
                     else bind (flush_now te) (\<lambda>_. finalize_current (t_env te) c True)
                 | None \<Rightarrow> skip) (\<lambda>_.
             bind (flush_now te) (\<lambda>_. finalize_stream_broker_units (t_env te))))))"

text \<open>The end of a run: closing records of the stateful transforms, and the state.\<close>

definition stream_close :: "'r stream_env \<Rightarrow> bool \<Rightarrow> ('r, unit) xm" where
  "stream_close te graceful =
     bind (if graceful then ask (t_close_records te) else ret []) (\<lambda>rs.
       bind (if rs = [] then skip
             else bind (try_m (without_accounting (process_records (t_env te) [] [] rs True))) (\<lambda>_. skip)) (\<lambda>_.
         if v_has_store (t_env te) then emit ESave else skip))"

definition stream_run :: "'r stream_env \<Rightarrow> int \<Rightarrow> source_run \<Rightarrow> ('r, run_result) xm" where
  "stream_run te revision src =
     (let env = t_env te in
      bind (modify (\<lambda>s. s\<lparr>x_del := Some (new_delivery\<lparr>d_revision := revision\<rparr>)\<rparr>)) (\<lambda>_.
        bind (try_m (stream_body te src)) (\<lambda>r.
          case r of
            Inl e \<Rightarrow>
              bind (try_m (flush_stream_buffer te)) (\<lambda>_.
                bind (stream_close te False) (\<lambda>_. throw e))
          | Inr u \<Rightarrow>
              bind (stream_close te True) (\<lambda>_.
                bind (ask (t_deadline te)) (\<lambda>late.
                  bind (ask (v_now env)) (\<lambda>now.
                    bind (gets x_del) (\<lambda>d.
                      gets (if late
                            then make_result now Aborted (Some ''drained: worker drain deadline exceeded'')
                            else make_result now (batch_outcome (v_on_error env)
                                   (case d of Some d \<Rightarrow> d | None \<Rightarrow> new_delivery) False) None))))))))"

end
