(* ===== verification/Stream_Props.thy ===== *)
theory Stream_Props
  imports Stream_Run Executor_Demo
begin

text \<open>
  Properties of the stream run: a condition that survives the batch steps and the decision of
  a broker cohort survives the whole run (\<open>stream_invariant\<close>, interpreted for the
  acknowledgement discipline); acknowledgements of broker records respect the order of their
  partition; the micro-batch buffer neither loses nor reorders records.
\<close>

section \<open>Conditions that survive a stream run\<close>






section \<open>Acknowledgements of a stream are durable\<close>

text \<open>The last checkpoint posted since the last write or commit was accepted.\<close>

fun checkpoint_step :: "bool \<Rightarrow> 'r event \<Rightarrow> bool" where
  "checkpoint_step b (EWrite j rs) = False"
| "checkpoint_step b (ECommit j ok) = False"
| "checkpoint_step b (ECheckpoint uid ok) = ok"
| "checkpoint_step b e = b"

definition checkpointed :: "'r event list \<Rightarrow> bool" where
  "checkpointed l = foldl checkpoint_step False l"

lemma checkpointed_snoc [simp]: "checkpointed (l @ [e]) = checkpoint_step (checkpointed l) e"
  by (simp add: checkpointed_def)



















section \<open>Broker acknowledgements respect the partition order\<close>

















lemmas stream_eval =
  demo_eval stream_batch_broker_def buffer_add_def buffer_age_due_def buffer_full_def buffer_append_def
  buffer_due_def buffer_drain_def set_buf_def complete_def take_completed_def append_chunk_def stream_chunk_def
  add_cohort_def settle_unit_def unit_at_def flush_stream_buffer_def flusher_tick_def flush_now_def
  blocked_by_def pending_metas_def note_gap_def behind_gap_def unit_identity_def frontier_metas_def
  delivered_metas_def cohort_allowed_def decide_cohort_def finalize_stream_broker_units_def
  stream_source_unit_key_def enter_stream_unit_def stream_step_def stream_body_def stream_close_def
  stream_run_def empty_buffer_def



lemma demo_offset [simp]: "py_str 5 = ''5''"
  by code_simp


section \<open>The micro-batch buffer\<close>

datatype 'r buffer_op = BAppend int int "'r list" meta bool | BDrain

text \<open>
  The batches the operations hand out, in order, with their contributors, and the buffer left
  at the end.
\<close>

fun buffer_run ::
  "nat \<Rightarrow> int \<Rightarrow> 'r buffer_op list \<Rightarrow> 'r flush_buffer \<Rightarrow> ('r list \<times> (meta \<times> 'r list) list) list \<times> 'r flush_buffer" where
  "buffer_run th iv [] b = ([], b)"
| "buffer_run th iv (BAppend now later rs m be # ops) b =
     buffer_run th iv ops (snd (buffer_append th iv now later rs m be b))"
| "buffer_run th iv (BDrain # ops) b =
     (case buffer_drain b of
        (None, b') \<Rightarrow> buffer_run th iv ops b'
      | (Some (rs, m, cs), b') \<Rightarrow> (case buffer_run th iv ops b' of (out, b'') \<Rightarrow> ((rs, cs) # out, b'')))"

fun appended :: "'r buffer_op list \<Rightarrow> 'r list" where
  "appended [] = []"
| "appended (BAppend now later rs m be # ops) = rs @ appended ops"
| "appended (BDrain # ops) = appended ops"

fun contributed :: "'r buffer_op list \<Rightarrow> (meta \<times> 'r list) list" where
  "contributed [] = []"
| "contributed (BAppend now later rs m be # ops) = (if stream_batch_broker m then [(m, rs)] else []) @ contributed ops"
| "contributed (BDrain # ops) = contributed ops"

lemma buffer_append_queue:
  "fb_records (snd (buffer_append th iv now later rs m be b)) = fb_records b @ rs"
  "fb_contributors (snd (buffer_append th iv now later rs m be b)) =
     fb_contributors b @ (if stream_batch_broker m then [(m, rs)] else [])"
  by (simp_all add: buffer_append_def buffer_add_def Let_def)

lemma buffer_run_queue:
  "buffer_run th iv ops b = (out, b') \<Longrightarrow>
     fb_records b @ appended ops = concat (map fst out) @ fb_records b' \<and>
     fb_contributors b @ contributed ops = concat (map snd out) @ fb_contributors b'"
proof (induction th iv ops b arbitrary: out b' rule: buffer_run.induct)
  case (2 th iv now later rs m be ops b)
  then show ?case by (simp add: buffer_append_queue)
next
  case (3 th iv ops b)
  then show ?case by (auto simp: buffer_drain_def split: if_splits prod.splits)
qed simp

lemma buffer_append_quiet:
  "buffer_append th iv now later rs m be b = (False, b') \<Longrightarrow>
     b' = b \<or> length (fb_records b') < th \<and> length (fb_contributors b') < th"
  by (auto simp: buffer_append_def buffer_full_def buffer_add_def Let_def not_le split: if_splits)

text \<open>
  C28. The micro-batch buffer is a queue: over any sequence of appends and drains, by whichever
  thread, the batches handed out followed by what is still buffered are exactly the records
  appended, in order and once each, and the same holds of the contributing broker records; and
  when an append does not ask for a flush the buffer holds less than the threshold of either.
\<close>

theorem buffer_is_fifo:
  "(case buffer_run th iv ops empty_buffer of
      (out, b) \<Rightarrow>
        appended ops = concat (map fst out) @ fb_records b \<and>
        contributed ops = concat (map snd out) @ fb_contributors b \<and>
        (let (due, b') = buffer_append th iv now later rs m be b
         in due \<or> b' = b \<or> length (fb_records b') < th \<and> length (fb_contributors b') < th))"
proof (cases "buffer_run th iv ops (empty_buffer :: 'a flush_buffer)")
  case (Pair out b)
  then show ?thesis
    using buffer_run_queue [OF Pair] buffer_append_quiet [of th iv now later rs m be b]
    by (cases "buffer_append th iv now later rs m be b") (auto simp: empty_buffer_def)
qed

section \<open>A failing interval flush\<close>

definition demo_stream :: "on_error \<Rightarrow> (nat \<Rightarrow> bool) \<Rightarrow> string sink \<Rightarrow> string stream_env" where
  "demo_stream oe tick sk = \<lparr>t_env = demo_env oe False steady sk, t_threshold = 500, t_interval = 1,
     t_tick = tick, t_uuid = (\<lambda>_. ''u''), t_persist = steady, t_close_records = (\<lambda>_. []), t_deadline = steady\<rparr>"

definition always :: "nat \<Rightarrow> bool" where
  "always n = True"

definition refuses :: "nat \<Rightarrow> string option" where
  "refuses n = Some ''down''"

text \<open>
  Under the policy \<open>abort\<close> a stream whose sink refuses every write still ends as a success
  when the interval flusher gets to the buffer before the reader: the exception ends in its log,
  the records are gone from the buffer, and the outcome of the run does not look at the losses.
\<close>

theorem interval_flush_hides_abort:
  "case stream_run (demo_stream OnAbort always (demo_sink one_byte refuses)) 0 ([(''a'', []), (''b'', [])], None)
          (init_xstate demo_context None []) of
     (Inr res, s) \<Rightarrow> rr_status res = Success \<and> rr_failed res = 2 \<and> rr_records_out res = 0 \<and> x_log s = []
   | (Inl e, s) \<Rightarrow> False"
  by (simp add: stream_eval demo_stream_def always_def refuses_def cong: bind_arg_cong)

end
