(* ===== verification/Worker_Pool.thy ===== *)
theory Worker_Pool
  imports Complex_Main "HOL-Library.List_Lexorder" "HOL-Library.Char_ord" Py_Dict Auth_Tokens
begin

text \<open>
  The manager's view of its workers: \<open>tram/agent/stats_store.py\<close> and
  \<open>tram/agent/worker_pool.py\<close>. Health polling with its debounce and session refresh, load
  scores, fair placement, dispatch and the bookkeeping of assignments. The answers of the
  workers over HTTP and the clock are parameters. Load scores are exact rationals where the
  code has floats.
\<close>

section \<open>Statistics reported by the workers\<close>

record stats_entry =
  se_run :: string
  se_pipeline :: string
  se_worker :: string
  se_bytes_in :: int
  se_bytes_out :: int
  se_uptime :: rat
  se_timestamp :: instant

type_synonym stats_store = "(string, stats_entry) dict"

definition store_update :: "stats_entry \<Rightarrow> stats_store \<Rightarrow> stats_store" where
  "store_update e st = dset (se_run e) e st"

definition store_remove :: "string \<Rightarrow> stats_store \<Rightarrow> stats_store" where
  "store_remove run st = dpop run st"

definition get_by_run_id :: "string \<Rightarrow> stats_store \<Rightarrow> stats_entry option" where
  "get_by_run_id run st = dget st run"

definition is_stale :: "int \<Rightarrow> int option \<Rightarrow> instant \<Rightarrow> stats_entry \<Rightarrow> bool" where
  "is_stale store_interval interval now e \<longleftrightarrow>
     now - se_timestamp e >
       (case interval of Some i \<Rightarrow> if i \<noteq> 0 then i else store_interval | None \<Rightarrow> store_interval) * 3 * 1000000"

definition for_pipeline :: "int \<Rightarrow> instant \<Rightarrow> string \<Rightarrow> stats_store \<Rightarrow> stats_entry list" where
  "for_pipeline iv now p st = filter (\<lambda>e. se_pipeline e = p \<and> \<not> is_stale iv None now e) (map snd st)"

definition for_worker :: "int \<Rightarrow> instant \<Rightarrow> string \<Rightarrow> stats_store \<Rightarrow> stats_entry list" where
  "for_worker iv now w st = filter (\<lambda>e. se_worker e = w \<and> \<not> is_stale iv None now e) (map snd st)"

definition all_active :: "int \<Rightarrow> instant \<Rightarrow> stats_store \<Rightarrow> stats_entry list" where
  "all_active iv now st = filter (\<lambda>e. \<not> is_stale iv None now e) (map snd st)"

section \<open>The pool\<close>

record whealth =
  h_ok :: bool
  h_active :: int
  h_running :: "string list"
  h_failures :: nat

record attempt_identity =
  ai_attempt :: string
  ai_generation :: "int option"
  ai_slot :: string

record wsession =
  ws_session :: string
  ws_secret :: string
  ws_previous :: "string option"
  ws_previous_until :: "instant option"

record pool =
  p_workers :: "string list"
  p_health :: "(string, whealth) dict"
  p_assignments :: "(string, string) dict"
  p_run_pipelines :: "(string, string) dict"
  p_pipeline_workers :: "(string, string list) dict"
  p_worker_ids :: "(string, string) dict"
  p_url_to_id :: "(string, string) dict"
  p_attempts :: "(string, attempt_identity) dict"
  p_sessions :: "(string, wsession) dict"
  p_refresh :: "(string, string) dict"
  p_rr :: nat
  p_starvation :: "(string, nat) dict"

record pool_cfg =
  pc_manager_url :: string
  pc_stats_interval :: int
  pc_failures_to_down :: nat
  pc_threshold :: nat
  pc_max_ttl_s :: int
  pc_skew_s :: int
  pc_token_ttl_s :: int
  pc_sign :: "string \<Rightarrow> string \<Rightarrow> string"

definition init_pool :: "string list \<Rightarrow> pool" where
  "init_pool workers =
     \<lparr>p_workers = workers,
      p_health = fold (\<lambda>u. dset u \<lparr>h_ok = True, h_active = 0, h_running = [], h_failures = 0\<rparr>) workers [],
      p_assignments = [], p_run_pipelines = [], p_pipeline_workers = [], p_worker_ids = [],
      p_url_to_id = [], p_attempts = [], p_sessions = [], p_refresh = [], p_rr = 0,
      p_starvation = fold (\<lambda>u. dset u 0) workers []\<rparr>"

definition failures_to_down :: "pool_cfg \<Rightarrow> nat" where
  "failures_to_down cfg = max 1 (pc_failures_to_down cfg)"

definition fair_threshold :: "pool_cfg \<Rightarrow> nat" where
  "fair_threshold cfg = max 1 (pc_threshold cfg)"

definition set_health :: "string \<Rightarrow> (whealth \<Rightarrow> whealth) \<Rightarrow> pool \<Rightarrow> pool" where
  "set_health url f p =
     (case dget (p_health p) url of
        None \<Rightarrow> p
      | Some h \<Rightarrow> p\<lparr>p_health := dset url (f h) (p_health p)\<rparr>)"

section \<open>Run bookkeeping\<close>

definition pipeline_active :: "string \<Rightarrow> (string, string) dict \<Rightarrow> bool" where
  "pipeline_active name runs \<longleftrightarrow> name \<in> set (map snd runs)"

text \<open>Drop the worker list of a pipeline no active run names.\<close>

definition prune_pipeline :: "string \<Rightarrow> pool \<Rightarrow> pool" where
  "prune_pipeline name p =
     (if pipeline_active name (p_run_pipelines p) then p
      else p\<lparr>p_pipeline_workers := dpop name (p_pipeline_workers p)\<rparr>)"

definition adopt_stream_assignment :: "string \<Rightarrow> string \<Rightarrow> string \<Rightarrow> pool \<Rightarrow> pool" where
  "adopt_stream_assignment pipeline run url p =
     (let ws = (case dget (p_pipeline_workers p) pipeline of Some ws \<Rightarrow> ws | None \<Rightarrow> [])
      in set_health url (\<lambda>h. h\<lparr>h_active := h_active h + 1\<rparr>)
           (p\<lparr>p_assignments := dset run url (p_assignments p),
              p_run_pipelines := dset run pipeline (p_run_pipelines p),
              p_pipeline_workers :=
                dset pipeline (if url \<in> set ws then ws else ws @ [url]) (p_pipeline_workers p)\<rparr>))"

definition register_attempt :: "string \<Rightarrow> attempt_identity \<Rightarrow> pool \<Rightarrow> pool" where
  "register_attempt run a p = p\<lparr>p_attempts := dset run a (p_attempts p)\<rparr>"

definition on_run_complete :: "string \<Rightarrow> pool \<Rightarrow> pool" where
  "on_run_complete run p =
     (let p1 = p\<lparr>p_assignments := dpop run (p_assignments p),
                 p_run_pipelines := dpop run (p_run_pipelines p),
                 p_attempts := dpop run (p_attempts p)\<rparr>;
          p2 = (case dget (p_assignments p) run of
                  Some url \<Rightarrow>
                    if url \<noteq> [] then set_health url (\<lambda>h. h\<lparr>h_active := max 0 (h_active h - 1)\<rparr>) p1 else p1
                | None \<Rightarrow> p1)
      in case dget (p_run_pipelines p) run of
           None \<Rightarrow> p2
         | Some name \<Rightarrow> prune_pipeline name p2)"

definition reap_run :: "string \<Rightarrow> string \<Rightarrow> pool \<Rightarrow> pool" where
  "reap_run url run p =
     (let p1 = p\<lparr>p_assignments := dpop run (p_assignments p),
                 p_attempts := dpop run (p_attempts p),
                 p_run_pipelines := dpop run (p_run_pipelines p)\<rparr>
      in case dget (p_run_pipelines p) run of
           None \<Rightarrow> p1
         | Some name \<Rightarrow>
             prune_pipeline name
               (case dget (p_pipeline_workers p1) name of
                  None \<Rightarrow> p1
                | Some ws \<Rightarrow> p1\<lparr>p_pipeline_workers := dset name (remove1 url ws) (p_pipeline_workers p1)\<rparr>))"

definition reap_assignments_for_down_worker :: "string \<Rightarrow> pool \<Rightarrow> pool" where
  "reap_assignments_for_down_worker url p =
     (let reaped = map fst (filter (\<lambda>(run, u). u = url) (p_assignments p));
          p1 = fold (reap_run url) reaped p
      in if reaped = [] then p1
         else set_health url (\<lambda>h. h\<lparr>h_active := max 0 (h_active h - int (length reaped))\<rparr>) p1)"

section \<open>Sessions\<close>

definition register_worker_session :: "pool_cfg \<Rightarrow> instant \<Rightarrow> string \<Rightarrow> string \<Rightarrow> string \<Rightarrow> pool \<Rightarrow> pool" where
  "register_worker_session cfg now url session_id secret p =
     (let (prev, until) =
        (case dget (p_sessions p) url of
           None \<Rightarrow> (None, None)
         | Some ex \<Rightarrow>
             if ws_secret ex = secret then (None, None)
             else
               (case (ws_previous ex, ws_previous_until ex) of
                  (Some older, Some t) \<Rightarrow>
                    if older \<noteq> [] \<and> t > now then (Some older, Some t)
                    else (Some (ws_secret ex), Some (now + (pc_max_ttl_s cfg + pc_skew_s cfg) * 1000000))
                | _ \<Rightarrow> (Some (ws_secret ex), Some (now + (pc_max_ttl_s cfg + pc_skew_s cfg) * 1000000))))
      in p\<lparr>p_sessions := dset url
             \<lparr>ws_session = session_id, ws_secret = secret, ws_previous = prev, ws_previous_until = until\<rparr>
             (p_sessions p)\<rparr>)"

text \<open>
  \<open>_handshake_worker\<close>: \<open>reply\<close> is the session and the secret of the worker's answer, \<open>None\<close> when
  the request failed; blank fields count as a failure.
\<close>

definition handshake_worker :: "pool_cfg \<Rightarrow> instant \<Rightarrow> (string \<times> string) option \<Rightarrow> string \<Rightarrow> pool \<Rightarrow> bool \<times> pool" where
  "handshake_worker cfg now reply url p =
     (case reply of
        None \<Rightarrow> (False, p)
      | Some (s, sec) \<Rightarrow>
          if py_strip s = [] \<or> py_strip sec = [] then (False, p)
          else (True, register_worker_session cfg now url (py_strip s) (py_strip sec) p))"

section \<open>Health polling\<close>

text \<open>The answer to a health probe; a failed request is \<open>failed_probe\<close>.\<close>

record probe =
  pr_ok :: bool
  pr_active :: int
  pr_pipelines :: "string list"
  pr_worker :: string
  pr_session :: string

definition failed_probe :: probe where
  "failed_probe = \<lparr>pr_ok = False, pr_active = 0, pr_pipelines = [], pr_worker = [], pr_session = []\<rparr>"

definition note_session :: "string \<Rightarrow> probe \<Rightarrow> pool \<Rightarrow> pool" where
  "note_session url pr p =
     (let changed = (case dget (p_sessions p) url of
            Some ws \<Rightarrow> pr_ok pr \<and> pr_session pr \<noteq> [] \<and> pr_session pr \<noteq> ws_session ws | None \<Rightarrow> False)
      in if changed \<or> pr_session pr \<noteq> [] \<and> dhas url (p_refresh p)
         then p\<lparr>p_refresh := dset url (pr_session pr) (p_refresh p)\<rparr> else p)"

definition probed_health :: "pool_cfg \<Rightarrow> bool \<Rightarrow> bool \<Rightarrow> probe \<Rightarrow> whealth \<Rightarrow> whealth" where
  "probed_health cfg initial refreshing pr h =
     (if pr_ok pr
      then h\<lparr>h_ok := \<not> refreshing, h_failures := 0, h_active := pr_active pr, h_running := pr_pipelines pr\<rparr>
      else
        (let n = (if initial then failures_to_down cfg else h_failures h + 1)
         in h\<lparr>h_failures := n, h_ok := (h_ok h \<and> n < failures_to_down cfg), h_running := []\<rparr>))"

definition note_worker_id :: "string \<Rightarrow> string \<Rightarrow> pool \<Rightarrow> pool" where
  "note_worker_id url wid p =
     (if wid = [] then p
      else
        (let ids = (case dget (p_url_to_id p) url of
               Some old \<Rightarrow> if old \<noteq> [] \<and> old \<noteq> wid then dpop old (p_worker_ids p) else p_worker_ids p
             | None \<Rightarrow> p_worker_ids p)
         in p\<lparr>p_worker_ids := dset wid url ids, p_url_to_id := dset url wid (p_url_to_id p)\<rparr>))"

text \<open>What a poll does to one worker under the lock.\<close>

definition poll_update :: "pool_cfg \<Rightarrow> bool \<Rightarrow> string \<Rightarrow> probe \<Rightarrow> pool \<Rightarrow> pool" where
  "poll_update cfg initial url pr p =
     (let p1 = note_session url pr p;
          refreshing = (case dget (p_refresh p1) url of Some s \<Rightarrow> s \<noteq> [] | None \<Rightarrow> False)
      in case dget (p_health p1) url of
           None \<Rightarrow> p1
         | Some h \<Rightarrow>
             (let h' = probed_health cfg initial refreshing pr h;
                  p2 = p1\<lparr>p_health := dset url h' (p_health p1)\<rparr>;
                  p3 = (if h_ok h \<and> \<not> h_ok h' then reap_assignments_for_down_worker url p2 else p2)
              in note_worker_id url (pr_worker pr) p3))"

text \<open>A recovered or restarted worker is greeted again; the flag says whether to nudge the drain.\<close>

definition poll_recover ::
  "pool_cfg \<Rightarrow> instant \<Rightarrow> (string \<times> string) option \<Rightarrow> bool \<Rightarrow> string \<Rightarrow> probe \<Rightarrow> pool \<Rightarrow> bool \<times> pool" where
  "poll_recover cfg now reply prev_ok url pr p =
     (let refresh = (case dget (p_refresh p) url of Some s \<Rightarrow> if s \<noteq> [] then Some s else None | None \<Rightarrow> None)
      in if pr_ok pr \<and> (\<not> prev_ok \<or> refresh \<noteq> None)
         then
           (case handshake_worker cfg now reply url p of
              (ok, p1) \<Rightarrow>
                (case refresh of
                   None \<Rightarrow> (True, p1)
                 | Some s \<Rightarrow>
                     (let good = (ok \<and> (case dget (p_sessions p1) url of
                                            Some ws \<Rightarrow> ws_session ws = s | None \<Rightarrow> False));
                          p2 = set_health url (\<lambda>h. h\<lparr>h_ok := good\<rparr>) p1
                      in (good, if good then p2\<lparr>p_refresh := dpop url (p_refresh p2)\<rparr> else p2))))
         else (False, p))"

definition poll_worker ::
  "pool_cfg \<Rightarrow> bool \<Rightarrow> instant \<Rightarrow> (string \<times> string) option \<Rightarrow> string \<Rightarrow> probe \<Rightarrow> pool \<Rightarrow> bool \<times> pool" where
  "poll_worker cfg initial now reply url pr p =
     (let prev_ok = (case dget (p_health p) url of Some h \<Rightarrow> h_ok h | None \<Rightarrow> False)
      in poll_recover cfg now reply prev_ok url pr (poll_update cfg initial url pr p))"

definition poll_all ::
  "pool_cfg \<Rightarrow> bool \<Rightarrow> (string \<Rightarrow> instant) \<Rightarrow> (string \<Rightarrow> (string \<times> string) option) \<Rightarrow> (string \<Rightarrow> probe) \<Rightarrow> pool \<Rightarrow> pool" where
  "poll_all cfg initial now reply probes p =
     fold (\<lambda>url p. snd (poll_worker cfg initial (now url) (reply url) url (probes url) p)) (p_workers p) p"

definition healthy_workers :: "pool \<Rightarrow> string list" where
  "healthy_workers p = map fst (filter (\<lambda>(u, h). h_ok h) (p_health p))"

definition handshake_healthy_workers ::
  "pool_cfg \<Rightarrow> (string \<Rightarrow> instant) \<Rightarrow> (string \<Rightarrow> (string \<times> string) option) \<Rightarrow> pool \<Rightarrow> pool" where
  "handshake_healthy_workers cfg now reply p =
     fold (\<lambda>url p. snd (handshake_worker cfg (now url) (reply url) url p)) (healthy_workers p) p"

text \<open>\<open>start\<close>: the boot scan, which skips the debounce, then a handshake with every healthy worker.\<close>

definition pool_start ::
  "pool_cfg \<Rightarrow> (string \<Rightarrow> instant) \<Rightarrow> (string \<Rightarrow> (string \<times> string) option) \<Rightarrow> (string \<Rightarrow> probe) \<Rightarrow> pool \<Rightarrow> pool" where
  "pool_start cfg now reply probes p = handshake_healthy_workers cfg now reply (poll_all cfg True now reply probes p)"

section \<open>Placement\<close>

definition is_worker_healthy :: "string \<Rightarrow> pool \<Rightarrow> bool" where
  "is_worker_healthy url p = (case dget (p_health p) url of Some h \<Rightarrow> h_ok h | None \<Rightarrow> False)"

definition entry_load :: "int \<Rightarrow> stats_entry \<Rightarrow> rat" where
  "entry_load interval e =
     of_int (se_bytes_in e + se_bytes_out e) /
       max (if se_uptime e \<noteq> 0 then se_uptime e else of_int interval) (of_int interval)"

definition load_score :: "pool_cfg \<Rightarrow> instant \<Rightarrow> stats_store option \<Rightarrow> pool \<Rightarrow> string \<Rightarrow> rat" where
  "load_score cfg now store p url =
     (let fallback = (case dget (p_health p) url of Some h \<Rightarrow> of_int (h_active h) * 1000000 | None \<Rightarrow> 0)
      in case store of
           None \<Rightarrow> fallback
         | Some st \<Rightarrow>
             (case dget (p_url_to_id p) url of
                None \<Rightarrow> fallback
              | Some wid \<Rightarrow>
                  (let es = for_worker (pc_stats_interval cfg) now wid st
                   in if es = [] then fallback
                      else sum_list (map (entry_load (pc_stats_interval cfg)) es))))"

definition starvation :: "pool \<Rightarrow> string \<Rightarrow> nat" where
  "starvation p url = (case dget (p_starvation p) url of Some n \<Rightarrow> n | None \<Rightarrow> 0)"

definition starved :: "nat \<Rightarrow> pool \<Rightarrow> string \<Rightarrow> bool" where
  "starved t p url \<longleftrightarrow> starvation p url \<ge> t"

text \<open>The choice of one worker: the starved ones if there are any, the least loaded, round robin.\<close>

definition candidates_of :: "nat \<Rightarrow> string list \<Rightarrow> pool \<Rightarrow> string list" where
  "candidates_of t urls p =
     (if list_ex (starved t p) urls then filter (starved t p) urls else urls)"

definition select_one :: "nat \<Rightarrow> (string \<Rightarrow> rat) \<Rightarrow> string list \<Rightarrow> pool \<Rightarrow> string" where
  "select_one t score urls p =
     (let cs = candidates_of t urls p;
          m = Min (score ` set cs);
          tied = sort (filter (\<lambda>u. score u = m) cs)
      in tied ! (p_rr p mod length tied))"

definition select_many :: "nat \<Rightarrow> (string \<Rightarrow> rat) \<Rightarrow> string list \<Rightarrow> nat \<Rightarrow> pool \<Rightarrow> string list" where
  "select_many t score urls count p =
     (let st = sort_key score (filter (starved t p) urls);
          rest = sort_key score (filter (\<lambda>u. u \<notin> set st) urls)
      in take count (st @ rest))"

definition count_selection :: "string list \<Rightarrow> string list \<Rightarrow> pool \<Rightarrow> pool" where
  "count_selection urls sel p =
     p\<lparr>p_starvation :=
         fold (\<lambda>u s. dset u (if u \<in> set sel then 0
                             else (case dget s u of Some n \<Rightarrow> n + 1 | None \<Rightarrow> 1)) s) urls (p_starvation p)\<rparr>"

definition select_placements ::
  "nat \<Rightarrow> (string \<Rightarrow> rat) \<Rightarrow> string list \<Rightarrow> nat \<Rightarrow> pool \<Rightarrow> string list \<times> pool" where
  "select_placements t score urls count p =
     (if urls = [] then ([], p)
      else if count = 1
      then (let u = select_one t score urls p in ([u], count_selection urls [u] (p\<lparr>p_rr := p_rr p + 1\<rparr>)))
      else (let us = select_many t score urls count p in (us, count_selection urls us p)))"

definition least_loaded :: "nat \<Rightarrow> (string \<Rightarrow> rat) \<Rightarrow> pool \<Rightarrow> string option \<times> pool" where
  "least_loaded t score p =
     (case select_placements t score (healthy_workers p) 1 p of
        ([], p') \<Rightarrow> (None, p')
      | (u # us, p') \<Rightarrow> (Some u, p'))"

datatype workers_count = CountAll | Count int

record workers_config =
  wc_ids :: "string list option"
  wc_count :: workers_count

definition resolve :: "nat \<Rightarrow> (string \<Rightarrow> rat) \<Rightarrow> workers_config \<Rightarrow> pool \<Rightarrow> string list \<times> pool" where
  "resolve t score wc p =
     (case wc_ids wc of
        Some ids \<Rightarrow>
          (concat (map (\<lambda>i. case dget (p_worker_ids p) i of
                              Some u \<Rightarrow> if is_worker_healthy u p then [u] else [] | None \<Rightarrow> []) ids), p)
      | None \<Rightarrow>
          (let urls = healthy_workers p
           in select_placements t score urls
                (case wc_count wc of
                   CountAll \<Rightarrow> length urls
                 | Count n \<Rightarrow> if n > 1 then nat n else 1) p))"

section \<open>Dispatch\<close>

record run_payload =
  rp_run :: string
  rp_pipeline :: string
  rp_attempt :: "string option"
  rp_generation :: "int option"
  rp_slot :: string
  rp_authorization :: "string option"

text \<open>The token of a dispatch: none without a session; minting may refuse the fields.\<close>

definition mint_authorization ::
  "pool_cfg \<Rightarrow> int \<Rightarrow> string \<Rightarrow> string \<Rightarrow> string \<Rightarrow> int \<Rightarrow> string \<Rightarrow> pool \<Rightarrow> py_error + string option" where
  "mint_authorization cfg now_unix url attempt run generation slot p =
     (case dget (p_sessions p) url of
        None \<Rightarrow> Inr None
      | Some ws \<Rightarrow>
          map_sum id Some
            (mint_start_authorization (pc_sign cfg) attempt run generation slot (ws_session ws)
              (pc_token_ttl_s cfg) (ws_secret ws) now_unix))"

text \<open>The attempt a dispatch carries: the caller's, else the one registered for the run.\<close>

definition dispatch_identity :: "string \<Rightarrow> attempt_identity option \<Rightarrow> pool \<Rightarrow> attempt_identity option" where
  "dispatch_identity run given p = (case given of Some a \<Rightarrow> Some a | None \<Rightarrow> dget (p_attempts p) run)"

text \<open>
  \<open>_dispatch_to_worker\<close>: \<open>post\<close> answers the request with the text of its failure, if any. The
  result is the error or the payload sent.
\<close>

definition send_run ::
  "pool_cfg \<Rightarrow> int \<Rightarrow> (run_payload \<Rightarrow> string option) \<Rightarrow> string \<Rightarrow> string \<Rightarrow> string \<Rightarrow> attempt_identity option \<Rightarrow> pool
    \<Rightarrow> (string + run_payload) \<times> pool" where
  "send_run cfg now_unix post url run pipeline given p =
     (if dhas url (p_refresh p) then (Inl ''Worker authorization session refresh pending'', p)
      else
        (let ident = dispatch_identity run given p;
             auth = (case ident of
                       None \<Rightarrow> Inr None
                     | Some a \<Rightarrow> mint_authorization cfg now_unix url (ai_attempt a) run
                                       (case ai_generation a of Some g \<Rightarrow> g | None \<Rightarrow> 1) (ai_slot a) p)
         in case auth of
              Inl (ValueError m) \<Rightarrow> (Inl m, p)
            | Inl (TypeError m) \<Rightarrow> (Inl m, p)
            | Inr tok \<Rightarrow>
                (let payload = \<lparr>rp_run = run, rp_pipeline = pipeline, rp_attempt = map_option ai_attempt ident,
                                rp_generation = Option.bind ident ai_generation,
                                rp_slot = (case ident of Some a \<Rightarrow> ai_slot a | None \<Rightarrow> []), rp_authorization = tok\<rparr>
                 in case post payload of
                      Some e \<Rightarrow> (Inl e, p)
                    | None \<Rightarrow> (Inr payload, adopt_stream_assignment pipeline run url p))))"

definition dispatch_to_worker ::
  "pool_cfg \<Rightarrow> int \<Rightarrow> (run_payload \<Rightarrow> string option) \<Rightarrow> string \<Rightarrow> string \<Rightarrow> string \<Rightarrow> attempt_identity option \<Rightarrow> pool
    \<Rightarrow> bool \<times> pool" where
  "dispatch_to_worker cfg now_unix post url run pipeline given p =
     (if \<not> is_worker_healthy url p then (False, p)
      else (case send_run cfg now_unix post url run pipeline given p of
              (Inl e, p') \<Rightarrow> (False, p') | (Inr pl, p') \<Rightarrow> (True, p')))"

record slot_result =
  sr_index :: nat
  sr_url :: "string option"
  sr_worker :: "string option"
  sr_pinned :: "string option"
  sr_run :: string
  sr_current :: "string option"
  sr_error :: "string option"

definition slot_target :: "workers_config \<Rightarrow> string list \<Rightarrow> nat \<Rightarrow> pool \<Rightarrow> string option" where
  "slot_target wc urls i p =
     (case wc_ids wc of
        Some ids \<Rightarrow>
          (case dget (p_worker_ids p) (ids ! i) of
             Some u \<Rightarrow> if is_worker_healthy u p then Some u else None | None \<Rightarrow> None)
      | None \<Rightarrow> if i < length urls then Some (urls ! i) else None)"

definition slot_run_id :: "string \<Rightarrow> nat \<Rightarrow> nat \<Rightarrow> string" where
  "slot_run_id grp target i = (if target = 1 then grp else grp @ ''-w'' @ py_str (int i))"

fun dispatch_slots ::
  "pool_cfg \<Rightarrow> int \<Rightarrow> (string \<Rightarrow> run_payload \<Rightarrow> string option) \<Rightarrow> string \<Rightarrow> string \<Rightarrow> workers_config \<Rightarrow> string list
    \<Rightarrow> nat \<Rightarrow> attempt_identity option \<Rightarrow> nat list \<Rightarrow> pool \<Rightarrow> slot_result list \<times> pool" where
  "dispatch_slots cfg now_unix post grp pipeline wc urls target given [] p = ([], p)"
| "dispatch_slots cfg now_unix post grp pipeline wc urls target given (i # is) p =
     (let run = slot_run_id grp target i;
          url = slot_target wc urls i p;
          pinned = (case wc_ids wc of Some ids \<Rightarrow> Some (ids ! i) | None \<Rightarrow> None);
          sent = (case url of
                    None \<Rightarrow> (None, p)
                  | Some u \<Rightarrow>
                      (case send_run cfg now_unix (post u) u run pipeline given p of
                         (Inl e, p') \<Rightarrow> (Some (Inl e), p') | (Inr pl, p') \<Rightarrow> (Some (Inr ()), p')));
          p1 = snd sent;
          wid = (case pinned of
                   Some w \<Rightarrow> if w \<noteq> [] then Some w
                             else (case url of Some u \<Rightarrow> dget (p_url_to_id p1) u | None \<Rightarrow> None)
                 | None \<Rightarrow> (case url of Some u \<Rightarrow> dget (p_url_to_id p1) u | None \<Rightarrow> None));
          slot = \<lparr>sr_index = i, sr_url = url, sr_worker = wid, sr_pinned = pinned, sr_run = run,
                  sr_current = (if fst sent = Some (Inr ()) then Some run else None),
                  sr_error = (case fst sent of Some (Inl e) \<Rightarrow> Some e | _ \<Rightarrow> None)\<rparr>
      in case dispatch_slots cfg now_unix post grp pipeline wc urls target given is p1 of
           (slots, p2) \<Rightarrow> (slot # slots, p2))"

record broadcast_result =
  br_group :: string
  br_accepted :: "string list"
  br_runs :: "string list"
  br_rejected :: "string list"
  br_status :: string
  br_slots :: "slot_result list"

definition target_slots :: "workers_config \<Rightarrow> string list \<Rightarrow> nat" where
  "target_slots wc urls =
     (case wc_ids wc of
        Some ids \<Rightarrow> length ids
      | None \<Rightarrow> (case wc_count wc of CountAll \<Rightarrow> length urls | Count n \<Rightarrow> if n \<noteq> 0 then nat n else 1))"

definition broadcast_of :: "string \<Rightarrow> nat \<Rightarrow> slot_result list \<Rightarrow> broadcast_result" where
  "broadcast_of grp target slots =
     (let acc = filter (\<lambda>s. sr_current s \<noteq> None) slots; rej = filter (\<lambda>s. sr_error s \<noteq> None) slots
      in \<lparr>br_group = grp, br_accepted = concat (map (\<lambda>s. case sr_url s of Some u \<Rightarrow> [u] | None \<Rightarrow> []) acc),
          br_runs = map sr_run acc, br_rejected = concat (map (\<lambda>s. case sr_url s of Some u \<Rightarrow> [u] | None \<Rightarrow> []) rej),
          br_status = (if acc = [] then ''error''
                       else if length acc = target \<and> rej = [] then ''running'' else ''degraded''),
          br_slots = slots\<rparr>)"

definition multi_dispatch ::
  "pool_cfg \<Rightarrow> (string \<Rightarrow> rat) \<Rightarrow> int \<Rightarrow> (string \<Rightarrow> run_payload \<Rightarrow> string option) \<Rightarrow> string \<Rightarrow> string \<Rightarrow> workers_config
    \<Rightarrow> attempt_identity option \<Rightarrow> pool \<Rightarrow> broadcast_result \<times> pool" where
  "multi_dispatch cfg score now_unix post grp pipeline wc given p =
     (case resolve (fair_threshold cfg) score wc p of
        (urls, p1) \<Rightarrow>
          if urls = [] \<and> wc_ids wc = None
          then (\<lparr>br_group = grp, br_accepted = [], br_runs = [], br_rejected = [], br_status = ''error'',
                 br_slots = []\<rparr>, p1)
          else
            (let target = target_slots wc urls
             in case dispatch_slots cfg now_unix post grp pipeline wc urls target given [0..<target] p1 of
                  (slots, p2) \<Rightarrow> (broadcast_of grp target slots, p2)))"

datatype dispatch_outcome = DispatchAccepted string | DispatchFailed "string option" | DispatchNoCapacity

definition dispatch_with_result ::
  "pool_cfg \<Rightarrow> (string \<Rightarrow> rat) \<Rightarrow> int \<Rightarrow> (string \<Rightarrow> run_payload \<Rightarrow> string option) \<Rightarrow> string \<Rightarrow> string
    \<Rightarrow> attempt_identity option \<Rightarrow> pool \<Rightarrow> dispatch_outcome \<times> pool" where
  "dispatch_with_result cfg score now_unix post run pipeline given p =
     (case multi_dispatch cfg score now_unix post run pipeline \<lparr>wc_ids = None, wc_count = Count 1\<rparr> given p of
        (r, p') \<Rightarrow>
          (case br_accepted r of
             u # us \<Rightarrow> (DispatchAccepted u, p')
           | [] \<Rightarrow>
               if br_rejected r \<noteq> []
               then (DispatchFailed (case br_slots r of s # ss \<Rightarrow> sr_error s | [] \<Rightarrow> None), p')
               else (DispatchNoCapacity, p')))"

text \<open>\<open>dispatch\<close> answers the worker only.\<close>

definition dispatch ::
  "pool_cfg \<Rightarrow> (string \<Rightarrow> rat) \<Rightarrow> int \<Rightarrow> (string \<Rightarrow> run_payload \<Rightarrow> string option) \<Rightarrow> string \<Rightarrow> string
    \<Rightarrow> attempt_identity option \<Rightarrow> pool \<Rightarrow> string option \<times> pool" where
  "dispatch cfg score now_unix post run pipeline given p =
     (case dispatch_with_result cfg score now_unix post run pipeline given p of
        (DispatchAccepted u, p') \<Rightarrow> (Some u, p') | (_, p') \<Rightarrow> (None, p'))"

text \<open>The worker a stop request goes to.\<close>

definition stop_run :: "string \<Rightarrow> pool \<Rightarrow> string option" where
  "stop_run run p = (case dget (p_assignments p) run of Some u \<Rightarrow> if u \<noteq> [] then Some u else None | None \<Rightarrow> None)"

text \<open>
  \<open>stop_pipeline_runs\<close>: \<open>status\<close> is the list of active runs a worker reports with their pipelines,
  \<open>None\<close> when the probe fails; \<open>stop\<close> says whether the stop request to a worker succeeds.
\<close>

definition stop_pipeline_runs ::
  "(string \<Rightarrow> (string \<times> string) list option) \<Rightarrow> (string \<Rightarrow> string \<Rightarrow> bool) \<Rightarrow> string \<Rightarrow> pool \<Rightarrow> string list" where
  "stop_pipeline_runs status stop pipeline p =
     concat (map (\<lambda>url. case status url of
         None \<Rightarrow> []
       | Some active \<Rightarrow>
           filter (stop url) (map fst (filter (\<lambda>(run, name). name = pipeline \<and> run \<noteq> []) active))) (p_workers p))"

section \<open>Queries\<close>

definition workers_for_pipeline :: "string \<Rightarrow> pool \<Rightarrow> string list" where
  "workers_for_pipeline pipeline p = (case dget (p_pipeline_workers p) pipeline of Some ws \<Rightarrow> ws | None \<Rightarrow> [])"

definition worker_id_for_url :: "string \<Rightarrow> pool \<Rightarrow> string option" where
  "worker_id_for_url url p = dget (p_url_to_id p) url"

definition url_for_worker_id :: "string \<Rightarrow> pool \<Rightarrow> string option" where
  "url_for_worker_id wid p = dget (p_worker_ids p) wid"

end
