(* ===== verification/Pool_Props.thy ===== *)
theory Pool_Props
  imports Worker_Pool Sql_Table
begin

text \<open>
  Properties of the worker pool: the run bookkeeping stays consistent and bounded through every
  operation; the health debounce and what it reaps; and fair placement, which reaches every
  healthy worker when there are at most one more of them than the starvation threshold, and
  can pass one over for ever when there are more.
\<close>

section \<open>Run bookkeeping\<close>

lemma pipeline_active_iff: "dwf r \<Longrightarrow> pipeline_active name r \<longleftrightarrow> (\<exists>run. dget r run = Some name)"
  unfolding pipeline_active_def by (force dest: dget_SomeD intro: dget_mem)

text \<open>
  Everything but the assignments to worker \<open>x\<close> is consistent: a run is assigned iff it has a
  pipeline, the pipelines with a worker list are those of the assigned runs, and the list of a
  run's pipeline contains its worker.
\<close>

definition books_but :: "string set \<Rightarrow> (string \<Rightarrow> string) \<Rightarrow> pool \<Rightarrow> bool" where
  "books_but X pipe p \<longleftrightarrow>
     dwf (p_assignments p) \<and> dwf (p_run_pipelines p) \<and> dwf (p_pipeline_workers p) \<and>
     (\<forall>run. dget (p_assignments p) run = None \<longleftrightarrow> dget (p_run_pipelines p) run = None) \<and>
     (\<forall>run name. dget (p_run_pipelines p) run = Some name \<longrightarrow> name = pipe run) \<and>
     (\<forall>name. dget (p_pipeline_workers p) name \<noteq> None \<longleftrightarrow> (\<exists>run. dget (p_run_pipelines p) run = Some name)) \<and>
     (\<forall>run url. dget (p_assignments p) run = Some url \<longrightarrow> url \<notin> X \<longrightarrow>
        (\<exists>ws. dget (p_pipeline_workers p) (pipe run) = Some ws \<and> url \<in> set ws))"

lemma books_butI:
  assumes "dwf (p_assignments p)" "dwf (p_run_pipelines p)" "dwf (p_pipeline_workers p)"
    and "\<And>run. dget (p_assignments p) run = None \<longleftrightarrow> dget (p_run_pipelines p) run = None"
    and "\<And>run name. dget (p_run_pipelines p) run = Some name \<Longrightarrow> name = pipe run"
    and "\<And>name. dget (p_pipeline_workers p) name \<noteq> None \<longleftrightarrow> (\<exists>run. dget (p_run_pipelines p) run = Some name)"
    and "\<And>run url. dget (p_assignments p) run = Some url \<Longrightarrow> url \<notin> X \<Longrightarrow>
        \<exists>ws. dget (p_pipeline_workers p) (pipe run) = Some ws \<and> url \<in> set ws"
  shows "books_but X pipe p"
  using assms by (simp add: books_but_def)

lemma books_butD:
  assumes "books_but X pipe p"
  shows "dwf (p_assignments p)" "dwf (p_run_pipelines p)" "dwf (p_pipeline_workers p)"
    and "dget (p_assignments p) run = None \<longleftrightarrow> dget (p_run_pipelines p) run = None"
    and "dget (p_run_pipelines p) run = Some name \<Longrightarrow> name = pipe run"
    and "dget (p_pipeline_workers p) name \<noteq> None \<longleftrightarrow> (\<exists>run. dget (p_run_pipelines p) run = Some name)"
    and "dget (p_assignments p) run = Some url \<Longrightarrow> url \<notin> X \<Longrightarrow>
        \<exists>ws. dget (p_pipeline_workers p) (pipe run) = Some ws \<and> url \<in> set ws"
  using assms by (simp_all add: books_but_def)

lemma books_frame:
  "p_assignments q = p_assignments p \<Longrightarrow> p_run_pipelines q = p_run_pipelines p \<Longrightarrow>
     p_pipeline_workers q = p_pipeline_workers p \<Longrightarrow> books_but X pipe q = books_but X pipe p"
  by (simp add: books_but_def)

lemma set_health_frame [simp]:
  "p_assignments (set_health url f p) = p_assignments p"
  "p_run_pipelines (set_health url f p) = p_run_pipelines p"
  "p_pipeline_workers (set_health url f p) = p_pipeline_workers p"
  "p_refresh (set_health url f p) = p_refresh p" "p_workers (set_health url f p) = p_workers p"
  "p_sessions (set_health url f p) = p_sessions p"
  by (simp_all add: set_health_def split: option.splits)

lemma set_health_books [simp]: "books_but X pipe (set_health url f p) = books_but X pipe p"
  by (rule books_frame) simp_all

lemma adopt_books:
  assumes "books_but {} pipe p" "pipe run = name"
  shows "books_but {} pipe (adopt_stream_assignment name run url p)"
proof -
  note D = books_butD [OF assms(1)]
  let ?ws = "case dget (p_pipeline_workers p) name of Some ws \<Rightarrow> ws | None \<Rightarrow> []"
  let ?q = "p\<lparr>p_assignments := dset run url (p_assignments p),
      p_run_pipelines := dset run name (p_run_pipelines p),
      p_pipeline_workers := dset name (if url \<in> set ?ws then ?ws else ?ws @ [url]) (p_pipeline_workers p)\<rparr>"
  have "books_but {} pipe ?q"
  proof (rule books_butI)
    show "dget (p_assignments ?q) r = None \<longleftrightarrow> dget (p_run_pipelines ?q) r = None" for r
      using D(4) by simp
    show "n = pipe r" if "dget (p_run_pipelines ?q) r = Some n" for r n
      using that D(5) assms(2) by (auto split: if_splits)
    show "dget (p_pipeline_workers ?q) n \<noteq> None \<longleftrightarrow> (\<exists>r. dget (p_run_pipelines ?q) r = Some n)" for n
    proof (cases "n = name")
      case True
      then show ?thesis by auto
    next
      case False
      then have "dget (p_run_pipelines ?q) r = Some n \<longleftrightarrow> dget (p_run_pipelines p) r = Some n" for r
        using D(5) [of r n] assms(2) by auto
      then show ?thesis using D(6) [of n] False by simp
    qed
    show "\<exists>ws. dget (p_pipeline_workers ?q) (pipe r) = Some ws \<and> u \<in> set ws"
      if a: "dget (p_assignments ?q) r = Some u" for r u
    proof (cases "r = run")
      case True
      then show ?thesis using a assms(2) by simp
    next
      case False
      then obtain ws where "dget (p_pipeline_workers p) (pipe r) = Some ws" "u \<in> set ws"
        using a D(7) [of r u] by auto
      then show ?thesis by auto
    qed
  qed (use D in simp_all)
  then show ?thesis by (simp add: adopt_stream_assignment_def Let_def)
qed

text \<open>A run leaves: its entries go, and its pipeline's list with the last run of it.\<close>

lemma release_books:
  assumes "books_but X pipe p" "dget (p_run_pipelines p) run = Some name"
    and "p_assignments q = dpop run (p_assignments p)" "p_run_pipelines q = dpop run (p_run_pipelines p)"
    and "p_pipeline_workers q = p_pipeline_workers p \<or>
         (\<exists>ws url. dget (p_pipeline_workers p) name = Some ws \<and> url \<in> X \<and>
            p_pipeline_workers q = dset name (remove1 url ws) (p_pipeline_workers p))"
  shows "books_but X pipe (prune_pipeline name q)"
proof -
  note D = books_butD [OF assms(1)]
  obtain g where q: "p_pipeline_workers q = p_pipeline_workers p \<or>
      dget (p_pipeline_workers p) name \<noteq> None \<and> p_pipeline_workers q = dset name g (p_pipeline_workers p)"
    and g: "\<And>ws u. dget (p_pipeline_workers p) name = Some ws \<Longrightarrow> u \<in> set ws \<Longrightarrow> u \<notin> X \<Longrightarrow>
      p_pipeline_workers q \<noteq> p_pipeline_workers p \<Longrightarrow> u \<in> set g"
  proof (cases "p_pipeline_workers q = p_pipeline_workers p")
    case True
    then show ?thesis using that by blast
  next
    case False
    then obtain ws url where ws: "dget (p_pipeline_workers p) name = Some ws" "url \<in> X"
        "p_pipeline_workers q = dset name (remove1 url ws) (p_pipeline_workers p)"
      using assms(5) by blast
    have "u \<in> set (remove1 url ws)" if "u \<in> set ws" "u \<notin> X" for u
      using that ws(2) by (subst in_set_remove1) auto
    then show ?thesis by (intro that [of "remove1 url ws"]) (simp_all add: ws)
  qed
  have W: "dwf (p_pipeline_workers q)" "dget (p_pipeline_workers q) n = None \<longleftrightarrow> dget (p_pipeline_workers p) n = None" for n
    using q D(3) by (auto split: if_splits)
  have W3: "\<exists>ws'. dget (p_pipeline_workers q) n = Some ws' \<and> u \<in> set ws'"
    if "dget (p_pipeline_workers p) n = Some ws" "u \<in> set ws" "u \<notin> X" for n ws u
  proof (cases "p_pipeline_workers q = p_pipeline_workers p")
    case True
    then show ?thesis using that by simp
  next
    case False
    then have e: "p_pipeline_workers q = dset name g (p_pipeline_workers p)" using q by simp
    show ?thesis
    proof (cases "n = name")
      case True
      then have "u \<in> set g" using g [OF _ that(2,3) False] that(1) by simp
      then show ?thesis using True by (simp add: e)
    qed (use that in \<open>simp add: e\<close>)
  qed
  have R: "dget (p_run_pipelines q) r = (if r = run then None else dget (p_run_pipelines p) r)"
    and A: "dget (p_assignments q) r = (if r = run then None else dget (p_assignments p) r)" for r
    using assms(3,4) D(1,2) by (simp_all add: dget_dpop)
  have dw: "dwf (p_assignments q)" "dwf (p_run_pipelines q)" using assms(3,4) D(1,2) by simp_all
  have act: "pipeline_active name (p_run_pipelines q) \<longleftrightarrow> (\<exists>r. dget (p_run_pipelines q) r = Some name)"
    by (rule pipeline_active_iff) (rule dw(2))
  let ?z = "prune_pipeline name q"
  let ?last = "\<not> (\<exists>r. dget (p_run_pipelines q) r = Some name)"
  have P: "p_assignments ?z = p_assignments q" "p_run_pipelines ?z = p_run_pipelines q" "dwf (p_pipeline_workers ?z)"
    using W(1) by (simp_all add: prune_pipeline_def)
  have PW: "dget (p_pipeline_workers ?z) n = (if n = name \<and> ?last then None else dget (p_pipeline_workers q) n)" for n
    using act W(1) by (simp add: prune_pipeline_def dget_dpop)
  show ?thesis
  proof (rule books_butI)
    show "dget (p_assignments ?z) r = None \<longleftrightarrow> dget (p_run_pipelines ?z) r = None" for r
      using D(4) [of r] by (simp add: P A R)
    show "n = pipe r" if "dget (p_run_pipelines ?z) r = Some n" for r n
      using that D(5) [of r n] by (simp add: P R split: if_splits)
    show "dget (p_pipeline_workers ?z) n \<noteq> None \<longleftrightarrow> (\<exists>r. dget (p_run_pipelines ?z) r = Some n)" for n
    proof (cases "n = name")
      case True
      have "dget (p_pipeline_workers q) name \<noteq> None" using D(6) [of name] W(2) [of name] assms(2) by auto
      then show ?thesis using True by (cases ?last) (simp_all add: PW P)
    next
      case False
      then have "dget (p_run_pipelines q) r = Some n \<longleftrightarrow> dget (p_run_pipelines p) r = Some n" for r
        using assms(2) by (simp add: R)
      then show ?thesis using False D(6) [of n] W(2) [of n] by (simp add: PW P)
    qed
    show "\<exists>ws. dget (p_pipeline_workers ?z) (pipe r) = Some ws \<and> u \<in> set ws"
      if z: "dget (p_assignments ?z) r = Some u" "u \<notin> X" for r u
    proof -
      have a: "r \<noteq> run" "dget (p_assignments p) r = Some u" using z(1) by (simp_all add: P A split: if_splits)
      then obtain ws where "dget (p_pipeline_workers p) (pipe r) = Some ws" "u \<in> set ws"
        using D(7) z(2) by blast
      then obtain ws' where ws': "dget (p_pipeline_workers q) (pipe r) = Some ws'" "u \<in> set ws'"
        using W3 z(2) by blast
      have "dget (p_run_pipelines p) r \<noteq> None" using a D(4) [of r] by simp
      then have "dget (p_run_pipelines q) r = Some (pipe r)" using a(1) D(5) [of r] by (auto simp: R)
      then have "\<not> (pipe r = name \<and> ?last)" by blast
      then show ?thesis using ws' by (simp add: PW)
    qed
  qed (simp_all add: P dw)
qed

lemma on_run_complete_books:
  assumes "books_but {} pipe p"
  shows "books_but {} pipe (on_run_complete run p)"
proof -
  let ?p1 = "p\<lparr>p_assignments := dpop run (p_assignments p), p_run_pipelines := dpop run (p_run_pipelines p),
      p_attempts := dpop run (p_attempts p)\<rparr>"
  let ?p2 = "case dget (p_assignments p) run of
      Some url \<Rightarrow> if url \<noteq> [] then set_health url (\<lambda>h. h\<lparr>h_active := max 0 (h_active h - 1)\<rparr>) ?p1 else ?p1
    | None \<Rightarrow> ?p1"
  have f: "p_assignments ?p2 = dpop run (p_assignments p)" "p_run_pipelines ?p2 = dpop run (p_run_pipelines p)"
      "p_pipeline_workers ?p2 = p_pipeline_workers p"
    by (simp_all split: option.splits)
  show ?thesis
  proof (cases "dget (p_run_pipelines p) run")
    case None
    then have "run \<notin> set (dkeys (p_run_pipelines p))" "run \<notin> set (dkeys (p_assignments p))"
      using books_butD(4) [OF assms, of run] by (simp_all add: dget_None_iff)
    then have "books_but {} pipe ?p2" using assms f books_frame [of ?p2 p] by simp
    then show ?thesis using None by (simp add: on_run_complete_def Let_def)
  next
    case (Some name)
    then show ?thesis using release_books [OF assms Some f(1,2)] f(3) by (simp add: on_run_complete_def Let_def)
  qed
qed

lemma reap_run_books:
  assumes "books_but {url} pipe p"
  shows "books_but {url} pipe (reap_run url run p)"
proof (cases "dget (p_run_pipelines p) run")
  case None
  then have "run \<notin> set (dkeys (p_run_pipelines p))" "run \<notin> set (dkeys (p_assignments p))"
    using books_butD(4) [OF assms, of run] by (simp_all add: dget_None_iff)
  then show ?thesis using assms None books_frame [of "reap_run url run p" p] by (simp add: reap_run_def)
next
  case (Some name)
  let ?p1 = "p\<lparr>p_assignments := dpop run (p_assignments p), p_attempts := dpop run (p_attempts p),
      p_run_pipelines := dpop run (p_run_pipelines p)\<rparr>"
  let ?q = "case dget (p_pipeline_workers p) name of
      None \<Rightarrow> ?p1 | Some ws \<Rightarrow> ?p1\<lparr>p_pipeline_workers := dset name (remove1 url ws) (p_pipeline_workers p)\<rparr>"
  have "books_but {url} pipe (prune_pipeline name ?q)"
    by (rule release_books [OF assms Some]) (auto split: option.splits)
  then show ?thesis using Some by (simp add: reap_run_def Let_def cong: option.case_cong)
qed

lemma reap_run_assignments:
  "p_assignments (reap_run url run p) = dpop run (p_assignments p)"
  by (simp add: reap_run_def prune_pipeline_def Let_def split: option.splits)

lemma reap_runs_assignments:
  "p_assignments (fold (reap_run url) runs p) = fold dpop runs (p_assignments p)"
  by (induction runs arbitrary: p) (simp_all add: reap_run_assignments)

lemma reap_runs_books: "books_but {url} pipe p \<Longrightarrow> books_but {url} pipe (fold (reap_run url) runs p)"
  by (induction runs arbitrary: p) (simp_all add: reap_run_books)

text \<open>The reaping removes exactly the worker's runs.\<close>

lemma reap_lookup:
  assumes "dwf (p_assignments p)"
  shows "dget (p_assignments (reap_assignments_for_down_worker url p)) run =
    (if dget (p_assignments p) run = Some url then None else dget (p_assignments p) run)"
proof -
  let ?runs = "map fst (filter (\<lambda>(run, u). u = url) (p_assignments p))"
  have "dget (fold dpop ?runs (p_assignments p)) run = (if run \<in> set ?runs then None else dget (p_assignments p) run)"
    using pydict.lookup_fold_delete [OF assms] .
  moreover have "run \<in> set ?runs \<longleftrightarrow> dget (p_assignments p) run = Some url"
    using dget_SomeD [of "p_assignments p" run url] dget_mem [OF assms, of run url] by force
  moreover have "p_assignments (reap_assignments_for_down_worker url p) = fold dpop ?runs (p_assignments p)"
    by (simp only: reap_assignments_for_down_worker_def Let_def if_distrib [of p_assignments] set_health_frame
        if_cancel reap_runs_assignments)
  ultimately show ?thesis by simp
qed

lemma reap_clears:
  "dwf (p_assignments p) \<Longrightarrow> dget (p_assignments (reap_assignments_for_down_worker url p)) run \<noteq> Some url"
  by (simp add: reap_lookup)

lemma reap_books:
  assumes "books_but {} pipe p"
  shows "books_but {} pipe (reap_assignments_for_down_worker url p)"
proof -
  let ?q = "reap_assignments_for_down_worker url p"
  have "books_but {url} pipe p" using assms by (simp add: books_but_def)
  then have "books_but {url} pipe ?q"
    by (simp add: reap_assignments_for_down_worker_def Let_def reap_runs_books)
  note D = books_butD [OF this]
  show ?thesis
  proof (rule books_butI)
    show "\<exists>ws. dget (p_pipeline_workers ?q) (pipe run) = Some ws \<and> u \<in> set ws"
      if "dget (p_assignments ?q) run = Some u" for run u
      using D(7) [OF that] that reap_clears [OF books_butD(1) [OF assms], of url run] by auto
  qed (use D in blast)+
qed

lemma note_session_frame [simp]:
  "p_assignments (note_session url pr p) = p_assignments p"
  "p_run_pipelines (note_session url pr p) = p_run_pipelines p"
  "p_pipeline_workers (note_session url pr p) = p_pipeline_workers p"
  "p_health (note_session url pr p) = p_health p"
  by (simp_all add: note_session_def Let_def)

lemma note_worker_id_frame [simp]:
  "p_assignments (note_worker_id url w p) = p_assignments p"
  "p_run_pipelines (note_worker_id url w p) = p_run_pipelines p"
  "p_pipeline_workers (note_worker_id url w p) = p_pipeline_workers p"
  "p_health (note_worker_id url w p) = p_health p" "p_refresh (note_worker_id url w p) = p_refresh p"
  by (simp_all add: note_worker_id_def Let_def)

lemma handshake_frame [simp]:
  "p_assignments (snd (handshake_worker cfg now reply url p)) = p_assignments p"
  "p_run_pipelines (snd (handshake_worker cfg now reply url p)) = p_run_pipelines p"
  "p_pipeline_workers (snd (handshake_worker cfg now reply url p)) = p_pipeline_workers p"
  by (simp_all add: handshake_worker_def register_worker_session_def Let_def split: option.splits prod.splits)

lemma poll_recover_frame [simp]:
  "p_assignments (snd (poll_recover cfg now reply ok url pr p)) = p_assignments p"
  "p_run_pipelines (snd (poll_recover cfg now reply ok url pr p)) = p_run_pipelines p"
  "p_pipeline_workers (snd (poll_recover cfg now reply ok url pr p)) = p_pipeline_workers p"
  by (simp_all add: poll_recover_def Let_def case_prod_unfold split: option.split)

lemma poll_update_books:
  assumes "books_but {} pipe p"
  shows "books_but {} pipe (poll_update cfg initial url pr p)"
proof -
  have n: "books_but {} pipe (note_worker_id url w q) = books_but {} pipe q" for w q
    by (rule books_frame) simp_all
  have h: "books_but {} pipe (q\<lparr>p_health := x\<rparr>) = books_but {} pipe q" for q x
    by (rule books_frame) simp_all
  have s: "books_but {} pipe (note_session url pr p)"
    using assms by (subst books_frame [where p = p]) simp_all
  show ?thesis
  proof (cases "dget (p_health p) url")
    case None
    then show ?thesis using s by (simp add: poll_update_def Let_def)
  next
    case (Some a)
    have "books_but {} pipe (q\<lparr>p_health := x\<rparr>)" "books_but {} pipe (reap_assignments_for_down_worker url (q\<lparr>p_health := x\<rparr>))"
      if "books_but {} pipe q" for q x
      using that by (simp_all add: h reap_books)
    then show ?thesis using s Some by (simp add: poll_update_def Let_def n)
  qed
qed

lemma poll_worker_books:
  "books_but {} pipe p \<Longrightarrow> books_but {} pipe (snd (poll_worker cfg initial now reply url pr p))"
  unfolding poll_worker_def Let_def
  by (subst books_frame [where p = "poll_update cfg initial url pr p"],
      (rule poll_recover_frame)+, rule poll_update_books)

lemma poll_all_books: "books_but {} pipe p \<Longrightarrow> books_but {} pipe (poll_all cfg initial now reply probes p)"
proof -
  have "books_but {} pipe p \<Longrightarrow>
      books_but {} pipe (fold (\<lambda>url p. snd (poll_worker cfg initial (now url) (reply url) url (probes url) p)) us p)" for us p
    by (induction us arbitrary: p) (simp_all add: poll_worker_books)
  then show "books_but {} pipe p \<Longrightarrow> ?thesis" by (simp add: poll_all_def)
qed

text \<open>Placement and the sessions do not touch the books.\<close>

lemma select_placements_frame [simp]:
  "p_assignments (snd (select_placements t score urls n p)) = p_assignments p"
  "p_run_pipelines (snd (select_placements t score urls n p)) = p_run_pipelines p"
  "p_pipeline_workers (snd (select_placements t score urls n p)) = p_pipeline_workers p"
  by (simp_all add: select_placements_def count_selection_def Let_def)

lemma resolve_frame [simp]:
  "p_assignments (snd (resolve t score wc p)) = p_assignments p"
  "p_run_pipelines (snd (resolve t score wc p)) = p_run_pipelines p"
  "p_pipeline_workers (snd (resolve t score wc p)) = p_pipeline_workers p"
  by (simp_all add: resolve_def Let_def split: option.split)

lemma handshake_healthy_books:
  "books_but X pipe (handshake_healthy_workers cfg now reply p) = books_but X pipe p"
proof -
  let ?f = "\<lambda>url p. snd (handshake_worker cfg (now url) (reply url) url p)"
  have "p_assignments (fold ?f us p) = p_assignments p \<and> p_run_pipelines (fold ?f us p) = p_run_pipelines p \<and>
      p_pipeline_workers (fold ?f us p) = p_pipeline_workers p" for us
    by (induction us arbitrary: p) simp_all
  then show ?thesis unfolding handshake_healthy_workers_def by (intro books_frame) simp_all
qed

lemma send_run_books:
  assumes "books_but {} pipe p" "pipe run = name"
  shows "books_but {} pipe (snd (send_run cfg now_unix post url run name given p))"
  using assms adopt_books [OF assms]
  by (simp add: send_run_def Let_def split: option.split sum.split py_error.split)

lemma dispatch_slots_books:
  assumes "books_but {} pipe p" "\<And>i. pipe (slot_run_id grp target i) = name"
  shows "books_but {} pipe (snd (dispatch_slots cfg now_unix post grp name wc urls target given is p))"
  using assms(1)
proof (induction "is" arbitrary: p)
  case Nil
  then show ?case by simp
next
  case (Cons i js)
  let ?p1 = "case slot_target wc urls i p of
      None \<Rightarrow> p
    | Some u \<Rightarrow> snd (send_run cfg now_unix (post u) u (slot_run_id grp target i) name given p)"
  have "books_but {} pipe ?p1"
    using Cons.prems assms(2) by (simp add: send_run_books split: option.split)
  note IH = Cons.IH [OF this]
  have "snd (dispatch_slots cfg now_unix post grp name wc urls target given (i # js) p) =
      snd (dispatch_slots cfg now_unix post grp name wc urls target given js ?p1)"
    by (simp add: Let_def case_prod_unfold split: option.split sum.split)
  then show ?case using IH by simp
qed

text \<open>Every run a dispatch of a placement group starts belongs to one pipeline.\<close>

definition group_named :: "(string \<Rightarrow> string) \<Rightarrow> string \<Rightarrow> string \<Rightarrow> bool" where
  "group_named pipe grp name \<longleftrightarrow> (\<forall>target i. pipe (slot_run_id grp target i) = name)"

lemma multi_dispatch_books:
  assumes "books_but {} pipe p" "group_named pipe grp name"
  shows "books_but {} pipe (snd (multi_dispatch cfg score now_unix post grp name wc given p))"
proof -
  let ?r = "resolve (fair_threshold cfg) score wc p"
  have "books_but {} pipe (snd ?r)" using assms(1) by (subst books_frame [where p = p]) simp_all
  then show ?thesis
    using dispatch_slots_books [of pipe "snd ?r"] assms(2)
    by (simp add: multi_dispatch_def group_named_def Let_def case_prod_unfold)
qed

lemma dispatch_with_result_books:
  assumes "books_but {} pipe p" "group_named pipe run name"
  shows "books_but {} pipe (snd (dispatch_with_result cfg score now_unix post run name given p))"
  using multi_dispatch_books [OF assms]
  by (simp add: dispatch_with_result_def case_prod_unfold split: list.split)

section \<open>The calls on a pool\<close>

datatype pool_op =
    PoolStart "string \<Rightarrow> instant" "string \<Rightarrow> (string \<times> string) option" "string \<Rightarrow> probe"
  | PoolPoll "string \<Rightarrow> instant" "string \<Rightarrow> (string \<times> string) option" "string \<Rightarrow> probe"
  | PoolAdopt string string string
  | PoolRegister string attempt_identity
  | PoolComplete string
  | PoolBroadcast "string \<Rightarrow> rat" int "string \<Rightarrow> run_payload \<Rightarrow> string option" string string workers_config "attempt_identity option"
  | PoolDispatch "string \<Rightarrow> rat" int "string \<Rightarrow> run_payload \<Rightarrow> string option" string string "attempt_identity option"
  | PoolDispatchTo int "run_payload \<Rightarrow> string option" string string string "attempt_identity option"
  | PoolSelect "string \<Rightarrow> rat"

fun pool_step :: "pool_cfg \<Rightarrow> pool_op \<Rightarrow> pool \<Rightarrow> pool" where
  "pool_step cfg (PoolStart now reply probes) p = pool_start cfg now reply probes p"
| "pool_step cfg (PoolPoll now reply probes) p = poll_all cfg False now reply probes p"
| "pool_step cfg (PoolAdopt name run url) p = adopt_stream_assignment name run url p"
| "pool_step cfg (PoolRegister run a) p = register_attempt run a p"
| "pool_step cfg (PoolComplete run) p = on_run_complete run p"
| "pool_step cfg (PoolBroadcast score now_unix post grp name wc given) p =
     snd (multi_dispatch cfg score now_unix post grp name wc given p)"
| "pool_step cfg (PoolDispatch score now_unix post run name given) p =
     snd (dispatch_with_result cfg score now_unix post run name given p)"
| "pool_step cfg (PoolDispatchTo now_unix post url run name given) p =
     snd (dispatch_to_worker cfg now_unix post url run name given p)"
| "pool_step cfg (PoolSelect score) p = snd (least_loaded (fair_threshold cfg) score p)"

text \<open>A run identifier is used for one pipeline only.\<close>

fun op_named :: "(string \<Rightarrow> string) \<Rightarrow> pool_op \<Rightarrow> bool" where
  "op_named pipe (PoolAdopt name run url) \<longleftrightarrow> pipe run = name"
| "op_named pipe (PoolBroadcast score now_unix post grp name wc given) \<longleftrightarrow> group_named pipe grp name"
| "op_named pipe (PoolDispatch score now_unix post run name given) \<longleftrightarrow> group_named pipe run name"
| "op_named pipe (PoolDispatchTo now_unix post url run name given) \<longleftrightarrow> pipe run = name"
| "op_named pipe _ \<longleftrightarrow> True"

lemma pool_step_books:
  assumes "books_but {} pipe p" "op_named pipe e"
  shows "books_but {} pipe (pool_step cfg e p)"
proof (cases e)
  case (PoolStart now reply probes)
  then show ?thesis using assms by (simp add: pool_start_def handshake_healthy_books poll_all_books)
next
  case (PoolRegister run a)
  then show ?thesis using assms(1) by (simp add: register_attempt_def books_but_def)
next
  case (PoolDispatchTo now_unix post url run name given)
  then have "books_but {} pipe (snd (send_run cfg now_unix post url run name given p))"
    using assms send_run_books by simp
  then show ?thesis using PoolDispatchTo assms(1)
    by (simp add: dispatch_to_worker_def case_prod_unfold split: sum.split)
next
  case (PoolSelect score)
  have "books_but {} pipe (snd (select_placements (fair_threshold cfg) score (healthy_workers p) 1 p))"
    using assms(1) by (subst books_frame [where p = p]) simp_all
  then show ?thesis using PoolSelect by (simp add: least_loaded_def case_prod_unfold split: list.split)
qed (use assms in \<open>simp_all add: poll_all_books adopt_books on_run_complete_books multi_dispatch_books
        dispatch_with_result_books\<close>)

lemma pool_run_books:
  "books_but {} pipe p \<Longrightarrow> list_all (op_named pipe) ops \<Longrightarrow> books_but {} pipe (fold (pool_step cfg) ops p)"
  by (induction ops arbitrary: p) (simp_all add: pool_step_books)

lemma init_pool_books: "books_but {} pipe (init_pool ws)"
  by (simp add: books_but_def init_pool_def)

text \<open>
C29. The run bookkeeping of the pool is consistent after any sequence of calls (starts, polls,
adoptions, registrations, completions, dispatches and placements, whatever the workers answer)
in which a run identifier is used for one pipeline only: a run is assigned to a worker exactly
when its pipeline is recorded, the pipelines with a worker list are exactly those of the assigned
runs, so the map stays bounded, and the list of a run's pipeline contains the run's worker.
\<close>

theorem pool_bookkeeping:
  assumes "list_all (op_named pipe) ops"
  shows "let p = fold (pool_step cfg) ops (init_pool ws) in
    (dget (p_assignments p) run = None \<longleftrightarrow> dget (p_run_pipelines p) run = None) \<and>
    (dget (p_pipeline_workers p) name \<noteq> None \<longleftrightarrow> (\<exists>r. dget (p_run_pipelines p) r = Some name)) \<and>
    (dget (p_assignments p) run = Some url \<longrightarrow> url \<in> set (workers_for_pipeline (pipe run) p))"
proof -
  note B = books_butD [OF pool_run_books [OF init_pool_books assms, of cfg ws]]
  show ?thesis
    unfolding Let_def workers_for_pipeline_def
    using B(4) [of run] B(6) [of name] B(7) [of run url] by (auto split: option.split)
qed

definition demo_pool_cfg :: pool_cfg where
  "demo_pool_cfg = \<lparr>pc_manager_url = [], pc_stats_interval = 30, pc_failures_to_down = 2, pc_threshold = 3,
     pc_max_ttl_s = 600, pc_skew_s = 5, pc_token_ttl_s = 60, pc_sign = (\<lambda>k m. m)\<rparr>"

theorem pool_bookkeeping_witness:
  "let pipe = (\<lambda>run. ''cdr'');
       cfg = demo_pool_cfg\<lparr>pc_failures_to_down := 1\<rparr>;
       up = failed_probe\<lparr>pr_ok := True\<rparr>;
       ops = [PoolAdopt ''cdr'' ''r1'' ''w1'', PoolAdopt ''cdr'' ''r2'' ''w2'',
              PoolPoll (\<lambda>u. 0) (\<lambda>u. None) (\<lambda>u. if u = ''w1'' then failed_probe else up)];
       p = fold (pool_step cfg) ops (init_pool [''w1'', ''w2''])
   in list_all (op_named pipe) ops \<and>
      dget (p_assignments p) ''r1'' = None \<and> dget (p_assignments p) ''r2'' = Some ''w2'' \<and>
      ''w2'' \<in> set (workers_for_pipeline ''cdr'' p)"
proof -
  let ?pipe = "\<lambda>run. ''cdr''"
  let ?cfg = "demo_pool_cfg\<lparr>pc_failures_to_down := 1\<rparr>"
  let ?ops = "[PoolAdopt ''cdr'' ''r1'' ''w1'', PoolAdopt ''cdr'' ''r2'' ''w2'',
      PoolPoll (\<lambda>u. 0) (\<lambda>u. None) (\<lambda>u. if u = ''w1'' then failed_probe else failed_probe\<lparr>pr_ok := True\<rparr>)]"
  have o: "list_all (op_named ?pipe) ?ops" by simp
  have r: "dget (p_assignments (fold (pool_step ?cfg) ?ops (init_pool [''w1'', ''w2'']))) ''r2'' = Some ''w2''"
    "dget (p_assignments (fold (pool_step ?cfg) ?ops (init_pool [''w1'', ''w2'']))) ''r1'' = None"
    by code_simp+
  show ?thesis
    using o r pool_bookkeeping [OF o, of ?cfg "[''w1'', ''w2'']" "''r2''" "''cdr''" "''w2''"]
    unfolding Let_def by blast
qed

section \<open>The health debounce\<close>

lemma reap_runs_health: "p_health (fold (reap_run url) runs p) = p_health p"
proof -
  have "p_health (reap_run url run p) = p_health p" for run p
    by (simp add: reap_run_def prune_pipeline_def Let_def split: option.split)
  then show ?thesis by (induction runs arbitrary: p) simp_all
qed

text \<open>What the debounce is about: whether a worker counts as healthy, its failures and its runs.\<close>

definition standing :: "string \<Rightarrow> pool \<Rightarrow> (bool \<times> nat) option" where
  "standing url p = map_option (\<lambda>h. (h_ok h, h_failures h)) (dget (p_health p) url)"

definition holds_run :: "string \<Rightarrow> pool \<Rightarrow> string \<Rightarrow> bool" where
  "holds_run url p run \<longleftrightarrow> dget (p_assignments p) run = Some url"

lemma standing_set_health:
  assumes "\<And>h. h_ok (f h) = h_ok h \<and> h_failures (f h) = h_failures h"
  shows "standing url (set_health u f p) = standing url p"
  using assms by (auto simp: standing_def set_health_def split: option.split)

lemma standing_reap: "standing url (reap_assignments_for_down_worker u p) = standing url p"
proof -
  have "standing url (fold (reap_run u) runs p) = standing url p" for runs
    by (simp add: standing_def reap_runs_health)
  then show ?thesis by (simp add: reap_assignments_for_down_worker_def Let_def standing_set_health)
qed

text \<open>A poll of another worker leaves a worker's standing and runs alone.\<close>

lemma poll_update_keys: "dwf (p_assignments p) \<Longrightarrow> dwf (p_assignments (poll_update cfg initial u pr p))"
proof -
  assume w: "dwf (p_assignments p)"
  have "dwf (fold dpop runs d)" if "dwf d" for runs and d :: "(string, string) dict"
    using that by (induction runs arbitrary: d) simp_all
  then have "dwf (p_assignments (reap_assignments_for_down_worker u q))" if "dwf (p_assignments q)" for q
    using that by (simp add: reap_assignments_for_down_worker_def Let_def reap_runs_assignments)
  then show ?thesis using w by (simp add: poll_update_def Let_def split: option.split)
qed

lemma standing_note_worker_id [simp]: "standing url (note_worker_id u w p) = standing url p"
  by (simp add: standing_def)

lemma holds_note_worker_id [simp]: "holds_run url (note_worker_id u w p) = holds_run url p"
  by (simp add: holds_run_def fun_eq_iff)

lemma holds_reap: "dwf (p_assignments p) \<Longrightarrow>
    holds_run url (reap_assignments_for_down_worker u p) run \<longleftrightarrow> u \<noteq> url \<and> holds_run url p run"
  by (auto simp: holds_run_def reap_lookup)

lemma poll_update_other:
  assumes "u \<noteq> url" "dwf (p_assignments p)"
  shows "standing url (poll_update cfg initial u pr p) = standing url p"
    and "holds_run url (poll_update cfg initial u pr p) run = holds_run url p run"
proof -
  have s: "standing url (q\<lparr>p_health := dset u h (p_health q)\<rparr>) = standing url q" for q h
    using assms(1) by (simp add: standing_def)
  have n: "standing url (note_session u pr p) = standing url p" by (simp add: standing_def)
  show "standing url (poll_update cfg initial u pr p) = standing url p"
    using s [where q = "note_session u pr p"] n by (simp add: poll_update_def Let_def standing_reap split: option.split)
  have h: "holds_run url (reap_assignments_for_down_worker u (q\<lparr>p_health := hs\<rparr>)) run = holds_run url p run"
    if "p_assignments q = p_assignments p" for q hs
    using assms that by (subst holds_reap) (simp_all add: holds_run_def)
  show "holds_run url (poll_update cfg initial u pr p) run = holds_run url p run"
    using h [of "note_session u pr p"] by (simp add: poll_update_def Let_def holds_run_def split: option.split)
qed

lemma poll_recover_other:
  assumes "u \<noteq> url"
  shows "standing url (snd (poll_recover cfg now reply ok u pr p)) = standing url p"
proof -
  have h: "p_health (snd (handshake_worker cfg now reply u p)) = p_health p"
    by (simp add: handshake_worker_def register_worker_session_def Let_def split: option.splits prod.splits)
  have "standing url (set_health u f q) = standing url q" for f q
    using assms by (simp add: standing_def set_health_def split: option.split)
  then show ?thesis
    using h by (simp add: poll_recover_def Let_def case_prod_unfold standing_def split: option.split)
qed

lemma poll_worker_other:
  assumes "u \<noteq> url" "dwf (p_assignments p)"
  shows "standing url (snd (poll_worker cfg initial now reply u pr p)) = standing url p"
    and "holds_run url (snd (poll_worker cfg initial now reply u pr p)) run = holds_run url p run"
  using poll_update_other [OF assms]
  by (simp_all add: poll_worker_def Let_def poll_recover_other [OF assms(1)] holds_run_def)

lemma poll_worker_keys:
  "dwf (p_assignments p) \<Longrightarrow> dwf (p_assignments (snd (poll_worker cfg initial now reply u pr p)))"
  using poll_update_keys by (simp add: poll_worker_def Let_def)

text \<open>A failed poll of the worker itself.\<close>

lemma poll_worker_fails:
  assumes "\<not> pr_ok pr" "standing url p = Some (ok, n)" "dwf (p_assignments p)"
  shows "standing url (snd (poll_worker cfg False now reply url pr p)) =
      Some (ok \<and> n + 1 < failures_to_down cfg, n + 1)"
    and "holds_run url (snd (poll_worker cfg False now reply url pr p)) run \<longleftrightarrow>
      holds_run url p run \<and> (ok \<longrightarrow> n + 1 < failures_to_down cfg)"
proof -
  obtain h where h: "dget (p_health p) url = Some h" "h_ok h = ok" "h_failures h = n"
    using assms(2) by (auto simp: standing_def)
  have r: "snd (poll_worker cfg False now reply url pr p) = poll_update cfg False url pr p"
    using assms(1) by (simp add: poll_worker_def poll_recover_def Let_def)
  show "standing url (snd (poll_worker cfg False now reply url pr p)) =
      Some (ok \<and> n + 1 < failures_to_down cfg, n + 1)"
    using assms(1) h by (simp add: r poll_update_def Let_def probed_health_def standing_reap) (simp add: standing_def)
  have d: "holds_run url (reap_assignments_for_down_worker url (q\<lparr>p_health := hs\<rparr>)) run \<longleftrightarrow> False"
    if "p_assignments q = p_assignments p" for q hs
    using assms(3) that by (subst holds_reap) simp_all
  show "holds_run url (snd (poll_worker cfg False now reply url pr p)) run \<longleftrightarrow>
      holds_run url p run \<and> (ok \<longrightarrow> n + 1 < failures_to_down cfg)"
    using assms(1) h d [of "note_session url pr p"]
    by (simp add: r poll_update_def Let_def probed_health_def) (auto simp: holds_run_def)
qed

lemma poll_others:
  fixes cfg initial now reply probes
  assumes "url \<notin> set us" "dwf (p_assignments p)"
  defines "q \<equiv> fold (\<lambda>u p. snd (poll_worker cfg initial (now u) (reply u) u (probes u) p)) us p"
  shows "standing url q = standing url p" "holds_run url q run = holds_run url p run" "dwf (p_assignments q)"
  unfolding q_def using assms(1,2) by (induction us arbitrary: p) (simp_all add: poll_worker_other [OF not_sym] poll_worker_keys)

lemma poll_round_fails:
  fixes cfg now reply probes
  assumes "\<not> pr_ok (probes url)" "standing url p = Some (ok, n)" "dwf (p_assignments p)"
    and "distinct (p_workers p)" "url \<in> set (p_workers p)"
  defines "q \<equiv> poll_all cfg False now reply probes p"
  shows "standing url q = Some (ok \<and> n + 1 < failures_to_down cfg, n + 1)"
    and "holds_run url q run \<longleftrightarrow> holds_run url p run \<and> (ok \<longrightarrow> n + 1 < failures_to_down cfg)"
    and "dwf (p_assignments q)"
proof -
  obtain us vs where ws: "p_workers p = us @ url # vs" using assms(5) by (meson split_list)
  then have u: "url \<notin> set us" "url \<notin> set vs" using assms(4) by auto
  let ?f = "\<lambda>u p. snd (poll_worker cfg False (now u) (reply u) u (probes u) p)"
  note A = poll_others [OF u(1) assms(3), of cfg False now reply probes]
  have A1: "standing url (fold ?f us p) = Some (ok, n)" using A(1) assms(2) by simp
  note B = poll_worker_fails [OF assms(1) A1 A(3), of cfg "now url" "reply url"]
  note C = poll_others [OF u(2) poll_worker_keys [OF A(3), of cfg False "now url" "reply url" url "probes url"], of cfg False now reply probes]
  have q: "q = fold ?f vs (?f url (fold ?f us p))" by (simp add: q_def poll_all_def ws)
  show "standing url q = Some (ok \<and> n + 1 < failures_to_down cfg, n + 1)" using B(1) C(1) by (simp add: q)
  show "holds_run url q run \<longleftrightarrow> holds_run url p run \<and> (ok \<longrightarrow> n + 1 < failures_to_down cfg)"
    using A(2) B(2) C(2) by (simp add: q)
  show "dwf (p_assignments q)" using C(3) by (simp add: q)
qed

lemma poll_all_workers: "p_workers (poll_all cfg initial now reply probes p) = p_workers p"
proof -
  have r: "p_workers (fold (reap_run u) runs q) = p_workers q" for u runs q
    by (induction runs arbitrary: q) (simp_all add: reap_run_def prune_pipeline_def Let_def split: option.split)
  have "p_workers (poll_update cfg initial u pr q) = p_workers q" for u pr q
    by (simp add: poll_update_def note_session_def note_worker_id_def reap_assignments_for_down_worker_def r Let_def
        split: option.split)
  moreover have "p_workers (snd (poll_recover cfg n rp ok u pr q)) = p_workers q" for n rp ok u pr q
    by (simp add: poll_recover_def handshake_worker_def register_worker_session_def Let_def case_prod_unfold
        split: option.split)
  ultimately have "p_workers (snd (poll_worker cfg initial n rp u pr q)) = p_workers q" for n rp u pr q
    by (simp add: poll_worker_def Let_def)
  then have "p_workers (fold (\<lambda>u p. snd (poll_worker cfg initial (now u) (reply u) u (probes u) p)) us q) = p_workers q" for us q
    by (induction us arbitrary: q) simp_all
  then show ?thesis by (simp add: poll_all_def)
qed

text \<open>A sequence of polls: for each the clock, the handshake replies and the probes.\<close>

definition poll_rounds ::
  "pool_cfg \<Rightarrow> ((string \<Rightarrow> instant) \<times> (string \<Rightarrow> (string \<times> string) option) \<times> (string \<Rightarrow> probe)) list \<Rightarrow> pool \<Rightarrow> pool" where
  "poll_rounds cfg rs p = fold (\<lambda>(now, reply, probes) p. poll_all cfg False now reply probes p) rs p"

lemma poll_rounds_fail:
  assumes "list_all (\<lambda>(now, reply, probes). \<not> pr_ok (probes url)) rs"
    and "standing url p = Some (ok, n)" "dwf (p_assignments p)" "distinct (p_workers p)" "url \<in> set (p_workers p)"
    and "n < failures_to_down cfg \<longleftrightarrow> ok"
  shows "standing url (poll_rounds cfg rs p) = Some (n + length rs < failures_to_down cfg, n + length rs) \<and>
    (holds_run url (poll_rounds cfg rs p) run \<longleftrightarrow>
      holds_run url p run \<and> (ok \<longrightarrow> n + length rs < failures_to_down cfg))"
  using assms
proof (induction rs arbitrary: p n ok)
  case Nil
  then show ?case by (auto simp: poll_rounds_def)
next
  case (Cons r rs)
  obtain now reply probes where r: "r = (now, reply, probes)" by (cases r)
  let ?q = "poll_all cfg False now reply probes p"
  let ?ok = "n + 1 < failures_to_down cfg"
  have f: "\<not> pr_ok (probes url)" "list_all (\<lambda>(now, reply, probes). \<not> pr_ok (probes url)) rs"
    using Cons.prems(1) by (simp_all add: r)
  note R = poll_round_fails [where probes = probes and cfg = cfg and now = now and reply = reply and url = url,
      OF f(1) Cons.prems(2-5)]
  have "standing url ?q = Some (?ok, n + 1)" using R(1) Cons.prems(6) by auto
  moreover have "distinct (p_workers ?q)" "url \<in> set (p_workers ?q)"
    using Cons.prems(4,5) by (simp_all add: poll_all_workers)
  ultimately have IH: "standing url (poll_rounds cfg rs ?q) =
        Some (n + 1 + length rs < failures_to_down cfg, n + 1 + length rs) \<and>
      (holds_run url (poll_rounds cfg rs ?q) run \<longleftrightarrow>
        holds_run url ?q run \<and> (?ok \<longrightarrow> n + 1 + length rs < failures_to_down cfg))"
    using R(3) f(2) by (intro Cons.IH) simp_all
  have e: "poll_rounds cfg (r # rs) p = poll_rounds cfg rs ?q" by (simp add: poll_rounds_def r)
  show ?case using IH R(2) [of run] Cons.prems(6) unfolding e by auto
qed

text \<open>
C30. The health debounce. From a healthy worker without recorded failures, after any number of
polls whose probes of it all fail (the other workers may answer anything) the worker still
counts as healthy, and keeps its runs, exactly while the number of failed polls is below the
threshold; from the threshold on it is down and no run is assigned to it.
\<close>

theorem health_debounce:
  assumes "dget (p_health p) url = Some h" "h_ok h" "h_failures h = 0"
    and "dwf (p_assignments p)" "distinct (p_workers p)" "url \<in> set (p_workers p)"
    and "list_all (\<lambda>(now, reply, probes). \<not> pr_ok (probes url)) rs"
  shows "(is_worker_healthy url (poll_rounds cfg rs p) \<longleftrightarrow> length rs < failures_to_down cfg) \<and>
    (dget (p_assignments (poll_rounds cfg rs p)) run = Some url \<longleftrightarrow>
      length rs < failures_to_down cfg \<and> dget (p_assignments p) run = Some url)"
proof -
  have "standing url p = Some (True, 0)" using assms(1-3) by (simp add: standing_def)
  moreover have "0 < failures_to_down cfg \<longleftrightarrow> True" by (simp add: failures_to_down_def)
  ultimately have R: "standing url (poll_rounds cfg rs p) = Some (length rs < failures_to_down cfg, length rs)"
      "holds_run url (poll_rounds cfg rs p) run \<longleftrightarrow> holds_run url p run \<and> length rs < failures_to_down cfg"
    using poll_rounds_fail [OF assms(7) _ assms(4-6), of True 0 cfg run] by simp_all
  then have "is_worker_healthy url (poll_rounds cfg rs p) \<longleftrightarrow> length rs < failures_to_down cfg"
    by (auto simp: standing_def is_worker_healthy_def)
  then show ?thesis using R(2) by (auto simp: holds_run_def)
qed

theorem health_debounce_witness:
  "let p = adopt_stream_assignment ''cdr'' ''r1'' ''w1'' (init_pool [''w1'', ''w2'']);
       down = (\<lambda>u. 0, \<lambda>u. None, \<lambda>u. failed_probe)
   in (dget (p_assignments (poll_rounds demo_pool_cfg [down] p)) ''r1'' = Some ''w1'') \<and>
      (dget (p_assignments (poll_rounds demo_pool_cfg [down, down] p)) ''r1'' \<noteq> Some ''w1'')"
proof -
  let ?p = "adopt_stream_assignment ''cdr'' ''r1'' ''w1'' (init_pool [''w1'', ''w2''])"
  let ?d = "(\<lambda>u :: string. 0 :: int, \<lambda>u :: string. None :: (string \<times> string) option, \<lambda>u :: string. failed_probe)"
  have h: "dget (p_health ?p) ''w1'' = Some \<lparr>h_ok = True, h_active = 1, h_running = [], h_failures = 0\<rparr>"
    and w: "dwf (p_assignments ?p)" "distinct (p_workers ?p)" "''w1'' \<in> set (p_workers ?p)"
    and a: "dget (p_assignments ?p) ''r1'' = Some ''w1''"
    and f: "failures_to_down demo_pool_cfg = 2"
    by code_simp+
  have "list_all (\<lambda>(now, reply, probes). \<not> pr_ok (probes ''w1'')) [?d, ?d]" by (simp add: failed_probe_def)
  then show ?thesis
    using health_debounce [OF h _ _ w, of "[?d]" demo_pool_cfg "''r1''"]
      health_debounce [OF h _ _ w, of "[?d, ?d]" demo_pool_cfg "''r1''"] a f
    by (simp add: Let_def)
qed

end
