(* ===== verification/Pool_Fairness.thy ===== *)
theory Pool_Fairness
  imports Pool_Props
begin

text \<open>
  Fair placement of single slots: repeated selections reach every healthy worker when there is at
  most one worker more than the starvation threshold, whatever the loads; with more workers the
  starved tier can pass one over for ever.
\<close>

section \<open>Successive selections\<close>

text \<open>The workers chosen by successive single-slot selections among the same healthy workers.\<close>

fun selections :: "nat \<Rightarrow> string list \<Rightarrow> (string \<Rightarrow> rat) list \<Rightarrow> pool \<Rightarrow> string list" where
  "selections t urls [] p = []"
| "selections t urls (score # scores) p =
     (case select_placements t score urls 1 p of
        (us, p') \<Rightarrow> us @ selections t urls scores p')"

lemma count_selection_lookup:
  assumes "distinct urls"
  shows "dget (p_starvation (count_selection urls sel p)) u =
    (if u \<in> set urls then Some (if u \<in> set sel then 0 else starvation p u + 1) else dget (p_starvation p) u)"
proof -
  let ?f = "\<lambda>u s. dset u (if u \<in> set sel then 0 else (case dget s u of Some n \<Rightarrow> n + 1 | None \<Rightarrow> 1)) s"
  have F: "dget (fold ?f urls s) u =
      (if u \<in> set urls
       then Some (if u \<in> set sel then 0 else (case dget s u of Some n \<Rightarrow> n + 1 | None \<Rightarrow> 1)) else dget s u)" for s
    using assms
  proof (induction urls arbitrary: s)
    case (Cons v vs)
    then show ?case by (cases "u = v") simp_all
  qed simp
  have c: "(case x of Some n \<Rightarrow> n + 1 | None \<Rightarrow> 1) = (case x of Some n \<Rightarrow> n | None \<Rightarrow> 0) + (1 :: nat)" for x
    by (cases x) simp_all
  have e: "p_starvation (count_selection urls sel p) = fold ?f urls (p_starvation p)"
    by (simp add: count_selection_def)
  show ?thesis unfolding e starvation_def c [symmetric] by (rule F)
qed

lemma select_one_candidate:
  assumes "urls \<noteq> []"
  shows "select_one t score urls p \<in> set (candidates_of t urls p)"
    and "score (select_one t score urls p) = Min (score ` set (candidates_of t urls p))"
proof -
  let ?cs = "candidates_of t urls p"
  let ?m = "Min (score ` set ?cs)"
  let ?tied = "sort (filter (\<lambda>u. score u = ?m) ?cs)"
  have "?cs \<noteq> []" using assms by (auto simp: candidates_of_def list_ex_iff filter_empty_conv)
  then have "?m \<in> score ` set ?cs" by (intro Min_in) simp_all
  then have "set ?tied \<noteq> {}" by auto
  then have "?tied \<noteq> []" by (metis list.set(1))
  then have "?tied ! (p_rr p mod length ?tied) \<in> set ?tied"
    by (intro nth_mem mod_less_divisor) (simp only: length_greater_0_conv not_False_eq_True)
  then show "select_one t score urls p \<in> set ?cs" "score (select_one t score urls p) = ?m"
    by (auto simp: select_one_def Let_def)
qed

text \<open>One selection: who is chosen, and how the counters move.\<close>

lemma select_step:
  assumes "urls \<noteq> []" "distinct urls"
  obtains u p' where "select_placements t score urls 1 p = ([u], p')" "u \<in> set urls"
    and "list_ex (starved t p) urls \<Longrightarrow> starved t p u"
    and "\<And>v. v \<in> set urls \<Longrightarrow> starvation p' v = (if v = u then 0 else starvation p v + 1)"
proof -
  let ?u = "select_one t score urls p"
  let ?p = "count_selection urls [?u] (p\<lparr>p_rr := p_rr p + 1\<rparr>)"
  have c: "?u \<in> set (candidates_of t urls p)" by (rule select_one_candidate(1)) (rule assms(1))
  have "starvation ?p v = (if v = ?u then 0 else starvation p v + 1)" if "v \<in> set urls" for v
    using count_selection_lookup [OF assms(2), of "[?u]" "p\<lparr>p_rr := p_rr p + 1\<rparr>" v] that
    by (simp add: starvation_def)
  moreover have "select_placements t score urls 1 p = ([?u], ?p)"
    using assms(1) by (simp add: select_placements_def Let_def)
  ultimately show ?thesis
    using that [of ?u ?p] c by (auto simp: candidates_of_def split: if_splits)
qed

text \<open>
  Once a worker is starved, the workers chosen before it are distinct: one chosen \<open>i\<close> selections
  ago has counter \<open>i\<close>, below the threshold.
\<close>

lemma starved_is_reached:
  assumes "distinct urls" "w \<in> set urls" "length urls \<le> t + 1"
    and "starved t p w" "distinct hist" "set hist \<subseteq> set urls - {w}"
    and "\<And>i. i < length hist \<Longrightarrow> starvation p (hist ! i) = i"
    and "length urls \<le> length scores + length hist"
  shows "w \<in> set (selections t urls scores p)"
  using assms(4-8)
proof (induction scores arbitrary: p hist)
  case Nil
  have "length hist = card (set hist)" using Nil by (simp add: distinct_card)
  also have "\<dots> \<le> card (set urls - {w})" using Nil by (intro card_mono) simp_all
  also have "\<dots> < length urls" using assms(1,2) by (cases urls) (auto simp: distinct_card card_Diff_singleton)
  finally show ?case using Nil by simp
next
  case (Cons score scores)
  have ne: "urls \<noteq> []" using assms(2) by auto
  have ex: "list_ex (starved t p) urls" using Cons.prems(1) assms(2) by (auto simp: list_ex_iff)
  obtain u p' where s: "select_placements t score urls 1 p = ([u], p')" "u \<in> set urls" "starved t p u"
    and c: "\<And>v. v \<in> set urls \<Longrightarrow> starvation p' v = (if v = u then 0 else starvation p v + 1)"
    using select_step [OF ne assms(1), of t score p] ex by metis
  show ?case
  proof (cases "u = w")
    case True
    then show ?thesis using s by simp
  next
    case False
    have "length hist \<le> card (set urls - {w})"
      using Cons.prems(2,3) by (metis card_mono distinct_card finite_Diff List.finite_set)
    then have short: "length hist \<le> t" using assms(1,2,3) by (simp add: distinct_card)
    have new: "u \<notin> set hist"
    proof
      assume "u \<in> set hist"
      then obtain i where "i < length hist" "hist ! i = u" by (auto simp: in_set_conv_nth)
      then show False using Cons.prems(4) [of i] s(3) short by (simp add: starved_def)
    qed
    have "w \<in> set (selections t urls scores p')"
    proof (rule Cons.IH [of p' "u # hist"])
      show "starved t p' w" using Cons.prems(1) c [OF assms(2)] False by (simp add: starved_def)
      show "distinct (u # hist)" using new Cons.prems(2) by simp
      show "set (u # hist) \<subseteq> set urls - {w}" using Cons.prems(3) s(2) False by simp
      show "starvation p' ((u # hist) ! i) = i" if "i < length (u # hist)" for i
      proof (cases i)
        case (Suc j)
        then have j: "j < length hist" "hist ! j \<in> set hist" using that by simp_all
        have "hist ! j \<in> set urls" "hist ! j \<noteq> u" using new Cons.prems(3) j(2) by blast+
        then show ?thesis using c Cons.prems(4) [OF j(1)] Suc by simp
      qed (use c [OF s(2)] in simp)
      show "length urls \<le> length scores + length (u # hist)" using Cons.prems(5) by simp
    qed
    then show ?thesis using s by simp
  qed
qed

lemma waiting_is_reached:
  assumes "distinct urls" "w \<in> set urls" "length urls \<le> t + 1"
    and "t - starvation p w + length urls \<le> length scores"
  shows "w \<in> set (selections t urls scores p)"
  using assms(4)
proof (induction scores arbitrary: p)
  case Nil
  then show ?case using assms(2) by simp
next
  case (Cons score scores)
  have ne: "urls \<noteq> []" using assms(2) by auto
  show ?case
  proof (cases "starved t p w")
    case True
    then show ?thesis
      using starved_is_reached [OF assms(1-3), of p "[]" "score # scores"] Cons.prems by simp
  next
    case False
    obtain u p' where s: "select_placements t score urls 1 p = ([u], p')"
      and c: "\<And>v. v \<in> set urls \<Longrightarrow> starvation p' v = (if v = u then 0 else starvation p v + 1)"
      using select_step [OF ne assms(1), of t score p] by metis
    show ?thesis
    proof (cases "u = w")
      case True
      then show ?thesis using s by simp
    next
      case False
      then have "w \<in> set (selections t urls scores p')"
        using Cons.prems c [OF assms(2)] \<open>\<not> starved t p w\<close> by (intro Cons.IH) (simp add: starved_def)
      then show ?thesis using s by simp
    qed
  qed
qed

text \<open>
C31. Fair placement reaches everyone when the pool is small: if the healthy workers are at most
one more than the starvation threshold, then among any threshold plus number-of-workers
successive single-slot selections every worker is chosen at least once, whatever the loads are
at each selection and whatever the counters were.
\<close>

theorem fair_placement_reaches_everyone:
  assumes "distinct urls" "w \<in> set urls" "length urls \<le> t + 1" "t + length urls \<le> length scores"
  shows "w \<in> set (selections t urls scores p)"
  using assms by (intro waiting_is_reached) simp_all

theorem fair_placement_reaches_everyone_witness:
  "''w3'' \<in> set (selections 2 [''w1'', ''w2'', ''w3'']
     (replicate 5 (\<lambda>u. if u = ''w3'' then 9 else 0)) (init_pool [''w1'', ''w2'', ''w3'']))"
  by (rule fair_placement_reaches_everyone) simp_all

section \<open>Workers passed over for ever\<close>

text \<open>Four workers of which the last always has the highest load.\<close>

definition four_loads :: "string \<Rightarrow> rat" where
  "four_loads u = (if u = ''w1'' then 1 else if u = ''w2'' then 2 else if u = ''w3'' then 3 else 4)"

abbreviation four_workers :: "string list" where
  "four_workers \<equiv> [''w1'', ''w2'', ''w3'', ''w4'']"

lemma distinct_four: "distinct four_workers"
  by simp

lemma select_starved_pair:
  assumes "x \<in> {''w1'', ''w2'', ''w3''}" "set (candidates_of 2 four_workers p) = {x, ''w4''}"
  shows "select_one 2 four_loads four_workers p = x"
proof -
  let ?u = "select_one 2 four_loads four_workers p"
  note S = select_one_candidate [where t = 2 and score = four_loads and p = p, OF list.distinct(2)
      [of "''w1''" "[''w2'', ''w3'', ''w4'']"]]
  have "?u \<in> {x, ''w4''}" using S(1) unfolding assms(2) .
  moreover have "four_loads ?u \<le> four_loads x" using S(2) unfolding assms(2) by (simp only: Min_le finite.intros
        image_insert image_empty insertI1)
  moreover have "four_loads x < four_loads ''w4''" using assms(1) by (auto simp: four_loads_def)
  ultimately show ?thesis by (metis empty_iff insert_iff linorder_not_less)
qed

lemma starving_cycle:
  assumes "{x, y, z} = {''w1'', ''w2'', ''w3''}" "distinct [x, y, z]"
    and "starvation p x \<ge> 2" "starvation p y = 1" "starvation p z = 0" "starvation p ''w4'' \<ge> 2"
  shows "''w4'' \<notin> set (selections 2 four_workers (replicate n four_loads) p)"
  using assms
proof (induction n arbitrary: x y z p)
  case (Suc n)
  have "set four_workers = insert ''w4'' {x, y, z}"
    unfolding Suc.prems(1) by (simp only: list.set insert_commute)
  then have m: "u \<in> set four_workers \<longleftrightarrow> u \<in> {x, y, z} \<or> u = ''w4''" for u by blast
  have w4: "''w4'' \<notin> {x, y, z}" unfolding Suc.prems(1) by simp
  have st: "starved 2 p x" "\<not> starved 2 p y" "\<not> starved 2 p z" "starved 2 p ''w4''"
    using Suc.prems(3-6) by (simp_all add: starved_def)
  have x: "x \<in> set four_workers" "y \<in> set four_workers" "z \<in> set four_workers" unfolding m by simp_all
  have "list_ex (starved 2 p) four_workers" using st(4) by simp
  then have "set (candidates_of 2 four_workers p) = {u \<in> set four_workers. starved 2 p u}"
    by (simp only: candidates_of_def if_True set_filter)
  also have "\<dots> = {u. (u \<in> {x, y, z} \<or> u = ''w4'') \<and> starved 2 p u}" by (simp only: m)
  also have "\<dots> = {x, ''w4''}" using st by blast
  finally have sel: "select_one 2 four_loads four_workers p = x"
    using Suc.prems(1) by (intro select_starved_pair) blast+
  obtain u p' where s: "select_placements 2 four_loads four_workers 1 p = ([u], p')"
    and c: "\<And>v. v \<in> set four_workers \<Longrightarrow> starvation p' v = (if v = u then 0 else starvation p v + 1)"
  proof (rule select_step [OF list.distinct(2) distinct_four, of 2 four_loads p])
    fix u p'
    assume "select_placements 2 four_loads four_workers 1 p = ([u], p')"
      and "\<And>v. v \<in> set four_workers \<Longrightarrow> starvation p' v = (if v = u then 0 else starvation p v + 1)"
    then show thesis by (rule that)
  qed
  have "u = select_one 2 four_loads four_workers p" using s by (simp add: select_placements_def Let_def)
  then have u: "u = x" by (simp only: sel)
  have d: "x \<noteq> y" "x \<noteq> z" "x \<noteq> ''w4''" using Suc.prems(2) w4 by auto
  have "''w4'' \<notin> set (selections 2 four_workers (replicate n four_loads) p')"
  proof (rule Suc.IH [of y z x])
    show "{y, z, x} = {''w1'', ''w2'', ''w3''}" using Suc.prems(1) by (simp only: insert_commute)
    show "distinct [y, z, x]" using Suc.prems(2) by auto
    show "starvation p' y \<ge> 2" using c [OF x(2)] d Suc.prems(4) u by simp
    show "starvation p' z = 1" using c [OF x(3)] d Suc.prems(5) u by simp
    show "starvation p' x = 0" using c [OF x(1)] u by simp
    have "''w4'' \<in> set four_workers" by simp
    from c [OF this] show "starvation p' ''w4'' \<ge> 2" using d(3) Suc.prems(6) u by (auto split: if_splits)
  qed
  then show ?case using s u d(3) by (simp only: selections.simps replicate_Suc prod.case set_append) auto
qed simp

lemma first_three:
  obtains p where "selections 2 four_workers (replicate (n + 3) four_loads) (init_pool four_workers) =
      [''w1'', ''w1'', ''w2''] @ selections 2 four_workers (replicate n four_loads) p"
    and "starvation p ''w3'' = 3" "starvation p ''w1'' = 1" "starvation p ''w2'' = 0" "starvation p ''w4'' = 3"
proof -
  let ?step = "\<lambda>p. select_placements 2 four_loads four_workers 1 p"
  let ?p1 = "snd (?step (init_pool four_workers))" and ?p2 = "snd (?step (snd (?step (init_pool four_workers))))"
  let ?p3 = "snd (?step ?p2)"
  have s: "fst (?step (init_pool four_workers)) = [''w1'']" "fst (?step ?p1) = [''w1'']" "fst (?step ?p2) = [''w2'']"
    and v: "starvation ?p3 ''w3'' = 3" "starvation ?p3 ''w1'' = 1" "starvation ?p3 ''w2'' = 0" "starvation ?p3 ''w4'' = 3"
    by code_simp+
  have "n + 3 = Suc (Suc (Suc n))" by simp
  then have "selections 2 four_workers (replicate (n + 3) four_loads) (init_pool four_workers) =
      [''w1'', ''w1'', ''w2''] @ selections 2 four_workers (replicate n four_loads) ?p3"
    by (simp only: replicate_Suc selections.simps case_prod_unfold s append.simps)
  then show thesis using v by (rule that)
qed

text \<open>
With the default threshold of 2 and four healthy workers, fair placement can starve one for
ever: when one worker always has the highest load, no number of selections ever chooses it,
because some less loaded worker is always starved as well.
\<close>

theorem fair_placement_starves:
  "''w4'' \<notin> set (selections 2 [''w1'', ''w2'', ''w3'', ''w4''] (replicate n four_loads)
     (init_pool [''w1'', ''w2'', ''w3'', ''w4'']))"
proof (cases "n < 3")
  case True
  have "''w4'' \<notin> set (selections 2 four_workers (replicate k four_loads) (init_pool four_workers))" if "k \<in> {0, 1, 2}" for k
    using that by (elim insertE emptyE) (simp_all only:, code_simp+)
  moreover have "n \<in> {0, 1, 2}" using True by auto
  ultimately show ?thesis .
next
  case False
  then obtain k where n: "n = k + 3" using le_Suc_ex [of 3 n] by auto
  obtain p where p: "selections 2 four_workers (replicate n four_loads) (init_pool four_workers) =
      [''w1'', ''w1'', ''w2''] @ selections 2 four_workers (replicate k four_loads) p"
    and v: "starvation p ''w3'' = 3" "starvation p ''w1'' = 1" "starvation p ''w2'' = 0" "starvation p ''w4'' = 3"
    unfolding n by (rule first_three)
  have "''w4'' \<notin> set (selections 2 four_workers (replicate k four_loads) p)"
    by (rule starving_cycle [of "''w3''" "''w1''" "''w2''"]) (use v in auto)
  then show ?thesis unfolding p by simp
qed

end
