(* ===== verification/Records.thy ===== *)
theory Records
  imports Complex_Main "HOL-Library.Sublist" Py_Dict
begin

text \<open>
  The records the transforms work on: JSON-like values, Python's equality and \<open>str\<close> on them, and
  the dotted-path helpers of \<open>tram/transforms/path_utils.py\<close> and
  \<open>tram/transforms/path_patterns.py\<close>. Floats are exact rationals; objects are values, so a copy of
  a record is the record itself.
\<close>

section \<open>Values\<close>

datatype pval =
    VNone
  | VBool bool
  | VInt int
  | VFloat rat
  | VStr string
  | VList "pval list"
  | VDict "(string \<times> pval) list"

type_synonym row = "(string, pval) dict"

text \<open>The type of records: every dictionary in them has distinct keys.\<close>

fun wf_val :: "pval \<Rightarrow> bool"
  and wf_vals :: "pval list \<Rightarrow> bool"
  and wf_items :: "(string \<times> pval) list \<Rightarrow> bool" where
  "wf_val (VList vs) = wf_vals vs"
| "wf_val (VDict d) = (dwf d \<and> wf_items d)"
| "wf_val _ = True"
| "wf_vals [] = True"
| "wf_vals (v # vs) = (wf_val v \<and> wf_vals vs)"
| "wf_items [] = True"
| "wf_items ((k, v) # d) = (wf_val v \<and> wf_items d)"

definition wf_row :: "row \<Rightarrow> bool" where
  "wf_row r \<longleftrightarrow> wf_val (VDict r)"

lemma wf_vals_iff: "wf_vals vs \<longleftrightarrow> list_all wf_val vs"
  by (induction vs) simp_all

lemma wf_items_iff: "wf_items d \<longleftrightarrow> list_all wf_val (map snd d)"
  by (induction d) auto

lemma wf_row_Nil [simp]: "wf_row []"
  by (simp add: wf_row_def)

lemma wf_row_dwf: "wf_row r \<Longrightarrow> dwf r"
  by (simp add: wf_row_def)

lemma wf_items_dset: "wf_items d \<Longrightarrow> wf_val v \<Longrightarrow> wf_items (dset k v d)"
  by (induction k v d rule: dset.induct) auto

lemma wf_items_dpop: "wf_items d \<Longrightarrow> wf_items (dpop k d)"
  by (induction k d rule: dpop.induct) auto

lemma wf_items_dget: "wf_items d \<Longrightarrow> dget d k = Some v \<Longrightarrow> wf_val v"
  by (induction d k rule: dget.induct) (auto split: if_splits)

lemma wf_row_dset [simp]: "wf_row r \<Longrightarrow> wf_val v \<Longrightarrow> wf_row (dset k v r)"
  by (simp add: wf_row_def wf_items_dset)

lemma wf_row_dpop [simp]: "wf_row r \<Longrightarrow> wf_row (dpop k r)"
  by (simp add: wf_row_def wf_items_dpop)

lemma wf_row_dget: "wf_row r \<Longrightarrow> dget r k = Some v \<Longrightarrow> wf_val v"
  by (auto simp: wf_row_def dest: wf_items_dget)

text \<open>\<open>d.update(items)\<close>.\<close>

definition dupdate :: "('k \<times> 'v) list \<Rightarrow> ('k, 'v) dict \<Rightarrow> ('k, 'v) dict" where
  "dupdate kvs d = fold (\<lambda>(k, v). dset k v) kvs d"

lemma wf_row_dupdate: "wf_row r \<Longrightarrow> wf_items kvs \<Longrightarrow> wf_row (dupdate kvs r)"
  unfolding dupdate_def by (induction kvs arbitrary: r) auto

section \<open>Equality, printing and numbers\<close>

fun num_of :: "pval \<Rightarrow> rat option" where
  "num_of (VBool b) = Some (if b then 1 else 0)"
| "num_of (VInt i) = Some (of_int i)"
| "num_of (VFloat q) = Some q"
| "num_of _ = None"

text \<open>Python's \<open>==\<close>: numbers and booleans compare by value, dictionaries regardless of order.\<close>

fun py_eq :: "pval \<Rightarrow> pval \<Rightarrow> bool"
  and py_eq_list :: "pval list \<Rightarrow> pval list \<Rightarrow> bool"
  and py_eq_items :: "(string \<times> pval) list \<Rightarrow> row \<Rightarrow> bool" where
  "py_eq (VList xs) w = (case w of VList ys \<Rightarrow> py_eq_list xs ys | _ \<Rightarrow> False)"
| "py_eq (VDict d) w = (case w of VDict e \<Rightarrow> length d = length e \<and> py_eq_items d e | _ \<Rightarrow> False)"
| "py_eq VNone w = (w = VNone)"
| "py_eq (VStr s) w = (w = VStr s)"
| "py_eq v w = (num_of v = num_of w)"
| "py_eq_list [] ys = (ys = [])"
| "py_eq_list (x # xs) ys = (case ys of [] \<Rightarrow> False | y # ys' \<Rightarrow> py_eq x y \<and> py_eq_list xs ys')"
| "py_eq_items [] e = True"
| "py_eq_items ((k, v) # d) e = ((case dget e k of None \<Rightarrow> False | Some w \<Rightarrow> py_eq v w) \<and> py_eq_items d e)"

definition py_in :: "pval \<Rightarrow> pval list \<Rightarrow> bool" where
  "py_in v vs \<longleftrightarrow> list_ex (py_eq v) vs"

text \<open>Python's \<open>str\<close>; \<open>other\<close> prints floats, lists and dictionaries.\<close>

fun py_show :: "(pval \<Rightarrow> string) \<Rightarrow> pval \<Rightarrow> string" where
  "py_show other VNone = ''None''"
| "py_show other (VBool b) = (if b then ''True'' else ''False'')"
| "py_show other (VInt i) = py_str i"
| "py_show other (VStr s) = s"
| "py_show other v = other v"

text \<open>Python's truth value of a value.\<close>

fun truthy :: "pval \<Rightarrow> bool" where
  "truthy VNone = False"
| "truthy (VBool b) = b"
| "truthy (VInt i) = (i \<noteq> 0)"
| "truthy (VFloat q) = (q \<noteq> 0)"
| "truthy (VStr s) = (s \<noteq> [])"
| "truthy (VList vs) = (vs \<noteq> [])"
| "truthy (VDict d) = (d \<noteq> [])"

section \<open>Results\<close>

text \<open>A \<open>TransformError\<close> is handled by the pipeline; any other exception passes through it.\<close>

datatype terror = TransformError string | OtherError string

type_synonym 'a tres = "terror + 'a"

fun tbind :: "'a tres \<Rightarrow> ('a \<Rightarrow> 'b tres) \<Rightarrow> 'b tres" where
  "tbind (Inl e) f = Inl e"
| "tbind (Inr a) f = f a"

fun tmap :: "('a \<Rightarrow> 'b tres) \<Rightarrow> 'a list \<Rightarrow> 'b list tres" where
  "tmap f [] = Inr []"
| "tmap f (x # xs) = tbind (f x) (\<lambda>y. tbind (tmap f xs) (\<lambda>ys. Inr (y # ys)))"

fun tfold :: "('a \<Rightarrow> 's \<Rightarrow> 's tres) \<Rightarrow> 'a list \<Rightarrow> 's \<Rightarrow> 's tres" where
  "tfold f [] s = Inr s"
| "tfold f (x # xs) s = tbind (f x s) (tfold f xs)"

lemma tbind_Inr_iff [simp]: "tbind m f = Inr b \<longleftrightarrow> (\<exists>a. m = Inr a \<and> f a = Inr b)"
  by (cases m) auto

lemma tfold_invariant:
  "tfold f xs s = Inr s' \<Longrightarrow> P s \<Longrightarrow> (\<And>x s s'. x \<in> set xs \<Longrightarrow> P s \<Longrightarrow> f x s = Inr s' \<Longrightarrow> P s') \<Longrightarrow> P s'"
proof (induction xs arbitrary: s)
  case (Cons x xs)
  then obtain t where t: "f x s = Inr t" "tfold f xs t = Inr s'" by auto
  show ?case
    by (rule Cons.IH [OF t(2)]) (use Cons.prems t(1) in auto)
qed simp

lemma tmap_list_all:
  "tmap f xs = Inr ys \<Longrightarrow> list_all P xs \<Longrightarrow> (\<And>x y. P x \<Longrightarrow> f x = Inr y \<Longrightarrow> Q y) \<Longrightarrow> list_all Q ys"
  by (induction xs arbitrary: ys) auto

lemma tmap_length: "tmap f xs = Inr ys \<Longrightarrow> length ys = length xs"
  by (induction xs arbitrary: ys) auto

section \<open>Dotted paths\<close>

abbreviation dotted :: "string \<Rightarrow> bool" where
  "dotted p \<equiv> CHR ''.'' \<in> set p"

abbreviation tokens :: "string \<Rightarrow> string list" where
  "tokens p \<equiv> split_on CHR ''.'' p"

fun get_tokens :: "pval \<Rightarrow> string list \<Rightarrow> pval option" where
  "get_tokens v [] = Some v"
| "get_tokens v (t # ts) =
     (case v of
        VDict d \<Rightarrow> (case dget d t of None \<Rightarrow> None | Some w \<Rightarrow> get_tokens w ts)
      | _ \<Rightarrow> None)"

definition get_path :: "row \<Rightarrow> string \<Rightarrow> pval option" where
  "get_path r p = (if \<not> dotted p then dget r p else get_tokens (VDict r) (tokens p))"

fun set_tokens :: "bool \<Rightarrow> string \<Rightarrow> string list \<Rightarrow> pval \<Rightarrow> row \<Rightarrow> row tres" where
  "set_tokens create p [] v d = Inr d"
| "set_tokens create p [t] v d = Inr (dset t v d)"
| "set_tokens create p (t # u # ts) v d =
     (case dget d t of
        None \<Rightarrow>
          if \<not> create then Inl (TransformError (''path '' @ p @ '' does not exist''))
          else tbind (set_tokens create p (u # ts) v []) (\<lambda>e. Inr (dset t (VDict e) d))
      | Some (VDict e) \<Rightarrow> tbind (set_tokens create p (u # ts) v e) (\<lambda>e'. Inr (dset t (VDict e') d))
      | Some _ \<Rightarrow> Inl (TransformError (''path '' @ p @ '' traverses non-dict intermediate '' @ t)))"

definition set_path :: "bool \<Rightarrow> string \<Rightarrow> pval \<Rightarrow> row \<Rightarrow> row tres" where
  "set_path create p v r = (if \<not> dotted p then Inr (dset p v r) else set_tokens create p (tokens p) v r)"

fun del_tokens :: "string list \<Rightarrow> row \<Rightarrow> row option" where
  "del_tokens [] d = None"
| "del_tokens [t] d = (if dhas t d then Some (dpop t d) else None)"
| "del_tokens (t # u # ts) d =
     (case dget d t of
        Some (VDict e) \<Rightarrow> map_option (\<lambda>e'. dset t (VDict e') d) (del_tokens (u # ts) e)
      | _ \<Rightarrow> None)"

definition delete_path :: "string \<Rightarrow> row \<Rightarrow> bool \<times> row" where
  "delete_path p r =
     (if \<not> dotted p then (if dhas p r then (True, dpop p r) else (False, r))
      else (case del_tokens (tokens p) r of None \<Rightarrow> (False, r) | Some r' \<Rightarrow> (True, r')))"

definition rename_path :: "string \<Rightarrow> string \<Rightarrow> row \<Rightarrow> (bool \<times> row) tres" where
  "rename_path old new r =
     (case get_path r old of
        None \<Rightarrow> Inr (False, r)
      | Some v \<Rightarrow>
          if old = new then Inr (True, r)
          else tbind (set_path True new v r) (\<lambda>r'. Inr (True, snd (delete_path old r'))))"

text \<open>Paths with \<open>*\<close> segments.\<close>

definition has_path_pattern :: "string \<Rightarrow> bool" where
  "has_path_pattern p \<longleftrightarrow> ''*'' \<in> set (tokens p)"

definition path_matches_pattern :: "string \<Rightarrow> string \<Rightarrow> bool" where
  "path_matches_pattern p pat \<longleftrightarrow> list_all2 (\<lambda>x y. y = ''*'' \<or> y = x) (tokens p) (tokens pat)"

section \<open>Laws of paths\<close>

text \<open>Two paths are apart when neither lies on the way to the other.\<close>

definition apart :: "string \<Rightarrow> string \<Rightarrow> bool" where
  "apart p q \<longleftrightarrow> \<not> prefix (tokens p) (tokens q) \<and> \<not> prefix (tokens q) (tokens p)"

lemma get_path_tokens: "get_path r p = get_tokens (VDict r) (tokens p)"
  by (simp add: get_path_def split_on_no_sep split: option.split)

lemma set_path_tokens: "set_path create p v r = set_tokens create p (tokens p) v r"
  by (simp add: set_path_def split_on_no_sep)

lemma delete_path_tokens:
  "delete_path p r = (case del_tokens (tokens p) r of None \<Rightarrow> (False, r) | Some r' \<Rightarrow> (True, r'))"
  by (simp add: delete_path_def split_on_no_sep)

lemma wf_row_sub: "wf_row d \<Longrightarrow> dget d t = Some (VDict e) \<Longrightarrow> wf_row e"
  using wf_row_dget [of d t "VDict e"] by (simp add: wf_row_def)

lemma wf_row_dset_dict: "wf_row d \<Longrightarrow> wf_row e \<Longrightarrow> wf_row (dset t (VDict e) d)"
  using wf_row_dset [of d "VDict e" t] by (simp add: wf_row_def)

text \<open>One step of an assignment or a deletion below a nested dictionary.\<close>

lemma set_tokens_step:
  assumes "set_tokens c p (t # u # ts) v d = Inr d'"
  obtains e e' where "dget d t = None \<and> e = [] \<or> dget d t = Some (VDict e)"
    and "set_tokens c p (u # ts) v e = Inr e'" "d' = dset t (VDict e') d"
  using assms by (auto split: option.splits pval.splits if_splits)

lemma del_tokens_step:
  assumes "del_tokens (t # u # ts) d = Some d'"
  obtains e e' where "dget d t = Some (VDict e)" "del_tokens (u # ts) e = Some e'" "d' = dset t (VDict e') d"
  using assms by (auto split: option.splits pval.splits)

lemma get_set_tokens: "set_tokens c p ts v d = Inr d' \<Longrightarrow> ts \<noteq> [] \<Longrightarrow> get_tokens (VDict d') ts = Some v"
proof (induction ts arbitrary: d d' rule: induct_list012)
  case (3 t u ts)
  from 3(3) show ?case
    by (rule set_tokens_step) (use 3(2) in simp)
qed auto

lemma get_set_tokens_apart:
  "set_tokens c p ts v d = Inr d' \<Longrightarrow> \<not> prefix ts us \<Longrightarrow> \<not> prefix us ts \<Longrightarrow>
     get_tokens (VDict d') us = get_tokens (VDict d) us"
proof (induction ts arbitrary: d d' us rule: induct_list012)
  case (2 t)
  then show ?case by (cases us) auto
next
  case (3 t u ts)
  obtain w us' where us: "us = w # us'" using 3 by (cases us) auto
  obtain e e' where e: "dget d t = None \<and> e = [] \<or> dget d t = Some (VDict e)"
    "set_tokens c p (u # ts) v e = Inr e'" "d' = dset t (VDict e') d"
    using 3(3) by (rule set_tokens_step)
  show ?case
  proof (cases "w = t")
    case True
    then have n: "\<not> prefix (u # ts) us'" "\<not> prefix us' (u # ts)" using 3(4,5) us by auto
    have "get_tokens (VDict e') us' = get_tokens (VDict e) us'" by (rule 3(2) [OF e(2) n])
    moreover have "get_tokens (VDict []) us' = None" using n(2) by (cases us') auto
    ultimately show ?thesis using e(1,3) us True by auto
  next
    case False
    then show ?thesis using e(3) us by simp
  qed
qed simp

lemma set_tokens_wf: "set_tokens c p ts v d = Inr d' \<Longrightarrow> wf_row d \<Longrightarrow> wf_val v \<Longrightarrow> wf_row d'"
proof (induction ts arbitrary: d d' rule: induct_list012)
  case (3 t u ts)
  obtain e e' where e: "dget d t = None \<and> e = [] \<or> dget d t = Some (VDict e)"
    "set_tokens c p (u # ts) v e = Inr e'" "d' = dset t (VDict e') d"
    using 3(3) by (rule set_tokens_step)
  then have "wf_row e" using 3(4) wf_row_sub wf_row_Nil by blast
  then show ?case using 3(2) [OF e(2)] 3(4,5) e(3) by (simp add: wf_row_dset_dict)
qed auto

lemma del_tokens_wf: "del_tokens ts d = Some d' \<Longrightarrow> wf_row d \<Longrightarrow> wf_row d'"
proof (induction ts arbitrary: d d' rule: induct_list012)
  case (3 t u ts)
  from 3(3) show ?case
    by (rule del_tokens_step) (use 3(2,4) wf_row_sub wf_row_dset_dict in blast)
qed (auto split: if_splits)

lemma del_tokens_None: "ts \<noteq> [] \<Longrightarrow> del_tokens ts d = None \<longleftrightarrow> get_tokens (VDict d) ts = None"
  by (induction ts d rule: del_tokens.induct) (auto simp: dhas_def split: option.splits pval.splits)

lemma get_del_tokens: "del_tokens ts d = Some d' \<Longrightarrow> wf_row d \<Longrightarrow> get_tokens (VDict d') ts = None"
proof (induction ts arbitrary: d d' rule: induct_list012)
  case (3 t u ts)
  obtain e e' where e: "dget d t = Some (VDict e)" "del_tokens (u # ts) e = Some e'" "d' = dset t (VDict e') d"
    using 3(3) by (rule del_tokens_step)
  then show ?case using 3(2) [OF e(2)] wf_row_sub [OF 3(4) e(1)] by simp
qed (auto simp: dget_dpop wf_row_dwf split: if_splits)

lemma get_del_tokens_apart:
  "del_tokens ts d = Some d' \<Longrightarrow> wf_row d \<Longrightarrow> \<not> prefix ts us \<Longrightarrow> \<not> prefix us ts \<Longrightarrow>
     get_tokens (VDict d') us = get_tokens (VDict d) us"
proof (induction ts arbitrary: d d' us rule: induct_list012)
  case (2 t)
  then show ?case by (cases us) (auto simp: dget_dpop wf_row_dwf split: if_splits)
next
  case (3 t u ts)
  obtain e e' where e: "dget d t = Some (VDict e)" "del_tokens (u # ts) e = Some e'" "d' = dset t (VDict e') d"
    using 3(3) by (rule del_tokens_step)
  obtain x us' where us: "us = x # us'" using 3 by (cases us) auto
  show ?case
  proof (cases "x = t")
    case True
    then have "get_tokens (VDict e') us' = get_tokens (VDict e) us'"
      using 3(5,6) us by (intro 3(2) [OF e(2) wf_row_sub [OF 3(4) e(1)]]) simp_all
    then show ?thesis using e us True by simp
  next
    case False
    then show ?thesis using e us by simp
  qed
qed simp

text \<open>What a client of the path helpers relies on, and moving a value from one path to another.\<close>

locale path_access =
  fixes get :: "'r \<Rightarrow> 'p \<Rightarrow> 'v option"
    and put :: "'p \<Rightarrow> 'v \<Rightarrow> 'r \<Rightarrow> 'e + 'r"
    and del :: "'p \<Rightarrow> 'r \<Rightarrow> 'r"
    and invar :: "'r \<Rightarrow> bool"
    and vinvar :: "'v \<Rightarrow> bool"
    and sep :: "'p \<Rightarrow> 'p \<Rightarrow> bool"
  assumes get_put: "put p v r = Inr r' \<Longrightarrow> get r' p = Some v"
    and get_put_sep: "put p v r = Inr r' \<Longrightarrow> sep p q \<Longrightarrow> get r' q = get r q"
    and get_del: "invar r \<Longrightarrow> get (del p r) p = None"
    and get_del_sep: "invar r \<Longrightarrow> sep p q \<Longrightarrow> get (del p r) q = get r q"
    and invar_put: "put p v r = Inr r' \<Longrightarrow> invar r \<Longrightarrow> vinvar v \<Longrightarrow> invar r'"
    and invar_del: "invar r \<Longrightarrow> invar (del p r)"
    and get_vinvar: "invar r \<Longrightarrow> get r p = Some v \<Longrightarrow> vinvar v"
    and sep_sym: "sep p q \<Longrightarrow> sep q p"
begin

lemma move:
  assumes "invar r" "get r p = Some v" "put q v r = Inr r'" "sep p q"
  shows "get (del p r') q = Some v" "get (del p r') p = None" "invar (del p r')"
    and "sep p s \<Longrightarrow> sep q s \<Longrightarrow> get (del p r') s = get r s"
proof -
  have i: "invar r'" using invar_put [OF assms(3,1)] get_vinvar [OF assms(1,2)] .
  show "get (del p r') q = Some v" using get_del_sep [OF i assms(4)] get_put [OF assms(3)] by simp
  show "get (del p r') p = None" by (rule get_del [OF i])
  show "invar (del p r')" by (rule invar_del [OF i])
  show "get (del p r') s = get r s" if "sep p s" "sep q s"
    using get_del_sep [OF i that(1)] get_put_sep [OF assms(3) that(2)] by simp
qed

end

lemma get_tokens_wf: "wf_val v \<Longrightarrow> get_tokens v ts = Some w \<Longrightarrow> wf_val w"
proof (induction v ts rule: get_tokens.induct)
  case (2 v t ts)
  then obtain d u where "v = VDict d" "dget d t = Some u" "get_tokens u ts = Some w"
    by (auto split: pval.splits option.splits)
  then show ?case using 2 wf_row_dget [of d t u] by (simp add: wf_row_def)
qed simp

interpretation record_paths: path_access get_path "set_path True" "\<lambda>p r. snd (delete_path p r)" wf_row wf_val apart
proof unfold_locales
  show "get_path (snd (delete_path p r)) p = None" if "wf_row r" for r p
    using that del_tokens_None [of "tokens p" r] get_del_tokens [of "tokens p" r]
    by (simp add: get_path_tokens delete_path_tokens split: option.split)
  show "get_path (snd (delete_path p r)) q = get_path r q" if "wf_row r" "apart p q" for r p q
    using that get_del_tokens_apart [of "tokens p" r _ "tokens q"]
    by (simp add: get_path_tokens delete_path_tokens apart_def split: option.split)
  show "wf_row (snd (delete_path p r))" if "wf_row r" for r p
    using that del_tokens_wf [of "tokens p" r] by (simp add: delete_path_tokens split: option.split)
  show "wf_val v" if "wf_row r" "get_path r p = Some v" for r p v
    using that get_tokens_wf [of "VDict r" "tokens p" v] by (simp add: get_path_tokens wf_row_def)
qed (auto simp: get_path_tokens set_path_tokens apart_def get_set_tokens get_set_tokens_apart simp del: get_tokens.simps
       intro: set_tokens_wf)

lemmas wf_set_path = record_paths.invar_put
lemmas wf_delete_path = record_paths.invar_del
lemmas wf_get_path = record_paths.get_vinvar

end
