(* ===== verification/Transforms.thy ===== *)
theory Transforms
  imports Records
begin

text \<open>
  The record transforms of \<open>tram/transforms\<close> that work on one record at a time, and
  \<open>deduplicate\<close>: their configuration, the checks of their constructors and \<open>apply\<close>. The text of
  error messages is abbreviated.
\<close>

section \<open>rename\<close>

definition overlapping :: "string \<Rightarrow> string \<Rightarrow> bool" where
  "overlapping a b \<longleftrightarrow> prefix (b @ ''.'') a \<or> prefix (a @ ''.'') b"

fun rename_sources_ok :: "string list \<Rightarrow> bool" where
  "rename_sources_ok [] = True"
| "rename_sources_ok (s # ss) = (\<not> list_ex (overlapping s) ss \<and> rename_sources_ok ss)"

definition rename_init :: "(string, string) dict \<Rightarrow> (string, string) dict tres" where
  "rename_init fs =
     (if rename_sources_ok (dkeys fs) then Inr fs
      else Inl (TransformError ''rename: overlapping source paths are not supported''))"

definition rename_record :: "(string, string) dict \<Rightarrow> row \<Rightarrow> row tres" where
  "rename_record fs r = tfold (\<lambda>(old, new) r. tbind (rename_path old new r) (\<lambda>(ok, r'). Inr r')) fs r"

definition rename_apply :: "(string, string) dict \<Rightarrow> row list \<Rightarrow> row list tres" where
  "rename_apply fs rs = tmap (rename_record fs) rs"

section \<open>drop\<close>

definition drop_record :: "string list \<Rightarrow> (string, pval list) dict \<Rightarrow> row \<Rightarrow> row" where
  "drop_record fs conds r =
     fold (\<lambda>(f, vals) r. case get_path r f of
         Some v \<Rightarrow> if py_in v vals then snd (delete_path f r) else r
       | None \<Rightarrow> r) conds (fold (\<lambda>f r. snd (delete_path f r)) fs r)"

definition drop_apply :: "string list \<Rightarrow> (string, pval list) dict \<Rightarrow> row list \<Rightarrow> row list tres" where
  "drop_apply fs conds rs = Inr (map (drop_record fs conds) rs)"

section \<open>project\<close>

datatype project_rule =
    ProjectPath string
  | ProjectRule "string option" "string list" "pval option" bool

definition project_init :: "(string, project_rule) dict \<Rightarrow> (string, project_rule) dict tres" where
  "project_init fs =
     (if fs = [] then Inl (TransformError ''project: fields config key is required and must not be empty'') else Inr fs)"

fun first_found :: "row \<Rightarrow> string list \<Rightarrow> pval option" where
  "first_found r [] = None"
| "first_found r (p # ps) = (case get_path r p of Some v \<Rightarrow> Some v | None \<Rightarrow> first_found r ps)"

fun resolve_rule :: "row \<Rightarrow> string \<Rightarrow> project_rule \<Rightarrow> pval tres" where
  "resolve_rule r out (ProjectPath p) = Inr (case get_path r p of Some v \<Rightarrow> v | None \<Rightarrow> VNone)"
| "resolve_rule r out (ProjectRule src any dflt req) =
     (case (case src of Some p \<Rightarrow> get_path r p | None \<Rightarrow> first_found r any) of
        Some v \<Rightarrow> Inr v
      | None \<Rightarrow>
          (case dflt of
             Some v \<Rightarrow> Inr v
           | None \<Rightarrow>
               if req then Inl (TransformError (''project: required field '' @ out @ '' could not be resolved''))
               else Inr VNone))"

definition project_record :: "(string, project_rule) dict \<Rightarrow> row \<Rightarrow> row tres" where
  "project_record fs r = tfold (\<lambda>(out, rule) new. tbind (resolve_rule r out rule) (\<lambda>v. Inr (dset out v new))) fs []"

definition project_apply :: "(string, project_rule) dict \<Rightarrow> row list \<Rightarrow> row list tres" where
  "project_apply fs rs = tmap (project_record fs) rs"

section \<open>limit\<close>

definition limit_init :: "int option \<Rightarrow> nat tres" where
  "limit_init c =
     (case c of
        None \<Rightarrow> Inl (TransformError ''limit: count is required'')
      | Some n \<Rightarrow> if n \<le> 0 then Inl (TransformError ''limit: count must be > 0'') else Inr (nat n))"

definition limit_apply :: "nat \<Rightarrow> row list \<Rightarrow> row list tres" where
  "limit_apply n rs = Inr (take n rs)"

section \<open>deduplicate\<close>

datatype keep = KeepFirst | KeepLast

text \<open>The key of a record; a list or a dictionary in it cannot be hashed.\<close>

definition dedup_key :: "string list \<Rightarrow> row \<Rightarrow> pval list" where
  "dedup_key fs r = map (\<lambda>f. case dget r f of Some v \<Rightarrow> v | None \<Rightarrow> VNone) fs"

fun hashable :: "pval \<Rightarrow> bool" where
  "hashable (VList vs) = False"
| "hashable (VDict d) = False"
| "hashable v = True"

text \<open>A dictionary keyed by tuples: keys are the same when they are equal for Python.\<close>

fun seen_set :: "pval list \<Rightarrow> nat \<Rightarrow> (pval list \<times> nat) list \<Rightarrow> (pval list \<times> nat) list" where
  "seen_set k i [] = [(k, i)]"
| "seen_set k i ((k', j) # s) = (if py_eq_list k' k then (k', i) # s else (k', j) # seen_set k i s)"

definition seen_has :: "pval list \<Rightarrow> (pval list \<times> nat) list \<Rightarrow> bool" where
  "seen_has k s \<longleftrightarrow> list_ex (\<lambda>(k', j). py_eq_list k' k) s"

fun dedup_scan :: "string list \<Rightarrow> keep \<Rightarrow> nat \<Rightarrow> row list \<Rightarrow> (pval list \<times> nat) list \<Rightarrow> (pval list \<times> nat) list tres" where
  "dedup_scan fs kp i [] s = Inr s"
| "dedup_scan fs kp i (r # rs) s =
     (let k = dedup_key fs r
      in if \<not> list_all hashable k then Inl (OtherError ''unhashable type'')
         else dedup_scan fs kp (i + 1) rs
                (case kp of
                   KeepFirst \<Rightarrow> if seen_has k s then s else seen_set k i s
                 | KeepLast \<Rightarrow> seen_set k i s))"

definition deduplicate_apply :: "string list \<Rightarrow> keep \<Rightarrow> row list \<Rightarrow> row list tres" where
  "deduplicate_apply fs kp rs =
     tbind (dedup_scan fs kp 0 rs []) (\<lambda>s.
       Inr (map snd (filter (\<lambda>(i, r). i \<in> set (map snd s)) (zip [0..<length rs] rs))))"

section \<open>coalesce\_fields\<close>

record coalesce_rule =
  co_sources :: "string list"
  co_empty :: "pval list"
  co_default :: pval

fun coalesce_pick :: "row \<Rightarrow> pval list \<Rightarrow> pval \<Rightarrow> string list \<Rightarrow> pval" where
  "coalesce_pick r ems dflt [] = dflt"
| "coalesce_pick r ems dflt (p # ps) =
     (case get_path r p of
        Some v \<Rightarrow> if \<not> py_in v ems then v else coalesce_pick r ems dflt ps
      | None \<Rightarrow> coalesce_pick r ems dflt ps)"

definition coalesce_record :: "(string, coalesce_rule) dict \<Rightarrow> row \<Rightarrow> row" where
  "coalesce_record fs r =
     fold (\<lambda>(out, c) r. dset out (coalesce_pick r (co_empty c) (co_default c) (co_sources c)) r) fs r"

definition coalesce_apply :: "(string, coalesce_rule) dict \<Rightarrow> row list \<Rightarrow> row list tres" where
  "coalesce_apply fs rs = Inr (map (coalesce_record fs) rs)"

section \<open>value\_map\<close>

definition value_map_record :: "(pval \<Rightarrow> string) \<Rightarrow> string \<Rightarrow> (string, pval) dict \<Rightarrow> pval option \<Rightarrow> row \<Rightarrow> row tres" where
  "value_map_record other f m dflt r =
     (case get_path r f of
        None \<Rightarrow> Inr r
      | Some v \<Rightarrow>
          (case dget m (py_show other v) of
             Some w \<Rightarrow> set_path True f w r
           | None \<Rightarrow> (case dflt of Some w \<Rightarrow> set_path True f w r | None \<Rightarrow> Inr r)))"

definition value_map_apply :: "(pval \<Rightarrow> string) \<Rightarrow> string \<Rightarrow> (string, pval) dict \<Rightarrow> pval option \<Rightarrow> row list \<Rightarrow> row list tres" where
  "value_map_apply other f m dflt rs = tmap (value_map_record other f m dflt) rs"

section \<open>explode\<close>

record explode_cfg =
  ex_field :: string
  ex_include_index :: bool
  ex_index_field :: string
  ex_drop_source :: bool

definition explode_init :: "explode_cfg \<Rightarrow> explode_cfg tres" where
  "explode_init c = (if ex_field c = [] then Inl (TransformError ''explode: field config key is required'') else Inr c)"

definition explode_element :: "explode_cfg \<Rightarrow> row \<Rightarrow> nat \<times> pval \<Rightarrow> row tres" where
  "explode_element c r ie =
     (case ie of (i, e) \<Rightarrow>
        (let base = (if ex_drop_source c then snd (delete_path (ex_field c) r) else r);
             new = (case e of VDict d \<Rightarrow> Inr (dupdate d base) | _ \<Rightarrow> set_path True (ex_field c) e base)
         in tbind new (\<lambda>r'. Inr (if ex_include_index c then dset (ex_index_field c) (VInt (int i)) r' else r'))))"

definition explode_record :: "explode_cfg \<Rightarrow> row \<Rightarrow> row list tres" where
  "explode_record c r =
     (case get_path r (ex_field c) of
        Some (VList es) \<Rightarrow> tmap (explode_element c r) (zip [0..<length es] es)
      | _ \<Rightarrow> Inr [r])"

definition explode_apply :: "explode_cfg \<Rightarrow> row list \<Rightarrow> row list tres" where
  "explode_apply c rs = tbind (tmap (explode_record c) rs) (\<lambda>rss. Inr (concat rss))"

section \<open>unnest\<close>

datatype on_non_dict = NonDictKeep | NonDictDrop | NonDictRaise

record unnest_cfg =
  un_field :: string
  un_prefix :: string
  un_drop_source :: bool
  un_on_non_dict :: on_non_dict

definition unnest_record :: "unnest_cfg \<Rightarrow> row \<Rightarrow> row list tres" where
  "unnest_record c r =
     (case get_path r (un_field c) of
        None \<Rightarrow> Inr [r]
      | Some (VDict d) \<Rightarrow>
          Inr [dupdate (map (\<lambda>(k, v). (un_prefix c @ k, v)) d)
                 (if un_drop_source c then snd (delete_path (un_field c) r) else r)]
      | Some _ \<Rightarrow>
          (case un_on_non_dict c of
             NonDictKeep \<Rightarrow> Inr [r]
           | NonDictDrop \<Rightarrow> Inr []
           | NonDictRaise \<Rightarrow> Inl (TransformError (''unnest: field '' @ un_field c @ '' is not a dict''))))"

definition unnest_apply :: "unnest_cfg \<Rightarrow> row list \<Rightarrow> row list tres" where
  "unnest_apply c rs = tbind (tmap (unnest_record c) rs) (\<lambda>rss. Inr (concat rss))"

section \<open>select\_from\_list\<close>

record selection =
  sel_first_item :: bool
  sel_match :: row
  sel_output :: "(string, string) dict"

definition item_matches :: "pval \<Rightarrow> row \<Rightarrow> bool" where
  "item_matches item expected =
     (case item of
        VDict d \<Rightarrow> list_all (\<lambda>(k, v). py_eq (case dget d k of Some w \<Rightarrow> w | None \<Rightarrow> VNone) v) expected
      | _ \<Rightarrow> False)"

definition pick_item :: "pval list \<Rightarrow> selection \<Rightarrow> pval" where
  "pick_item items s =
     (if sel_first_item s then (case items of i # is \<Rightarrow> i | [] \<Rightarrow> VNone)
      else (case filter (\<lambda>i. item_matches i (sel_match s)) items of i # is \<Rightarrow> i | [] \<Rightarrow> VNone))"

definition project_item :: "pval \<Rightarrow> string \<Rightarrow> pval" where
  "project_item item p =
     (case item of
        VDict d \<Rightarrow> (case get_path d p of Some v \<Rightarrow> v | None \<Rightarrow> VNone)
      | _ \<Rightarrow> VNone)"

definition select_one_rule :: "bool \<Rightarrow> pval list option \<Rightarrow> selection \<Rightarrow> row \<Rightarrow> row tres" where
  "select_one_rule raise_no_match items s r =
     (let item = (case items of Some is \<Rightarrow> pick_item is s | None \<Rightarrow> VNone)
      in if item = VNone
         then (if raise_no_match then Inl (TransformError ''select_from_list: no match'')
               else Inr (fold (\<lambda>(src, out). dset out VNone) (sel_output s) r))
         else Inr (fold (\<lambda>(src, out). dset out (project_item item src)) (sel_output s) r))"

definition select_record :: "string \<Rightarrow> selection list \<Rightarrow> bool \<Rightarrow> row \<Rightarrow> row tres" where
  "select_record f sels raise_no_match r =
     (let items = (case get_path r f of Some (VList is) \<Rightarrow> Some is | _ \<Rightarrow> None)
      in tfold (select_one_rule raise_no_match items) sels r)"

definition select_apply :: "string \<Rightarrow> selection list \<Rightarrow> bool \<Rightarrow> row list \<Rightarrow> row list tres" where
  "select_apply f sels raise_no_match rs = tmap (select_record f sels raise_no_match) rs"

section \<open>melt\<close>

record melt_cfg =
  me_value_field :: string
  me_label_fields :: "string list"
  me_name_col :: string
  me_value_col :: string
  me_drop_source :: bool
  me_include_only :: "string list"
  me_exclude :: "string list"

definition melt_label :: "melt_cfg \<Rightarrow> row \<Rightarrow> string \<Rightarrow> row \<Rightarrow> row" where
  "melt_label c r lf base =
     (let label = dget (if me_drop_source c then base else r) lf;
          base' = (if me_drop_source c then dpop lf base else base)
      in case label of Some (VDict d) \<Rightarrow> dupdate d base' | _ \<Rightarrow> base')"

definition melt_base :: "melt_cfg \<Rightarrow> row \<Rightarrow> row" where
  "melt_base c r =
     fold (melt_label c r) (me_label_fields c) (if me_drop_source c then dpop (me_value_field c) r else r)"

definition melt_keeps :: "melt_cfg \<Rightarrow> string \<Rightarrow> bool" where
  "melt_keeps c k \<longleftrightarrow> (me_include_only c = [] \<or> k \<in> set (me_include_only c)) \<and> k \<notin> set (me_exclude c)"

definition melt_record :: "melt_cfg \<Rightarrow> row \<Rightarrow> row list" where
  "melt_record c r =
     (case dget r (me_value_field c) of
        Some (VDict d) \<Rightarrow>
          map (\<lambda>(k, v). dset (me_value_col c) v (dset (me_name_col c) (VStr k) (melt_base c r)))
            (filter (\<lambda>(k, v). melt_keeps c k) d)
      | _ \<Rightarrow> [r])"

definition melt_apply :: "melt_cfg \<Rightarrow> row list \<Rightarrow> row list tres" where
  "melt_apply c rs = Inr (concat (map (melt_record c) rs))"

section \<open>mask\<close>

text \<open>The visible lengths are taken as non-negative.\<close>

datatype mask_mode = MaskRedact | MaskHash | MaskPartial

record mask_cfg =
  mk_fields :: "string list"
  mk_mode :: mask_mode
  mk_placeholder :: string
  mk_start :: nat
  mk_end :: nat

definition mask_value :: "(string \<Rightarrow> string) \<Rightarrow> mask_cfg \<Rightarrow> string \<Rightarrow> string" where
  "mask_value sha256 c s =
     (case mk_mode c of
        MaskRedact \<Rightarrow> mk_placeholder c
      | MaskHash \<Rightarrow> sha256 s
      | MaskPartial \<Rightarrow>
          if length s \<le> mk_start c + mk_end c then mk_placeholder c
          else take (mk_start c) s @ mk_placeholder c @ drop (length s - mk_end c) s)"

definition mask_record :: "(string \<Rightarrow> string) \<Rightarrow> (pval \<Rightarrow> string) \<Rightarrow> mask_cfg \<Rightarrow> row \<Rightarrow> row" where
  "mask_record sha256 other c r =
     fold (\<lambda>f r. case dget r f of None \<Rightarrow> r | Some v \<Rightarrow> dset f (VStr (mask_value sha256 c (py_show other v))) r)
       (mk_fields c) r"

definition mask_apply :: "(string \<Rightarrow> string) \<Rightarrow> (pval \<Rightarrow> string) \<Rightarrow> mask_cfg \<Rightarrow> row list \<Rightarrow> row list tres" where
  "mask_apply sha256 other c rs = Inr (map (mask_record sha256 other c) rs)"

section \<open>inject\_meta\<close>

record inject_cfg =
  in_fields :: "(string, string) dict"
  in_all :: bool
  in_prefix :: string
  in_null_missing :: bool

definition inject_record :: "inject_cfg \<Rightarrow> row \<Rightarrow> row \<Rightarrow> row" where
  "inject_record c meta r =
     fold (\<lambda>(k, out) r. case dget meta k of
         Some v \<Rightarrow> dset (in_prefix c @ out) v r
       | None \<Rightarrow> if in_null_missing c then dset (in_prefix c @ out) VNone r else r)
       (in_fields c) (if in_all c then dupdate (map (\<lambda>(k, v). (in_prefix c @ k, v)) meta) r else r)"

definition inject_apply :: "inject_cfg \<Rightarrow> row \<Rightarrow> row list \<Rightarrow> row list tres" where
  "inject_apply c meta rs = Inr (map (inject_record c meta) rs)"

section \<open>flatten\<close>

text \<open>The recursion of \<open>_flatten_dict\<close>; \<open>max_depth\<close> 0 means no limit.\<close>

fun flatten_items :: "string \<Rightarrow> int \<Rightarrow> string \<Rightarrow> nat \<Rightarrow> (string \<times> pval) list \<Rightarrow> row \<Rightarrow> row"
  and flatten_value :: "string \<Rightarrow> int \<Rightarrow> string \<Rightarrow> nat \<Rightarrow> pval \<Rightarrow> row \<Rightarrow> row" where
  "flatten_items sep md pre depth [] acc = acc"
| "flatten_items sep md pre depth ((k, v) # d) acc =
     flatten_items sep md pre depth d
       (flatten_value sep md (if pre \<noteq> [] then pre @ sep @ k else k) depth v acc)"
| "flatten_value sep md key depth (VDict (kv # d)) acc =
     (if md = 0 \<or> int depth < md then dupdate (flatten_items sep md key (depth + 1) (kv # d) []) acc
      else dset key (VDict (kv # d)) acc)"
| "flatten_value sep md key depth v acc = dset key v acc"

definition flatten_dict :: "string \<Rightarrow> int \<Rightarrow> string \<Rightarrow> row \<Rightarrow> row" where
  "flatten_dict sep md pre r = flatten_items sep md pre 0 r []"

definition flatten_apply :: "string \<Rightarrow> int \<Rightarrow> string \<Rightarrow> row list \<Rightarrow> row list tres" where
  "flatten_apply sep md pre rs = Inr (map (flatten_dict sep md pre) rs)"

section \<open>Transforms as a pipeline builds them\<close>

text \<open>
  The executor builds a transform from \<open>model_dump()\<close> of its configuration model, which contains
  every declared key: an unset \<open>default\<close> arrives as \<open>None\<close>, not as a missing key.
\<close>

record project_field_config =
  pf_source :: "string option"
  pf_source_any :: "string list"
  pf_default :: "pval option"
  pf_required :: bool

definition dumped :: "pval option \<Rightarrow> pval" where
  "dumped v = (case v of Some w \<Rightarrow> w | None \<Rightarrow> VNone)"

definition project_rule_of_config :: "project_field_config \<Rightarrow> project_rule" where
  "project_rule_of_config c =
     ProjectRule (pf_source c) (pf_source_any c) (Some (dumped (pf_default c))) (pf_required c)"

record value_map_config =
  vm_field :: string
  vm_mapping :: "(string, pval) dict"
  vm_default :: "pval option"

definition value_map_of_config :: "(pval \<Rightarrow> string) \<Rightarrow> value_map_config \<Rightarrow> row list \<Rightarrow> row list tres" where
  "value_map_of_config other c = value_map_apply other (vm_field c) (vm_mapping c) (Some (dumped (vm_default c)))"

section \<open>Chains of transforms\<close>

datatype transform =
    TRename "(string, string) dict"
  | TDrop "string list" "(string, pval list) dict"
  | TProject "(string, project_rule) dict"
  | TLimit nat
  | TDeduplicate "string list" keep
  | TCoalesce "(string, coalesce_rule) dict"
  | TValueMap string "(string, pval) dict" "pval option"
  | TExplode explode_cfg
  | TUnnest unnest_cfg
  | TSelect string "selection list" bool
  | TMelt melt_cfg
  | TMask mask_cfg
  | TInject inject_cfg
  | TFlatten string int string

text \<open>What the transforms take from outside: printing, hashing and the metadata of the chunk.\<close>

record transform_env =
  te_show :: "pval \<Rightarrow> string"
  te_sha256 :: "string \<Rightarrow> string"
  te_meta :: row

fun transform_apply :: "transform_env \<Rightarrow> transform \<Rightarrow> row list \<Rightarrow> row list tres" where
  "transform_apply env (TRename fs) = rename_apply fs"
| "transform_apply env (TDrop fs conds) = drop_apply fs conds"
| "transform_apply env (TProject fs) = project_apply fs"
| "transform_apply env (TLimit n) = limit_apply n"
| "transform_apply env (TDeduplicate fs kp) = deduplicate_apply fs kp"
| "transform_apply env (TCoalesce fs) = coalesce_apply fs"
| "transform_apply env (TValueMap f m dflt) = value_map_apply (te_show env) f m dflt"
| "transform_apply env (TExplode c) = explode_apply c"
| "transform_apply env (TUnnest c) = unnest_apply c"
| "transform_apply env (TSelect f sels rz) = select_apply f sels rz"
| "transform_apply env (TMelt c) = melt_apply c"
| "transform_apply env (TMask c) = mask_apply (te_sha256 env) (te_show env) c"
| "transform_apply env (TInject c) = inject_apply c (te_meta env)"
| "transform_apply env (TFlatten sep md pre) = flatten_apply sep md pre"

definition transform_chain :: "transform_env \<Rightarrow> transform list \<Rightarrow> row list \<Rightarrow> row list tres" where
  "transform_chain env ts rs = tfold (transform_apply env) ts rs"

end
