(* ===== verification/Transform_Props.thy ===== *)
theory Transform_Props
  imports Transforms
begin

text \<open>
  Properties of the record transforms: records stay well-formed through every chain; what
  renaming, flattening and deduplication do; and what the construction from the configuration
  model changes.
\<close>

section \<open>Records stay well-formed\<close>














lemma wf_items_elems: "wf_val (VList es) \<Longrightarrow> e \<in> set es \<Longrightarrow> wf_val e"
  by (auto simp: wf_vals_iff list_all_iff)






















section \<open>Renaming\<close>

text \<open>
Renaming a path to one apart from it moves the value: it is found at the new path and no
longer at the old one, every path apart from both keeps its value, and the record stays
well-formed.
\<close>

theorem rename_moves:
  assumes "wf_row r" "get_path r old = Some v" "apart old new" "rename_path old new r = Inr (ok, r')"
  shows "ok \<and> get_path r' new = Some v \<and> get_path r' old = None \<and> wf_row r' \<and>
    (apart old q \<and> apart new q \<longrightarrow> get_path r' q = get_path r q)"
proof -
  have ne: "old \<noteq> new" using assms(3) by (auto simp: apart_def)
  obtain s where s: "set_path True new v r = Inr s" "r' = snd (delete_path old s)" "ok"
    using assms(2,4) ne by (auto simp: rename_path_def)
  note M = record_paths.move [OF assms(1,2) s(1) assms(3)]
  show ?thesis using M s by simp
qed

theorem rename_moves_witness:
  "let r = [(''a'', VDict [(''b'', VInt 1), (''c'', VInt 2)])] in
   \<exists>r'. rename_path ''a.b'' ''x.y'' r = Inr (True, r') \<and> get_path r' ''x.y'' = Some (VInt 1) \<and>
     get_path r' ''a.b'' = None \<and> get_path r' ''a.c'' = get_path r ''a.c''"
proof -
  let ?r = "[(''a'', VDict [(''b'', VInt 1), (''c'', VInt 2)])]"
  let ?s = "[(''a'', VDict [(''c'', VInt 2)]), (''x'', VDict [(''y'', VInt 1)])]"
  have h: "wf_row ?r" "get_path ?r ''a.b'' = Some (VInt 1)" "apart ''a.b'' ''x.y''"
    "rename_path ''a.b'' ''x.y'' ?r = Inr (True, ?s)" by code_simp+
  have "apart ''a.b'' ''a.c''" "apart ''x.y'' ''a.c''" by code_simp+
  with rename_moves [OF h, of "''a.c''"] h(4) show ?thesis by (auto simp: Let_def)
qed

lemma get_tokens_prefix_None: "get_tokens v ts = None \<Longrightarrow> get_tokens v (ts @ us) = None"
  by (induction v ts rule: get_tokens.induct) (auto split: pval.splits option.splits)

lemma del_tokens_child:
  "get_tokens (VDict d) ts = Some (VDict e) \<Longrightarrow> dhas k e \<Longrightarrow>
     \<exists>d'. del_tokens (ts @ [k]) d = Some d' \<and> get_tokens (VDict d') ts = Some (VDict (dpop k e))"
proof (induction ts arbitrary: d)
  case (Cons t ts)
  obtain c where c: "dget d t = Some (VDict c)" "get_tokens (VDict c) ts = Some (VDict e)"
  proof -
    obtain w where w: "dget d t = Some w" "get_tokens w ts = Some (VDict e)"
      using Cons.prems(1) by (auto split: option.splits)
    then show ?thesis using that by (cases w; cases ts) auto
  qed
  obtain c' where "del_tokens (ts @ [k]) c = Some c'" "get_tokens (VDict c') ts = Some (VDict (dpop k e))"
    using Cons.IH [OF c(2) Cons.prems(2)] by blast
  then show ?case using c(1) by (cases "ts @ [k]") auto
qed simp

text \<open>
Renaming between a path and one below it loses data. A value renamed to a path inside
itself disappears; and when the dictionary at \<open>p.k\<close> is renamed to \<open>p\<close>, the entry \<open>k\<close> of that
dictionary, if it has one, is deleted from the moved value.
\<close>

theorem rename_overlap_loses:
  assumes "wf_row r"
  shows "(get_path r old = Some v \<and> old \<noteq> new \<and> prefix (tokens old) (tokens new) \<and>
      rename_path old new r = Inr (ok, r') \<longrightarrow> get_path r' new = None) \<and>
    (CHR ''.'' \<notin> set k \<and> get_path r (p @ ''.'' @ k) = Some (VDict d) \<and> dhas k d \<and>
      rename_path (p @ ''.'' @ k) p r = Inr (ok, r') \<longrightarrow> get_path r' p = Some (VDict (dpop k d)))"
proof (intro conjI impI; elim conjE)
  assume a: "get_path r old = Some v" "old \<noteq> new" "prefix (tokens old) (tokens new)" "rename_path old new r = Inr (ok, r')"
  obtain s where s: "set_path True new v r = Inr s" "r' = snd (delete_path old s)"
    using a(1,2,4) by (auto simp: rename_path_def)
  have "wf_row s" using record_paths.invar_put [OF s(1) assms record_paths.get_vinvar [OF assms a(1)]] .
  then have "get_path r' old = None" unfolding s(2) by (rule record_paths.get_del)
  then show "get_path r' new = None"
    using a(3) get_tokens_prefix_None [of "VDict r'" "tokens old"] by (auto simp: get_path_tokens prefix_def)
next
  let ?old = "p @ ''.'' @ k"
  assume a: "CHR ''.'' \<notin> set k" "get_path r ?old = Some (VDict d)" "dhas k d" "rename_path ?old p r = Inr (ok, r')"
  have t: "tokens (p @ CHR ''.'' # k) = tokens p @ [k]" using a(1) by (simp add: split_on_append split_on_no_sep)
  obtain s where s: "set_path True p (VDict d) r = Inr s" "r' = snd (delete_path ?old s)"
    using a(2,4) by (auto simp: rename_path_def)
  have "get_tokens (VDict s) (tokens p) = Some (VDict d)"
    using record_paths.get_put [OF s(1)] by (simp only: get_path_tokens)
  from del_tokens_child [OF this a(3)] show "get_path r' p = Some (VDict (dpop k d))"
    by (auto simp: s(2) delete_path_tokens t get_path_tokens simp del: get_tokens.simps)
qed

theorem rename_overlap_loses_witness:
  "let r = [(''a'', VDict [(''b'', VInt 1)])]; s = [(''a'', VDict [(''b'', VDict [(''b'', VInt 1), (''c'', VInt 2)])])] in
   (\<exists>r'. rename_path ''a'' ''a.x'' r = Inr (True, r') \<and> get_path r' ''a.x'' = None) \<and>
   (\<exists>r'. rename_path ''a.b'' ''a'' s = Inr (True, r') \<and> get_path r' ''a'' = Some (VDict [(''c'', VInt 2)]))"
proof -
  let ?r = "[(''a'', VDict [(''b'', VInt 1)])]"
  let ?s = "[(''a'', VDict [(''b'', VDict [(''b'', VInt 1), (''c'', VInt 2)])])]"
  have h: "wf_row ?r" "get_path ?r ''a'' = Some (VDict [(''b'', VInt 1)])" "prefix (tokens ''a'') (tokens ''a.x'')"
    "rename_path ''a'' ''a.x'' ?r = Inr (True, [])"
    "wf_row ?s" "get_path ?s ''a.b'' = Some (VDict [(''b'', VInt 1), (''c'', VInt 2)])"
    "dhas ''b'' [(''b'', VInt 1), (''c'', VInt 2)]"
    "rename_path ''a.b'' ''a'' ?s = Inr (True, [(''a'', VDict [(''c'', VInt 2)])])"
    by code_simp+
  show ?thesis
    using rename_overlap_loses [OF h(1), of "''a''" _ "''a.x''" True "[]"] h(2-4)
      rename_overlap_loses [OF h(5), of _ _ _ True "[(''a'', VDict [(''c'', VInt 2)])]" "''b''" "''a''"] h(6-8)
    by (simp add: Let_def)
qed

section \<open>Transforms built from the configuration\<close>

lemma resolve_dumped: "\<exists>v. resolve_rule r out (project_rule_of_config c) = Inr v"
  by (simp add: project_rule_of_config_def split: option.split)

text \<open>
A \<open>project\<close> transform as the executor builds it never raises: the dumped configuration always
contains the key \<open>default\<close>, so a required field that cannot be resolved becomes \<open>None\<close>, although
the same rule without that key raises.
\<close>

theorem project_required_not_enforced:
  "(\<exists>rs'. project_apply (map (\<lambda>(out, c). (out, project_rule_of_config c)) fs) rs = Inr rs') \<and>
   resolve_rule [] ''id'' (ProjectRule (Some ''x'') [] None True) =
     Inl (TransformError ''project: required field id could not be resolved'') \<and>
   resolve_rule [] ''id'' (project_rule_of_config
       \<lparr>pf_source = Some ''x'', pf_source_any = [], pf_default = None, pf_required = True\<rparr>) = Inr VNone"
proof (intro conjI)
  have "\<exists>s'. tfold (\<lambda>(out, rule) new. tbind (resolve_rule r out rule) (\<lambda>v. Inr (dset out v new)))
      (map (\<lambda>(out, c). (out, project_rule_of_config c)) fs) s = Inr s'" for r s
  proof (induction fs arbitrary: s)
    case (Cons oc fs)
    obtain out c where oc: "oc = (out, c)" by (cases oc)
    obtain v where v: "resolve_rule r out (project_rule_of_config c) = Inr v" using resolve_dumped by blast
    show ?case using Cons.IH [of "dset out v s"] by (simp add: oc v)
  qed simp
  then have r: "\<exists>s'. project_record (map (\<lambda>(out, c). (out, project_rule_of_config c)) fs) r = Inr s'" for r
    by (simp add: project_record_def)
  show "\<exists>rs'. project_apply (map (\<lambda>(out, c). (out, project_rule_of_config c)) fs) rs = Inr rs'"
    unfolding project_apply_def
  proof (induction rs)
    case (Cons x xs)
    obtain x' where "project_record (map (\<lambda>(out, c). (out, project_rule_of_config c)) fs) x = Inr x'" using r by blast
    then show ?case using Cons by auto
  qed simp
qed (code_simp+)

lemma set_tokens_present: "ts \<noteq> [] \<Longrightarrow> get_tokens (VDict d) ts = Some w \<Longrightarrow> \<exists>d'. set_tokens create p ts v d = Inr d'"
proof (induction ts arbitrary: d rule: induct_list012)
  case (3 t u ts)
  then obtain e where "dget d t = Some (VDict e)" "get_tokens (VDict e) (u # ts) = Some w"
    by (auto split: option.splits pval.splits)
  then show ?case using 3(2) by auto
qed simp_all

text \<open>
A \<open>value_map\<close> transform built without a default replaces a value the mapping does not list by
\<open>None\<close>: the branch that keeps the original value is never taken.
\<close>

theorem value_map_erases_unmapped:
  assumes "get_path r f = Some v" "dget m (py_show other v) = None"
  shows "\<exists>r'. value_map_of_config other \<lparr>vm_field = f, vm_mapping = m, vm_default = None\<rparr> [r] = Inr [r'] \<and>
    get_path r' f = Some VNone"
proof -
  obtain r' where r': "set_path True f VNone r = Inr r'"
    using set_tokens_present [of "tokens f" r v True f VNone] assms(1) by (auto simp: set_path_tokens get_path_tokens)
  then have "value_map_of_config other \<lparr>vm_field = f, vm_mapping = m, vm_default = None\<rparr> [r] = Inr [r']"
    using assms by (simp add: value_map_of_config_def value_map_apply_def value_map_record_def dumped_def)
  then show ?thesis using record_paths.get_put [OF r'] by blast
qed

theorem value_map_erases_unmapped_witness:
  "\<exists>r'. value_map_of_config (\<lambda>v. []) \<lparr>vm_field = ''severity'', vm_mapping = [(''1'', VStr ''CRITICAL'')], vm_default = None\<rparr>
      [[(''severity'', VInt 2)]] = Inr [r'] \<and> get_path r' ''severity'' = Some VNone"
  by (rule value_map_erases_unmapped [of _ _ "VInt 2"]) code_simp+

end
