(* ===== verification/Json_Flatten.thy ===== *)
theory Json_Flatten
  imports Transform_Props
begin

text \<open>
  \<open>tram/transforms/json_flatten.py\<close>: exploding lists, zipping parallel lists, flattening and
  dropping, for configurations without \<open>choice_unwrap\<close> (which rewrites rows that share nested
  dictionaries in place); and what flattening means in terms of dotted paths.
\<close>

section \<open>Deleting with empty parents\<close>

fun prune_tokens :: "string list \<Rightarrow> row \<Rightarrow> row" where
  "prune_tokens [] d = d"
| "prune_tokens [t] d = d"
| "prune_tokens (t # u # ts) d =
     (case dget d t of
        Some (VDict e) \<Rightarrow>
          (let e' = prune_tokens (u # ts) e in if e' = [] then dpop t d else dset t (VDict e') d)
      | _ \<Rightarrow> d)"

definition prune_empty_parents :: "string \<Rightarrow> row \<Rightarrow> row" where
  "prune_empty_parents p r =
     (if \<not> dotted p then r
      else (case get_tokens (VDict r) (butlast (tokens p)) of
              Some (VDict e) \<Rightarrow> prune_tokens (tokens p) r
            | _ \<Rightarrow> r))"

definition delete_path_pruned :: "string \<Rightarrow> row \<Rightarrow> row" where
  "delete_path_pruned p r = (case delete_path p r of (True, r') \<Rightarrow> prune_empty_parents p r' | (False, r') \<Rightarrow> r')"

section \<open>The transform\<close>

record zip_group =
  zg_fields :: "(string, string) dict"
  zg_strict :: bool

record json_flatten_cfg =
  jf_explode :: "string list"
  jf_sep :: string
  jf_keep_empty :: bool
  jf_lists :: bool
  jf_max_depth :: int
  jf_zip :: "zip_group list"
  jf_drop :: "string list"

definition json_flatten_init :: "json_flatten_cfg \<Rightarrow> json_flatten_cfg tres" where
  "json_flatten_init c =
     (if jf_sep c = [] then Inl (TransformError ''json_flatten: separator must not be empty'')
      else if jf_max_depth c < 0 then Inl (TransformError ''json_flatten: max_depth must be >= 0'')
      else Inr c)"

definition jf_explode_row :: "json_flatten_cfg \<Rightarrow> string \<Rightarrow> row \<Rightarrow> row list tres" where
  "jf_explode_row c p r =
     (case get_path r p of
        None \<Rightarrow> Inr (if jf_keep_empty c then [r] else [])
      | Some (VList []) \<Rightarrow> Inr (if jf_keep_empty c then [r] else [])
      | Some (VList es) \<Rightarrow>
          (let base = delete_path_pruned p r
           in tmap (\<lambda>e. case e of VDict d \<Rightarrow> Inr (dupdate d base) | _ \<Rightarrow> set_path True p e base) es)
      | Some _ \<Rightarrow> Inl (TransformError (''json_flatten: explode path '' @ p @ '' is not a list'')))"

definition apply_explodes :: "json_flatten_cfg \<Rightarrow> row list \<Rightarrow> row list tres" where
  "apply_explodes c rs = tfold (\<lambda>p rs. tbind (tmap (jf_explode_row c p) rs) (\<lambda>rss. Inr (concat rss))) (jf_explode c) rs"

text \<open>The lists of a zip group, \<open>None\<close> when one of its fields is missing.\<close>

fun zip_values :: "(string, string) dict \<Rightarrow> row \<Rightarrow> pval list list option tres" where
  "zip_values [] r = Inr (Some [])"
| "zip_values ((src, out) # fs) r =
     (case get_path r src of
        None \<Rightarrow> Inr None
      | Some (VList vs) \<Rightarrow> tbind (zip_values fs r) (\<lambda>rest. Inr (map_option (\<lambda>vss. vs # vss) rest))
      | Some _ \<Rightarrow> Inl (TransformError (''json_flatten: zip group field '' @ src @ '' is not a list'')))"

definition zip_row :: "zip_group \<Rightarrow> row \<Rightarrow> row list tres" where
  "zip_row g r =
     tbind (zip_values (zg_fields g) r) (\<lambda>found.
       case found of
         None \<Rightarrow> Inr [r]
       | Some [] \<Rightarrow> Inr [r]
       | Some (vs # vss) \<Rightarrow>
           if \<not> list_all (\<lambda>ws. length ws = length vs) vss
           then (if zg_strict g then Inl (TransformError ''json_flatten: zip group fields have different lengths'')
                 else Inr [r])
           else
             (let base = fold (\<lambda>(src, out). delete_path_pruned src) (zg_fields g) r
              in tmap (\<lambda>i. tfold (\<lambda>((src, out), ws) row. set_path True out (ws ! i) row)
                    (zip (zg_fields g) (vs # vss)) base) [0..<length vs]))"

definition apply_zip_groups :: "json_flatten_cfg \<Rightarrow> row list \<Rightarrow> row list tres" where
  "apply_zip_groups c rs =
     tfold (\<lambda>g rs.
       if zg_fields g = [] then Inl (TransformError ''json_flatten: zip_groups[].fields must be a non-empty mapping'')
       else tbind (tmap (zip_row g) rs) (\<lambda>rss. Inr (concat rss))) (jf_zip c) rs"

text \<open>\<open>_flatten_record\<close> is the recursion of \<open>flatten\<close> with a check of the lists it meets.\<close>

fun has_list_leaf :: "int \<Rightarrow> nat \<Rightarrow> (string \<times> pval) list \<Rightarrow> bool"
  and leaf_list :: "int \<Rightarrow> nat \<Rightarrow> pval \<Rightarrow> bool" where
  "has_list_leaf md depth [] = False"
| "has_list_leaf md depth ((k, v) # d) = (leaf_list md depth v \<or> has_list_leaf md depth d)"
| "leaf_list md depth (VDict d) = (d \<noteq> [] \<and> (md = 0 \<or> int depth < md) \<and> has_list_leaf md (depth + 1) d)"
| "leaf_list md depth (VList vs) = True"
| "leaf_list md depth v = False"

definition jf_flatten_record :: "json_flatten_cfg \<Rightarrow> row \<Rightarrow> row tres" where
  "jf_flatten_record c r =
     (if \<not> jf_lists c \<and> has_list_leaf (jf_max_depth c) 0 r
      then Inl (TransformError ''json_flatten: list value requires preserve_lists=true'')
      else Inr (flatten_dict (jf_sep c) (jf_max_depth c) [] r))"

definition drop_flattened_paths :: "json_flatten_cfg \<Rightarrow> row \<Rightarrow> row" where
  "drop_flattened_paths c r =
     filter (\<lambda>(k, v). \<not> (k \<in> set (filter (\<lambda>p. \<not> has_path_pattern p) (jf_drop c)) \<or>
        list_ex (path_matches_pattern k) (filter has_path_pattern (jf_drop c)))) r"

definition json_flatten_apply :: "json_flatten_cfg \<Rightarrow> row list \<Rightarrow> row list tres" where
  "json_flatten_apply c rs =
     tbind (apply_explodes c rs) (\<lambda>rs1.
     tbind (apply_zip_groups c rs1) (\<lambda>rs2.
     tbind (tmap (jf_flatten_record c) rs2) (\<lambda>rs3. Inr (map (drop_flattened_paths c) rs3))))"

section \<open>Flattening is reading by paths\<close>

text \<open>The leaves of a record with the keys that lead to them, in order.\<close>

fun leaves :: "(string \<times> pval) list \<Rightarrow> (string list \<times> pval) list"
  and leaves_of :: "pval \<Rightarrow> (string list \<times> pval) list" where
  "leaves [] = []"
| "leaves ((k, v) # d) = map (\<lambda>(ts, w). (k # ts, w)) (leaves_of v) @ leaves d"
| "leaves_of (VDict (kv # d)) = leaves (kv # d)"
| "leaves_of v = [([], v)]"

text \<open>The key a chain of keys is flattened to, after a prefix.\<close>

fun flat_key :: "string \<Rightarrow> string \<Rightarrow> string list \<Rightarrow> string" where
  "flat_key sep pre [] = pre"
| "flat_key sep pre (t # ts) = flat_key sep (if pre \<noteq> [] then pre @ sep @ t else t) ts"

lemma dget_dupdate: "dget (dupdate kvs d) k = (case map_of (rev kvs) k of Some v \<Rightarrow> Some v | None \<Rightarrow> dget d k)"
  unfolding dupdate_def
  by (induction kvs arbitrary: d) (auto simp: map_add_def split: option.split)

lemma dget_map_of: "dget d k = map_of d k"
  by (induction d) auto

lemma dwf_dupdate: "dwf d \<Longrightarrow> dwf (dupdate kvs d)"
  unfolding dupdate_def by (induction kvs arbitrary: d) auto

lemma dget_dupdate_dict:
  assumes "dwf e"
  shows "dget (dupdate e d) k = (case dget e k of Some v \<Rightarrow> Some v | None \<Rightarrow> dget d k)"
proof -
  have "distinct (map fst e)" "distinct (map fst (rev e))"
    using assms by (simp_all add: dwf_def dkeys_def rev_map [symmetric])
  then have "map_of (rev e) = map_of e" by (subst map_of_inject_set) simp_all
  then show ?thesis by (simp add: dget_dupdate dget_map_of [of e])
qed

lemma dget_dupdate_cong: "dget d k = dget e k \<Longrightarrow> dget (dupdate kvs d) k = dget (dupdate kvs e) k"
  by (simp add: dget_dupdate split: option.split)

lemma dupdate_append: "dupdate (xs @ ys) d = dupdate ys (dupdate xs d)"
  by (simp add: dupdate_def)

lemma flatten_dwf:
  "dwf acc \<Longrightarrow> dwf (flatten_items sep md pre depth d acc)"
  "dwf acc \<Longrightarrow> dwf (flatten_value sep md key depth v acc)"
  by (induction sep md pre depth d acc and sep md key depth v acc rule: flatten_items_flatten_value.induct)
    (simp_all add: dwf_dupdate)

definition at_keys :: "string \<Rightarrow> string \<Rightarrow> (string list \<times> pval) list \<Rightarrow> row" where
  "at_keys sep pre ls = map (\<lambda>(ts, w). (flat_key sep pre ts, w)) ls"

lemma at_keys_append: "at_keys sep pre (xs @ ys) = at_keys sep pre xs @ at_keys sep pre ys"
  by (simp add: at_keys_def)

lemma at_keys_push:
  "at_keys sep pre (map (\<lambda>(ts, w). (k # ts, w)) ls) = at_keys sep (if pre \<noteq> [] then pre @ sep @ k else k) ls"
  by (auto simp: at_keys_def)

text \<open>Without a depth limit, flattening assigns the leaves in order.\<close>

lemma flatten_leaves:
  "md = 0 \<Longrightarrow> dget (flatten_items sep md pre depth d acc) x = dget (dupdate (at_keys sep pre (leaves d)) acc) x"
  "md = 0 \<Longrightarrow> dget (flatten_value sep md key depth v acc) x = dget (dupdate (at_keys sep key (leaves_of v)) acc) x"
proof (induction sep md pre depth d acc and sep md key depth v acc arbitrary: x and x
    rule: flatten_items_flatten_value.induct)
  case (2 sep md pre depth k v d acc)
  let ?key = "if pre \<noteq> [] then pre @ sep @ k else k"
  let ?acc = "flatten_value sep md ?key depth v acc"
  have "dget (flatten_items sep md pre depth ((k, v) # d) acc) x = dget (dupdate (at_keys sep pre (leaves d)) ?acc) x"
    using 2(2) [OF 2(3)] by simp
  also have "\<dots> = dget (dupdate (at_keys sep pre (leaves d)) (dupdate (at_keys sep ?key (leaves_of v)) acc)) x"
    by (rule dget_dupdate_cong) (rule 2(1) [OF 2(3)])
  finally show ?case by (simp add: at_keys_append at_keys_push dupdate_append)
next
  case (3 sep md key depth kv d acc)
  let ?e = "flatten_items sep md key (depth + 1) (kv # d) []"
  have "dget (dupdate ?e acc) x = (case dget ?e x of Some v \<Rightarrow> Some v | None \<Rightarrow> dget acc x)"
    by (rule dget_dupdate_dict) (simp add: flatten_dwf del: flatten_items.simps)
  also have "\<dots> = dget (dupdate (at_keys sep key (leaves (kv # d))) acc) x"
    using 3(1) [OF _ 3(2), of x] 3(2) by (simp add: dget_dupdate del: flatten_items.simps leaves.simps split: option.split)
  finally show ?case using 3(2) by (simp del: flatten_items.simps leaves.simps)
qed (simp_all add: at_keys_def dupdate_def)

section \<open>Leaves are what the paths reach\<close>

definition branch :: "pval \<Rightarrow> bool" where
  "branch v \<longleftrightarrow> (case v of VDict (kv # d) \<Rightarrow> True | _ \<Rightarrow> False)"

text \<open>No key on the way to a leaf is empty or contains a dot.\<close>

fun plain_keys :: "(string \<times> pval) list \<Rightarrow> bool"
  and plain_val :: "pval \<Rightarrow> bool" where
  "plain_keys [] = True"
| "plain_keys ((k, v) # d) = (k \<noteq> [] \<and> \<not> dotted k \<and> plain_val v \<and> plain_keys d)"
| "plain_val (VDict d) = plain_keys d"
| "plain_val v = True"

lemma not_branch_get: "\<not> branch v \<Longrightarrow> get_tokens v (t # ts) = None"
  by (auto simp: branch_def split: pval.splits list.splits)

lemma leaves_get:
  "dwf d \<Longrightarrow> wf_items d \<Longrightarrow> (ts, w) \<in> set (leaves d) \<longleftrightarrow> ts \<noteq> [] \<and> get_tokens (VDict d) ts = Some w \<and> \<not> branch w"
  "wf_val v \<Longrightarrow> (ts, w) \<in> set (leaves_of v) \<longleftrightarrow>
     (if branch v then ts \<noteq> [] else ts = []) \<and> get_tokens v ts = Some w \<and> \<not> branch w"
proof (induction d and v arbitrary: ts and ts rule: leaves_leaves_of.induct)
  case (2 k v d)
  have k: "k \<notin> set (dkeys d)" and w: "dwf d" "wf_items d" "wf_val v" using 2(3,4) by simp_all
  show ?case
  proof (cases ts)
    case (Cons t us)
    have A: "(t # us, w) \<in> set (map (\<lambda>(ts, w). (k # ts, w)) (leaves_of v)) \<longleftrightarrow> t = k \<and> (us, w) \<in> set (leaves_of v)"
      by auto
    have B: "(t # us, w) \<in> set (leaves d) \<longleftrightarrow> get_tokens (VDict d) (t # us) = Some w \<and> \<not> branch w"
      using 2(2) [OF w(1,2), of "t # us"] by simp
    show ?thesis
    proof (cases "t = k")
      case True
      have "dget d k = None" using k by (simp add: dget_None_iff)
      moreover have "(us, w) \<in> set (leaves_of v) \<longleftrightarrow> get_tokens v us = Some w \<and> \<not> branch w"
        using 2(1) [OF w(3), of us] not_branch_get [of v] by (cases us) auto
      ultimately show ?thesis using Cons True A B by (auto split: option.splits)
    next
      case False
      then show ?thesis using Cons A B by auto
    qed
  qed (use 2(2) [OF w(1,2), of "[]"] in auto)
next
  case (3 kv d)
  then show ?case by (simp add: branch_def del: leaves.simps)
qed (auto simp: branch_def neq_Nil_conv)

lemma leaves_plain:
  "plain_keys d \<Longrightarrow> (ts, w) \<in> set (leaves d) \<Longrightarrow> ts \<noteq> [] \<and> list_all (\<lambda>t. t \<noteq> [] \<and> \<not> dotted t) ts"
  "plain_val v \<Longrightarrow> (ts, w) \<in> set (leaves_of v) \<Longrightarrow> list_all (\<lambda>t. t \<noteq> [] \<and> \<not> dotted t) ts"
  by (induction d and v arbitrary: ts and ts rule: leaves_leaves_of.induct) auto

lemma flat_key_pre: "pre \<noteq> [] \<Longrightarrow> flat_key ''.'' pre ts = join_with CHR ''.'' (pre # ts)"
proof (induction ts arbitrary: pre)
  case (Cons t ts)
  have "flat_key ''.'' pre (t # ts) = join_with CHR ''.'' ((pre @ ''.'' @ t) # ts)" using Cons by simp
  also have "\<dots> = join_with CHR ''.'' (pre # t # ts)" by (cases ts) simp_all
  finally show ?case .
qed simp

lemma flat_key_join:
  assumes "ts \<noteq> []" "list_all (\<lambda>t. t \<noteq> [] \<and> \<not> dotted t) ts"
  shows "flat_key ''.'' [] ts = join_with CHR ''.'' ts" "tokens (flat_key ''.'' [] ts) = ts"
proof -
  obtain t us where ts: "ts = t # us" using assms(1) by (cases ts) auto
  then have "t \<noteq> []" using assms(2) by simp
  then show j: "flat_key ''.'' [] ts = join_with CHR ''.'' ts" using ts by (simp add: flat_key_pre)
  show "tokens (flat_key ''.'' [] ts) = ts"
    unfolding j using assms by (intro split_on_join) (auto simp: list_all_iff)
qed

lemma map_of_rev_unique:
  assumes "(k, v) \<in> set kvs" "\<And>w. (k, w) \<in> set kvs \<Longrightarrow> w = v"
  shows "map_of (rev kvs) k = Some v"
proof -
  obtain w where w: "map_of (rev kvs) k = Some w" using assms(1) by (metis map_of_eq_None_iff not_None_eq fst_conv image_eqI set_rev)
  then have "(k, w) \<in> set kvs" using map_of_SomeD by fastforce
  then show ?thesis using w assms(2) by simp
qed

text \<open>
C40. Flattening with the separator dot and no depth limit is reading by dotted paths: when no key
is empty or contains a dot, the flattened record maps a path to a value exactly when the path
leads to that value in the nested record and the value is not a non-empty dictionary.
\<close>

theorem flatten_reads_paths:
  assumes "wf_row r" "plain_keys r"
  shows "dget (flatten_dict ''.'' 0 [] r) p =
    (case get_path r p of Some v \<Rightarrow> if branch v then None else Some v | None \<Rightarrow> None)"
proof -
  let ?kvs = "at_keys ''.'' [] (leaves r)"
  have w: "dwf r" "wf_items r" using assms(1) by (simp_all add: wf_row_def)
  have D: "dget (flatten_dict ''.'' 0 [] r) p = map_of (rev ?kvs) p"
    by (simp add: flatten_dict_def flatten_leaves(1) dget_dupdate split: option.split)
  have L: "get_path r q = Some v \<and> \<not> branch v" if qv: "(q, v) \<in> set ?kvs" for q v
  proof -
    obtain ts where ts: "(ts, v) \<in> set (leaves r)" "q = flat_key ''.'' [] ts" using qv by (auto simp: at_keys_def)
    then have "tokens q = ts" using leaves_plain(1) [OF assms(2) ts(1)] flat_key_join(2) by simp
    then show ?thesis using leaves_get(1) [OF w, of ts v] ts(1) by (simp only: get_path_tokens simp_thms)
  qed
  show ?thesis
  proof (cases "\<exists>v. get_path r p = Some v \<and> \<not> branch v")
    case True
    then obtain v where v: "get_path r p = Some v" "\<not> branch v" by blast
    then have m: "(tokens p, v) \<in> set (leaves r)" using leaves_get(1) [OF w, of "tokens p" v] by (simp only: get_path_tokens) simp
    then have "flat_key ''.'' [] (tokens p) = p"
      using leaves_plain(1) [OF assms(2) m] by (simp add: flat_key_join(1) join_split_on)
    then have "(p, v) \<in> set ?kvs" using m by (force simp: at_keys_def)
    then have "map_of (rev ?kvs) p = Some v"
    proof (rule map_of_rev_unique)
      fix w
      assume "(p, w) \<in> set ?kvs"
      from L [OF this] show "w = v" using v(1) by simp
    qed
    then show ?thesis using D v by simp
  next
    case False
    then have "map_of (rev ?kvs) p = None" using L by (auto simp: map_of_eq_None_iff)
    then show ?thesis using D False by (auto split: option.split)
  qed
qed

theorem flatten_reads_paths_witness:
  "let r = [(''a'', VDict [(''b'', VInt 1), (''c'', VDict [])]), (''d'', VStr ''x'')] in
   wf_row r \<and> plain_keys r \<and> dget (flatten_dict ''.'' 0 [] r) ''a.b'' = Some (VInt 1) \<and>
   dget (flatten_dict ''.'' 0 [] r) ''a.c'' = Some (VDict []) \<and> dget (flatten_dict ''.'' 0 [] r) ''a'' = None"
proof -
  let ?r = "[(''a'', VDict [(''b'', VInt 1), (''c'', VDict [])]), (''d'', VStr ''x'')]"
  have h: "wf_row ?r" "plain_keys ?r" by code_simp+
  have g: "get_path ?r ''a.b'' = Some (VInt 1)" "get_path ?r ''a.c'' = Some (VDict [])"
    "get_path ?r ''a'' = Some (VDict [(''b'', VInt 1), (''c'', VDict [])])"
    "\<not> branch (VInt 1)" "\<not> branch (VDict [])" "branch (VDict [(''b'', VInt 1), (''c'', VDict [])])" by code_simp+
  note F = flatten_reads_paths [OF h]
  show ?thesis using h F [of "''a.b''"] F [of "''a.c''"] F [of "''a''"] g by (simp only: Let_def option.case if_True if_False simp_thms)
qed

end
