(* ===== verification/Counter_Delta.thy ===== *)
theory Counter_Delta
  imports Transform_Props
begin

text \<open>
  \<open>tram/transforms/counter_delta.py\<close> and the timestamp parsing it shares with
  \<open>window_aggregate\<close> (\<open>tram/transforms/timestamp_normalize.py\<close>). Instants are rational seconds
  since the epoch. Reading ISO dates (\<open>datetime.fromisoformat\<close> and the \<open>strptime\<close> fallbacks) is a
  parameter of the model.
\<close>

section \<open>Timestamps\<close>

text \<open>The strings that match \<open>-?\d+(\.\d+)?\<close>, as numbers.\<close>

definition digits_val :: "string \<Rightarrow> nat" where
  "digits_val s = foldl (\<lambda>a c. 10 * a + digit_val c) 0 s"

definition parse_udecimal :: "string \<Rightarrow> rat option" where
  "parse_udecimal s =
     (case split_on CHR ''.'' s of
        [a] \<Rightarrow> if a \<noteq> [] \<and> list_all is_digit a then Some (of_nat (digits_val a)) else None
      | [a, b] \<Rightarrow>
          if a \<noteq> [] \<and> b \<noteq> [] \<and> list_all is_digit a \<and> list_all is_digit b
          then Some (of_nat (digits_val a) + of_nat (digits_val b) / 10 ^ length b) else None
      | _ \<Rightarrow> None)"

definition parse_decimal :: "string \<Rightarrow> rat option" where
  "parse_decimal s =
     (case s of
        c # cs \<Rightarrow> if c = CHR ''-'' then map_option uminus (parse_udecimal cs) else parse_udecimal s
      | [] \<Rightarrow> None)"

text \<open>
  \<open>datetime.fromtimestamp(q, UTC).timestamp()\<close>: rounded to microseconds, half to even, and an
  error outside the years 1 to 9999.
\<close>

definition round_even :: "rat \<Rightarrow> int" where
  "round_even q =
     (let f = \<lfloor>q\<rfloor>; d = q - of_int f
      in if d < 1 / 2 then f else if d > 1 / 2 then f + 1 else if even f then f else f + 1)"

definition as_instant :: "rat \<Rightarrow> rat tres" where
  "as_instant q =
     (let m = round_even (q * 1000000)
      in if -62135596800000000 \<le> m \<and> m < 253402300800000000 then Inr (of_int m / 1000000)
         else Inl (OtherError ''year is out of range''))"

definition from_unix :: "rat \<Rightarrow> rat tres" where
  "from_unix q =
     as_instant
       (if \<bar>q\<bar> \<le> 9999999999 then q
        else if \<bar>q\<bar> \<le> 9999999999999 then q / 1000
        else if \<bar>q\<bar> \<le> 9999999999999999 then q / 1000000
        else q / 1000000000)"

record clock_env =
  ce_show :: "pval \<Rightarrow> string"
  ce_iso :: "string \<Rightarrow> rat option"

definition parse_timestamp :: "clock_env \<Rightarrow> pval \<Rightarrow> rat tres" where
  "parse_timestamp env v =
     (case num_of v of
        Some q \<Rightarrow> from_unix q
      | None \<Rightarrow>
          (let s = py_strip (py_show (ce_show env) v)
           in case parse_decimal s of
                Some q \<Rightarrow> from_unix q
              | None \<Rightarrow>
                  (case ce_iso env s of
                     Some q \<Rightarrow> Inr q
                   | None \<Rightarrow> Inl (TransformError ''Cannot parse timestamp''))))"

fun resolve_timestamp :: "clock_env \<Rightarrow> string list \<Rightarrow> row \<Rightarrow> rat tres" where
  "resolve_timestamp env [] r = Inl (TransformError ''no parseable timestamp'')"
| "resolve_timestamp env (f # fs) r =
     (case get_path r f of
        Some v \<Rightarrow> if v \<noteq> VNone \<and> v \<noteq> VStr [] then parse_timestamp env v else resolve_timestamp env fs r
      | None \<Rightarrow> resolve_timestamp env fs r)"

section \<open>Configuration and state\<close>

datatype cd_output = OutDelta | OutRate | OutBoth

datatype error_mode = OnRaise | OnNull | OnKeep

record cd_cfg =
  cd_fields :: "string list"
  cd_key_fields :: "string list"
  cd_ts_fields :: "string list"
  cd_width :: "int option"
  cd_output :: cd_output
  cd_keep_raw :: bool
  cd_first_drop :: bool
  cd_threshold :: rat
  cd_max_gap :: "rat option"
  cd_on_error :: error_mode

definition counter_delta_init :: "cd_cfg \<Rightarrow> cd_cfg tres" where
  "counter_delta_init c =
     (if cd_fields c = [] then Inl (TransformError ''counter_delta: fields list is required'')
      else if cd_ts_fields c = [] then Inl (TransformError ''counter_delta: timestamp_field must not be empty'')
      else if cd_width c \<notin> {None, Some 32, Some 64} then Inl (TransformError ''counter_delta: width must be auto, 32, or 64'')
      else if \<not> (0 < cd_threshold c \<and> cd_threshold c < 1)
        then Inl (TransformError ''counter_delta: reset_threshold must be between 0 and 1'')
      else if (case cd_max_gap c of Some g \<Rightarrow> g \<le> 0 | None \<Rightarrow> False)
        then Inl (TransformError ''counter_delta: max_gap_seconds must be > 0'')
      else Inr c)"

text \<open>A sample: the counter and its instant.\<close>

type_synonym sample = "int \<times> rat"

type_synonym cd_state = "(string, sample) dict"

section \<open>One counter\<close>

definition id_sep :: char where
  "id_sep = CHR 0x1F"

fun key_parts :: "clock_env \<Rightarrow> row \<Rightarrow> string list \<Rightarrow> string list option" where
  "key_parts env r [] = Some []"
| "key_parts env r (k # ks) =
     (case get_path r k of
        None \<Rightarrow> None
      | Some v \<Rightarrow>
          if v = VNone then None
          else map_option (\<lambda>ps. (k @ ''='' @ py_show (ce_show env) v) # ps) (key_parts env r ks))"

definition counter_identity :: "clock_env \<Rightarrow> row \<Rightarrow> cd_cfg \<Rightarrow> row \<Rightarrow> string \<Rightarrow> string option" where
  "counter_identity env meta c r f =
     (let host = (case dget meta ''source_host'' of Some v \<Rightarrow> py_show (ce_show env) v | None \<Rightarrow> [])
      in map_option (\<lambda>ps. join_with id_sep (host # ps @ [f])) (key_parts env r (cd_key_fields c)))"

definition base_name :: "string \<Rightarrow> string" where
  "base_name f = (case rsplit1 CHR ''.'' f of Some (p, b) \<Rightarrow> b | None \<Rightarrow> f)"

definition resolve_width :: "cd_cfg \<Rightarrow> row \<Rightarrow> string \<Rightarrow> int \<Rightarrow> int \<Rightarrow> int tres" where
  "resolve_width c r f prev_v now_v =
     (let own = (case dget r ''_snmp_widths'' of
            Some (VDict d) \<Rightarrow> Inr (Option.bind (dget d (base_name f)) num_of)
          | Some v \<Rightarrow> if truthy v then Inl (OtherError ''no attribute get'') else Inr None
          | None \<Rightarrow> Inr None)
      in tbind own (\<lambda>w.
           Inr (if w = Some 32 then 32 else if w = Some 64 then 64
                else (case cd_width c of
                        Some x \<Rightarrow> x
                      | None \<Rightarrow> if prev_v \<ge> 2 ^ 32 \<or> now_v \<ge> 2 ^ 32 then 64 else 32))))"

definition modulus :: "int \<Rightarrow> int" where
  "modulus w = (if w = 64 then 2 ^ 64 else 2 ^ 32)"

definition delta_for :: "cd_cfg \<Rightarrow> int \<Rightarrow> int \<Rightarrow> int \<Rightarrow> int \<times> bool" where
  "delta_for c prev_v now_v w =
     (if now_v \<ge> prev_v then (now_v - prev_v, False)
      else
        (let corrected = now_v + modulus w - prev_v
         in if of_int corrected > cd_threshold c * of_int (modulus w) then (now_v, True) else (corrected, False)))"

definition set_outputs :: "cd_cfg \<Rightarrow> string \<Rightarrow> pval \<Rightarrow> pval \<Rightarrow> row \<Rightarrow> row tres" where
  "set_outputs c f delta rate r =
     tbind (if cd_output c \<in> {OutDelta, OutBoth} then set_path True (f @ ''_delta'') delta r else Inr r) (\<lambda>r1.
       if cd_output c \<in> {OutRate, OutBoth} then set_path True (f @ ''_rate'') rate r1 else Inr r1)"

definition handle_bad_record :: "cd_cfg \<Rightarrow> string list \<Rightarrow> row \<Rightarrow> row \<Rightarrow> row tres" where
  "handle_bad_record c rest snapshot r =
     (case cd_on_error c of
        OnRaise \<Rightarrow> Inl (TransformError ''counter_delta: bad record'')
      | OnNull \<Rightarrow> tfold (\<lambda>f r. set_outputs c f VNone VNone r) rest r
      | OnKeep \<Rightarrow> Inr snapshot)"

text \<open>\<open>int(raw_v)\<close> of a field that is neither missing, \<open>None\<close> nor a boolean.\<close>

fun counter_value :: "pval option \<Rightarrow> int option" where
  "counter_value (Some (VInt i)) = Some i"
| "counter_value (Some (VFloat q)) = Some (if q \<ge> 0 then \<lfloor>q\<rfloor> else \<lceil>q\<rceil>)"
| "counter_value (Some (VStr s)) = py_int s"
| "counter_value _ = None"

section \<open>Records\<close>

text \<open>The outcome of a record: rejected (as it is then emitted), or processed with the first-sight flag.\<close>

datatype cd_outcome = BadRecord row | GoodRecord bool row

definition step_outputs :: "cd_cfg \<Rightarrow> string \<Rightarrow> int \<Rightarrow> rat \<Rightarrow> sample \<Rightarrow> row \<Rightarrow> row tres" where
  "step_outputs c f v_now t_now prev r =
     (let prev_v = fst prev; elapsed = t_now - snd prev
      in tbind (resolve_width c r f prev_v v_now) (\<lambda>w.
           let (delta, is_reset) =
                 (if (case cd_max_gap c of Some g \<Rightarrow> elapsed > g | None \<Rightarrow> False) then (v_now, True)
                  else delta_for c prev_v v_now w);
               r1 = (if is_reset then dset ''_counter_reset'' (VBool True) r else r)
           in tbind (set_outputs c f (VInt delta) (if elapsed > 0 then VFloat (of_int delta / elapsed) else VNone) r1) (\<lambda>r2.
                Inr (if cd_keep_raw c then r2 else snd (delete_path f r2)))))"

fun cd_loop ::
  "clock_env \<Rightarrow> row \<Rightarrow> cd_cfg \<Rightarrow> rat \<Rightarrow> row \<Rightarrow> string list \<Rightarrow> bool \<Rightarrow> row \<Rightarrow> cd_state \<Rightarrow> cd_outcome tres \<times> cd_state" where
  "cd_loop env meta c t_now snapshot [] first r st = (Inr (GoodRecord first r), st)"
| "cd_loop env meta c t_now snapshot (f # fs) first r st =
     (case counter_value (get_path r f) of
        None \<Rightarrow> (tbind (handle_bad_record c (f # fs) snapshot r) (\<lambda>r'. Inr (BadRecord r')), st)
      | Some v_now \<Rightarrow>
          (case counter_identity env meta c r f of
             None \<Rightarrow> (tbind (handle_bad_record c (f # fs) snapshot r) (\<lambda>r'. Inr (BadRecord r')), st)
           | Some k \<Rightarrow>
               (case dget st k of
                  None \<Rightarrow>
                    (case set_outputs c f VNone VNone r of
                       Inl e \<Rightarrow> (Inl e, dset k (v_now, t_now) st)
                     | Inr r' \<Rightarrow> cd_loop env meta c t_now snapshot fs True r' (dset k (v_now, t_now) st))
                | Some prev \<Rightarrow>
                    (case step_outputs c f v_now t_now prev r of
                       Inl e \<Rightarrow> (Inl e, st)
                     | Inr r' \<Rightarrow> cd_loop env meta c t_now snapshot fs first r' (dset k (v_now, t_now) st)))))"

definition cd_record :: "clock_env \<Rightarrow> row \<Rightarrow> cd_cfg \<Rightarrow> row \<Rightarrow> cd_state \<Rightarrow> row list tres \<times> cd_state" where
  "cd_record env meta c r st =
     (case resolve_timestamp env (cd_ts_fields c) r of
        Inl (TransformError m) \<Rightarrow> (tbind (handle_bad_record c (cd_fields c) r r) (\<lambda>r'. Inr [r']), st)
      | Inl e \<Rightarrow> (Inl e, st)
      | Inr t_now \<Rightarrow>
          (case cd_loop env meta c t_now r (cd_fields c) False r st of
             (Inl e, st') \<Rightarrow> (Inl e, st')
           | (Inr (BadRecord r'), st') \<Rightarrow> (Inr [r'], st')
           | (Inr (GoodRecord first r'), st') \<Rightarrow> (Inr (if cd_first_drop c \<and> first then [] else [r']), st')))"

fun counter_delta_apply ::
  "clock_env \<Rightarrow> row \<Rightarrow> cd_cfg \<Rightarrow> row list \<Rightarrow> cd_state \<Rightarrow> row list tres \<times> cd_state" where
  "counter_delta_apply env meta c [] st = (Inr [], st)"
| "counter_delta_apply env meta c (r # rs) st =
     (case cd_record env meta c r st of
        (Inl e, st') \<Rightarrow> (Inl e, st')
      | (Inr out, st') \<Rightarrow>
          (case counter_delta_apply env meta c rs st' of
             (Inl e, st'') \<Rightarrow> (Inl e, st'')
           | (Inr outs, st'') \<Rightarrow> (Inr (out @ outs), st'')))"

section \<open>Deltas\<close>

lemma modulus_pos [simp]: "0 < modulus w"
  by (simp add: modulus_def)


text \<open>
A counter delta stays in the range of the counter and is right modulo its width: for two
samples of a \<open>w\<close>-bit counter the reported delta lies between 0 and the modulus, it is the
difference of the samples modulo the modulus unless the sample is reported as a reset, and then
it is the new value.
\<close>

theorem delta_bounded:
  assumes "0 \<le> prev" "prev < modulus w" "0 \<le> now" "now < modulus w" "delta_for c prev now w = (d, reset)"
  shows "0 \<le> d \<and> d < modulus w \<and> (if reset then d = now \<and> now < prev else d = (now - prev) mod modulus w)"
proof (cases "now \<ge> prev")
  case True
  then have "d = now - prev" "\<not> reset" using assms(5) by (simp_all add: delta_for_def)
  moreover have "(now - prev) mod modulus w = now - prev" using True assms by (intro mod_pos_pos_trivial) simp_all
  ultimately show ?thesis using True assms by simp
next
  case False
  have "(now - prev) mod modulus w = (now + modulus w - prev) mod modulus w"
    by (metis add_diff_eq diff_add_eq mod_add_self2 add.commute)
  also have "\<dots> = now + modulus w - prev" using False assms by (intro mod_pos_pos_trivial) simp_all
  finally show ?thesis using False assms by (auto simp: delta_for_def Let_def split: if_splits)
qed

definition demo_cd_cfg :: cd_cfg where
  "demo_cd_cfg = \<lparr>cd_fields = [''in''], cd_key_fields = [], cd_ts_fields = [''t''], cd_width = Some 32,
     cd_output = OutDelta, cd_keep_raw = True, cd_first_drop = False, cd_threshold = 1 / 2, cd_max_gap = None,
     cd_on_error = OnKeep\<rparr>"

theorem delta_bounded_witness:
  "delta_for demo_cd_cfg 4294967290 4 32 = (10, False) \<and> (10 :: int) = (4 - 4294967290) mod modulus 32"
proof -
  have d: "delta_for demo_cd_cfg 4294967290 4 32 = (10, False)" "(4294967290 :: int) < modulus 32" "(4 :: int) < modulus 32"
    by (simp_all add: delta_for_def demo_cd_cfg_def modulus_def)
  from delta_bounded [OF _ d(2) _ d(3,1)] d(1) show ?thesis by simp
qed

section \<open>A series of samples\<close>





definition demo_clock :: clock_env where
  "demo_clock = \<lparr>ce_show = (\<lambda>v. []), ce_iso = (\<lambda>s. None)\<rparr>"

definition demo_sample :: "int \<Rightarrow> int \<Rightarrow> row" where
  "demo_sample v t = [(''in'', VInt v), (''t'', VInt t)]"




text \<open>
A 64-bit counter that decreases is reported as a wrap whenever the corrected delta is within
the threshold, although a 64-bit decrease is documented to be a reset always: a device that
restarts with its counter in the upper half of the range yields a huge delta and no reset mark.
\<close>

theorem counter64_decrease_as_wrap:
  "(now < prev \<longrightarrow> snd (delta_for c prev now 64) = (of_int (now + 2 ^ 64 - prev) > cd_threshold c * 2 ^ 64)) \<and>
   delta_for demo_cd_cfg (2 ^ 64 - 2 ^ 62) 5 64 = (2 ^ 62 + 5, False)"
  by (simp add: delta_for_def modulus_def demo_cd_cfg_def Let_def)

theorem counter64_decrease_as_wrap_witness:
  "snd (delta_for demo_cd_cfg 7 5 64) \<and> \<not> snd (delta_for demo_cd_cfg (2 ^ 64 - 2 ^ 62) 5 64)"
proof -
  have "of_int (5 + 2 ^ 64 - 7) > cd_threshold demo_cd_cfg * 2 ^ 64" by (simp add: demo_cd_cfg_def)
  then show ?thesis using counter64_decrease_as_wrap [of 5 7 demo_cd_cfg] by simp
qed

section \<open>Losing an interval\<close>

text \<open>
Under \<open>on_error: keep\<close> a record whose second counter is unusable is emitted as it arrived, but
the sample of its first counter is stored: that counter's increment of the interval is never
reported. Three samples 10, 20, 30 of which the second lacks the other counter give the single
delta 10, not 20.
\<close>

theorem keep_loses_interval:
  "let c = demo_cd_cfg\<lparr>cd_fields := [''in'', ''out'']\<rparr>;
       rs = [demo_sample 10 0 @ [(''out'', VInt 0)], demo_sample 20 60, demo_sample 30 120 @ [(''out'', VInt 0)]]
   in case fst (counter_delta_apply demo_clock [] c rs []) of
        Inr outs \<Rightarrow>
          map (\<lambda>r. dget r ''in_delta'') outs = [Some VNone, None, Some (VInt 10)] \<and> outs ! 1 = demo_sample 20 60
      | Inl e \<Rightarrow> False"
  by code_simp

end
