(* ===== verification/Window_Aggregate.thy ===== *)
theory Window_Aggregate
  imports Counter_Delta "HOL-Library.List_Lexorder" "HOL-Library.Product_Lexorder" "HOL-Library.Char_ord"
begin

text \<open>
  \<open>tram/transforms/aggregate.py\<close> and \<open>tram/transforms/window_aggregate.py\<close>: batch aggregation, and
  tumbling windows with running accumulators, a watermark and a heap of the open windows. The
  heap is a sorted list: only its least element and its content are observable. Sums are exact.
\<close>

section \<open>Operations of an aggregation\<close>

datatype agg_op = OpSum | OpAvg | OpMin | OpMax | OpCount | OpFirst | OpLast

datatype op_spec = SpecText string | SpecDict string "string option" | SpecOther

definition lower_char :: "char \<Rightarrow> char" where
  "lower_char c = (if 65 \<le> (of_char c :: nat) \<and> (of_char c :: nat) \<le> 90 then char_of ((of_char c :: nat) + 32) else c)"

definition py_lower :: "string \<Rightarrow> string" where
  "py_lower s = map lower_char s"

definition op_of_name :: "string \<Rightarrow> agg_op option" where
  "op_of_name s =
     (if s = ''sum'' then Some OpSum else if s = ''avg'' then Some OpAvg else if s = ''min'' then Some OpMin
      else if s = ''max'' then Some OpMax else if s = ''count'' then Some OpCount
      else if s = ''first'' then Some OpFirst else if s = ''last'' then Some OpLast else None)"

text \<open>\<open>spec.split(':', 1)\<close>.\<close>

fun split_colon :: "string \<Rightarrow> (string \<times> string) option" where
  "split_colon [] = None"
| "split_colon (c # s) =
     (if c = CHR '':'' then Some ([], s) else map_option (\<lambda>(a, b). (c # a, b)) (split_colon s))"

definition parse_op :: "string \<Rightarrow> op_spec \<Rightarrow> (agg_op \<times> string) tres" where
  "parse_op out spec =
     (let bad = Inl (TransformError (''aggregate: invalid operation spec for '' @ out));
          parts = (case spec of
              SpecText s \<Rightarrow> (case split_colon s of Some p \<Rightarrow> Inr p | None \<Rightarrow> bad)
            | SpecDict op f \<Rightarrow> Inr (op, case f of Some x \<Rightarrow> x | None \<Rightarrow> out)
            | SpecOther \<Rightarrow> bad)
      in tbind parts (\<lambda>(op, f).
           case op_of_name (py_lower (py_strip op)) of
             None \<Rightarrow> Inl (TransformError (''aggregate: unsupported operation '' @ op))
           | Some oper \<Rightarrow> Inr (oper, py_strip f)))"

type_synonym agg_ops = "(string, agg_op \<times> string) dict"

definition parse_ops :: "(string, op_spec) dict \<Rightarrow> agg_ops tres" where
  "parse_ops raw =
     (if raw = [] then Inl (TransformError ''aggregate: operations dict is required'')
      else tfold (\<lambda>(out, spec) ops. tbind (parse_op out spec) (\<lambda>p. Inr (dset out p ops))) raw [])"

section \<open>aggregate\<close>

fun is_float :: "pval \<Rightarrow> bool" where
  "is_float (VFloat q) = True"
| "is_float _ = False"

definition num_val :: "pval \<Rightarrow> rat" where
  "num_val v = (case num_of v of Some q \<Rightarrow> q | None \<Rightarrow> 0)"

text \<open>\<open>sum\<close> of numbers is an int unless a float is among them.\<close>

definition py_sum :: "pval list \<Rightarrow> pval" where
  "py_sum vs =
     (let s = sum_list (map num_val vs) in if list_ex is_float vs then VFloat s else VInt \<lfloor>s\<rfloor>)"

definition lesser :: "pval \<Rightarrow> pval \<Rightarrow> pval" where
  "lesser v w = (if num_val w < num_val v then w else v)"

definition greater :: "pval \<Rightarrow> pval \<Rightarrow> pval" where
  "greater v w = (if num_val w > num_val v then w else v)"

definition agg_value :: "agg_op \<Rightarrow> pval list \<Rightarrow> pval" where
  "agg_value oper vs =
     (let nums = filter (\<lambda>v. num_of v \<noteq> None) vs
      in case oper of
           OpSum \<Rightarrow> if nums = [] then VNone else py_sum nums
         | OpAvg \<Rightarrow> if nums = [] then VNone else VFloat (sum_list (map num_val nums) / of_nat (length nums))
         | OpMin \<Rightarrow> (case nums of [] \<Rightarrow> VNone | v # ws \<Rightarrow> foldl lesser v ws)
         | OpMax \<Rightarrow> (case nums of [] \<Rightarrow> VNone | v # ws \<Rightarrow> foldl greater v ws)
         | OpCount \<Rightarrow> VInt (int (length (filter (\<lambda>v. v \<noteq> VNone) vs)))
         | OpFirst \<Rightarrow> (case vs of [] \<Rightarrow> VNone | v # ws \<Rightarrow> v)
         | OpLast \<Rightarrow> (if vs = [] then VNone else last vs))"

definition field_of :: "row \<Rightarrow> string \<Rightarrow> pval" where
  "field_of r f = (case dget r f of Some v \<Rightarrow> v | None \<Rightarrow> VNone)"

text \<open>The groups with their records, in the order of their first records.\<close>

fun group_add :: "pval list \<Rightarrow> row \<Rightarrow> (pval list \<times> row list) list \<Rightarrow> (pval list \<times> row list) list" where
  "group_add k r [] = [(k, [r])]"
| "group_add k r ((k', rs) # gs) = (if py_eq_list k' k then (k', rs @ [r]) # gs else (k', rs) # group_add k r gs)"

fun group_records :: "string list \<Rightarrow> row list \<Rightarrow> (pval list \<times> row list) list \<Rightarrow> (pval list \<times> row list) list tres" where
  "group_records by [] gs = Inr gs"
| "group_records by (r # rs) gs =
     (let k = dedup_key by r
      in if \<not> list_all hashable k then Inl (OtherError ''unhashable type'')
         else group_records by rs (group_add k r gs))"

definition aggregate_group :: "string list \<Rightarrow> agg_ops \<Rightarrow> pval list \<times> row list \<Rightarrow> row" where
  "aggregate_group by ops g =
     fold (\<lambda>(out, (oper, src)). dset out (agg_value oper (map (\<lambda>r. field_of r src) (snd g)))) ops
       (fold (\<lambda>(k, v). dset k v) (zip by (fst g)) [])"

definition aggregate_apply :: "string list \<Rightarrow> agg_ops \<Rightarrow> row list \<Rightarrow> row list tres" where
  "aggregate_apply by ops rs = tbind (group_records by rs []) (\<lambda>gs. Inr (map (aggregate_group by ops) gs))"

section \<open>Accumulators\<close>

datatype acc =
    AccValue pval bool
  | AccAvg rat nat
  | AccCount nat
  | AccLast pval

fun new_accumulator :: "agg_op \<Rightarrow> acc" where
  "new_accumulator OpAvg = AccAvg 0 0"
| "new_accumulator OpCount = AccCount 0"
| "new_accumulator OpLast = AccLast VNone"
| "new_accumulator _ = AccValue VNone False"

definition is_numeric :: "pval \<Rightarrow> bool" where
  "is_numeric v \<longleftrightarrow> (case v of VInt i \<Rightarrow> True | VFloat q \<Rightarrow> True | _ \<Rightarrow> False)"

fun update_accumulator :: "agg_op \<Rightarrow> pval \<Rightarrow> acc \<Rightarrow> acc" where
  "update_accumulator OpSum v (AccValue a s) =
     (if is_numeric v then AccValue (VFloat (num_val a + num_val v)) True else AccValue a s)"
| "update_accumulator OpAvg v (AccAvg s n) = (if is_numeric v then AccAvg (s + num_val v) (n + 1) else AccAvg s n)"
| "update_accumulator OpMin v (AccValue a s) =
     (if is_numeric v then AccValue (if s then lesser a v else v) True else AccValue a s)"
| "update_accumulator OpMax v (AccValue a s) =
     (if is_numeric v then AccValue (if s then greater a v else v) True else AccValue a s)"
| "update_accumulator OpCount v (AccCount n) = (if v \<noteq> VNone then AccCount (n + 1) else AccCount n)"
| "update_accumulator OpFirst v (AccValue a s) = (if \<not> s \<and> v \<noteq> VNone then AccValue v True else AccValue a s)"
| "update_accumulator OpLast v (AccLast a) = (if v \<noteq> VNone then AccLast v else AccLast a)"
| "update_accumulator oper v a = a"

fun emit_value :: "agg_op \<Rightarrow> acc \<Rightarrow> pval" where
  "emit_value OpSum (AccValue a s) = (if s then a else VNone)"
| "emit_value OpAvg (AccAvg s n) = (if n \<noteq> 0 then VFloat (s / of_nat n) else VNone)"
| "emit_value OpCount (AccCount n) = VInt (int n)"
| "emit_value oper (AccValue a s) = a"
| "emit_value oper (AccLast a) = a"
| "emit_value oper a = VNone"

section \<open>UTC dates\<close>

text \<open>The civil date of a day number since 1970-01-01, and \<open>strftime\<close> with two-digit fields.\<close>

definition civil :: "int \<Rightarrow> int \<times> int \<times> int" where
  "civil days =
     (let z = days + 719468; era = z div 146097; doe = z mod 146097;
          yoe = (doe - doe div 1460 + doe div 36524 - doe div 146096) div 365;
          doy = doe - (365 * yoe + yoe div 4 - yoe div 100);
          mp = (5 * doy + 2) div 153; m = (if mp < 10 then mp + 3 else mp - 9);
          y = yoe + era * 400 + (if m \<le> 2 then 1 else 0)
      in (y, m, doy - (153 * mp + 2) div 5 + 1))"

definition two_digits :: "int \<Rightarrow> string" where
  "two_digits n = (if n < 10 then CHR ''0'' # py_str n else py_str n)"

definition iso_utc :: "int \<Rightarrow> string" where
  "iso_utc s =
     (let (y, m, d) = civil (s div 86400); t = s mod 86400
      in py_str y @ ''-'' @ two_digits m @ ''-'' @ two_digits d @ ''T'' @ two_digits (t div 3600) @ '':'' @
         two_digits (t div 60 mod 60) @ '':'' @ two_digits (t mod 60) @ ''Z'')"

section \<open>window\_aggregate\<close>

record wa_cfg =
  wc_seconds :: int
  wc_lateness :: rat
  wc_ts_fields :: "string list"
  wc_group_by :: "string list"
  wc_operations :: agg_ops

definition window_aggregate_init :: "wa_cfg \<Rightarrow> wa_cfg tres" where
  "window_aggregate_init c =
     (if wc_seconds c \<le> 0 then Inl (TransformError ''window_aggregate: window_seconds must be > 0'')
      else if wc_lateness c < 0 then Inl (TransformError ''window_aggregate: allowed_lateness_seconds must be >= 0'')
      else if wc_ts_fields c = [] then Inl (TransformError ''window_aggregate: timestamp_field must not be empty'')
      else if wc_operations c = [] then Inl (TransformError ''window_aggregate: operations dict is required'')
      else Inr c)"

record window_entry =
  we_start :: int
  we_end :: int
  we_group :: "pval list"
  we_count :: nat
  we_acc :: "(string, acc) dict"

type_synonym windows = "(string, (int, window_entry) dict) dict"

record wa_state =
  wa_max_ts :: "rat option"
  wa_windows :: windows
  wa_heap :: "(int \<times> string) list"

definition wa_empty :: wa_state where
  "wa_empty = \<lparr>wa_max_ts = None, wa_windows = [], wa_heap = []\<rparr>"

definition open_pairs :: "windows \<Rightarrow> (int \<times> string) list" where
  "open_pairs ws = concat (map (\<lambda>(k, d). map (\<lambda>e. (e, k)) (dkeys d)) ws)"

definition rebuild_due_heap :: "wa_state \<Rightarrow> wa_state" where
  "rebuild_due_heap st = st\<lparr>wa_heap := sort (open_pairs (wa_windows st))\<rparr>"

definition wa_get_state :: "wa_state \<Rightarrow> rat option \<times> windows" where
  "wa_get_state st = (wa_max_ts st, wa_windows st)"

definition wa_set_state :: "rat option \<times> windows \<Rightarrow> wa_state" where
  "wa_set_state blob = rebuild_due_heap \<lparr>wa_max_ts = fst blob, wa_windows = snd blob, wa_heap = []\<rparr>"

definition wa_group_key :: "clock_env \<Rightarrow> wa_cfg \<Rightarrow> row \<Rightarrow> string \<times> pval list" where
  "wa_group_key env c r =
     (let vs = map (\<lambda>f. case get_path r f of Some v \<Rightarrow> v | None \<Rightarrow> VNone) (wc_group_by c)
      in (join_with id_sep (map (\<lambda>v. if v = VNone then [] else py_show (ce_show env) v) vs), vs))"

definition emit_window :: "wa_cfg \<Rightarrow> bool \<Rightarrow> window_entry \<Rightarrow> row" where
  "emit_window c whole e =
     (let groups = fold (\<lambda>(f, v). dset f v) (zip (wc_group_by c) (we_group e)) [];
          bounds = dset ''window_end'' (VStr (iso_utc (we_end e))) (dset ''window_start'' (VStr (iso_utc (we_start e))) groups);
          ops = fold (\<lambda>(out, (oper, src)). dset out
              (case dget (we_acc e) out of Some a \<Rightarrow> emit_value oper a | None \<Rightarrow> VNone)) (wc_operations c) bounds
      in dset ''window_complete'' (VBool whole) (dset ''sample_count'' (VInt (int (we_count e))) ops))"

text \<open>Remove a window, and its group with the last window.\<close>

definition drop_window :: "string \<Rightarrow> int \<Rightarrow> (int, window_entry) dict \<Rightarrow> windows \<Rightarrow> windows" where
  "drop_window k e d ws = (let d' = dpop e d in if d' = [] then dpop k ws else dset k d' ws)"

fun finalize_heap :: "rat \<Rightarrow> (int \<times> string) list \<Rightarrow> windows \<Rightarrow> window_entry list \<times> (int \<times> string) list \<times> windows" where
  "finalize_heap wm [] ws = ([], [], ws)"
| "finalize_heap wm ((e, k) # h) ws =
     (if \<not> of_int e \<le> wm then ([], (e, k) # h, ws)
      else
        (case dget ws k of
           None \<Rightarrow> finalize_heap wm h ws
         | Some d \<Rightarrow>
             (case dget d e of
                None \<Rightarrow> finalize_heap wm h ws
              | Some entry \<Rightarrow>
                  (case finalize_heap wm h (drop_window k e d ws) of
                     (es, h', ws') \<Rightarrow> (entry # es, h', ws')))))"

definition finalize_due_windows :: "wa_cfg \<Rightarrow> wa_state \<Rightarrow> window_entry list \<times> wa_state" where
  "finalize_due_windows c st =
     (case wa_max_ts st of
        None \<Rightarrow> ([], st)
      | Some m \<Rightarrow>
          (case finalize_heap (m - wc_lateness c) (wa_heap st) (wa_windows st) of
             (es, h, ws) \<Rightarrow> (es, st\<lparr>wa_heap := h, wa_windows := ws\<rparr>)))"

definition new_entry :: "wa_cfg \<Rightarrow> int \<Rightarrow> int \<Rightarrow> pval list \<Rightarrow> window_entry" where
  "new_entry c s e vs =
     \<lparr>we_start = s, we_end = e, we_group = vs, we_count = 0,
      we_acc = map (\<lambda>(out, (oper, src)). (out, new_accumulator oper)) (wc_operations c)\<rparr>"

definition fold_record :: "wa_cfg \<Rightarrow> row \<Rightarrow> window_entry \<Rightarrow> window_entry" where
  "fold_record c r e =
     e\<lparr>we_count := we_count e + 1,
       we_acc := fold (\<lambda>(out, (oper, src)) a. case dget a out of
           Some x \<Rightarrow> dset out (update_accumulator oper (case get_path r src of Some v \<Rightarrow> v | None \<Rightarrow> VNone) x) a
         | None \<Rightarrow> a) (wc_operations c) (we_acc e)\<rparr>"

text \<open>Put a record into its window, which is created on demand and entered in the heap.\<close>

definition add_to_window :: "clock_env \<Rightarrow> wa_cfg \<Rightarrow> int \<Rightarrow> int \<Rightarrow> row \<Rightarrow> wa_state \<Rightarrow> wa_state" where
  "add_to_window env c s e r st =
     (let (k, vs) = wa_group_key env c r;
          d = (case dget (wa_windows st) k of Some d \<Rightarrow> d | None \<Rightarrow> [])
      in case dget d e of
           Some entry \<Rightarrow> st\<lparr>wa_windows := dset k (dset e (fold_record c r entry) d) (wa_windows st)\<rparr>
         | None \<Rightarrow>
             st\<lparr>wa_windows := dset k (dset e (fold_record c r (new_entry c s e vs)) d) (wa_windows st),
                wa_heap := insort (e, k) (wa_heap st)\<rparr>)"

definition is_late :: "wa_cfg \<Rightarrow> int \<Rightarrow> wa_state \<Rightarrow> bool" where
  "is_late c e st = (case wa_max_ts st of Some m \<Rightarrow> of_int e \<le> m - wc_lateness c | None \<Rightarrow> False)"

definition window_start :: "wa_cfg \<Rightarrow> rat \<Rightarrow> int" where
  "window_start c ts = \<lfloor>ts / of_int (wc_seconds c)\<rfloor> * wc_seconds c"

text \<open>One record: the finalized windows and the new state.\<close>

definition wa_record :: "clock_env \<Rightarrow> wa_cfg \<Rightarrow> row \<Rightarrow> wa_state \<Rightarrow> window_entry list tres \<times> wa_state" where
  "wa_record env c r st =
     (case resolve_timestamp env (wc_ts_fields c) r of
        Inl e \<Rightarrow> (Inl e, st)
      | Inr ts \<Rightarrow>
          (let s = window_start c ts; e = s + wc_seconds c
           in if is_late c e st then (Inr [], st)
              else
                (let st1 = (if (case wa_max_ts st of None \<Rightarrow> True | Some m \<Rightarrow> ts > m) then st\<lparr>wa_max_ts := Some ts\<rparr> else st)
                 in case finalize_due_windows c st1 of
                      (es, st2) \<Rightarrow> (Inr es, add_to_window env c s e r st2))))"

fun wa_records :: "clock_env \<Rightarrow> wa_cfg \<Rightarrow> row list \<Rightarrow> wa_state \<Rightarrow> window_entry list tres \<times> wa_state" where
  "wa_records env c [] st = (Inr [], st)"
| "wa_records env c (r # rs) st =
     (case wa_record env c r st of
        (Inl x, st1) \<Rightarrow> (Inl x, st1)
      | (Inr es, st1) \<Rightarrow>
          (case wa_records env c rs st1 of
             (Inl x, st2) \<Rightarrow> (Inl x, st2)
           | (Inr fs, st2) \<Rightarrow> (Inr (es @ fs), st2)))"

definition window_aggregate_apply :: "clock_env \<Rightarrow> wa_cfg \<Rightarrow> row list \<Rightarrow> wa_state \<Rightarrow> row list tres \<times> wa_state" where
  "window_aggregate_apply env c rs st =
     (case wa_records env c rs st of
        (Inl x, st') \<Rightarrow> (Inl x, st')
      | (Inr es, st') \<Rightarrow> (Inr (map (emit_window c True) es), st'))"

text \<open>The open windows in the order in which a flush emits them.\<close>

definition open_entries :: "windows \<Rightarrow> window_entry list" where
  "open_entries ws =
     concat (map (\<lambda>(k, d). concat (map (\<lambda>e. case dget d e of Some x \<Rightarrow> [x] | None \<Rightarrow> []) (sort (dkeys d)))) ws)"

definition wa_close :: "wa_cfg \<Rightarrow> bool \<Rightarrow> wa_state \<Rightarrow> row list \<times> wa_state" where
  "wa_close c flush st =
     (if \<not> flush \<or> wa_windows st = [] then ([], st)
      else (map (emit_window c False) (open_entries (wa_windows st)), st\<lparr>wa_windows := [], wa_heap := []\<rparr>))"

lemma iso_utc_examples:
  "iso_utc 0 = ''1970-01-01T00:00:00Z''" "iso_utc 951782400 = ''2000-02-29T00:00:00Z''"
  "iso_utc 1700000100 = ''2023-11-14T22:15:00Z''"
  by code_simp+

end
