(* ===== verification/Window_Props.thy ===== *)
theory Window_Props
  imports Window_Aggregate "HOL-Library.Multiset"
begin

text \<open>
  Properties of the windows: the heap finalizes exactly the windows a scan would, every record is
  in exactly one window, no window is finalized twice, and the running accumulators agree with the
  batch aggregation.
\<close>

section \<open>Open windows as a multiset\<close>

definition triples :: "windows \<Rightarrow> (string \<times> int \<times> window_entry) list" where
  "triples ws = concat (map (\<lambda>(k, d). map (\<lambda>(e, x). (k, e, x)) d) ws)"

definition pair_of :: "string \<times> int \<times> window_entry \<Rightarrow> int \<times> string" where
  "pair_of t = (fst (snd t), fst t)"

definition wins_wf :: "windows \<Rightarrow> bool" where
  "wins_wf ws \<longleftrightarrow> dwf ws \<and> list_all (\<lambda>(k, d). dwf d \<and> d \<noteq> []) ws"

lemma open_pairs_triples: "open_pairs ws = map pair_of (triples ws)"
  by (induction ws) (auto simp: open_pairs_def triples_def pair_of_def dkeys_def)

lemma triples_simps [simp]:
  "triples [] = []" "triples ((k, d) # ws) = map (\<lambda>(e, x). (k, e, x)) d @ triples ws"
  by (simp_all add: triples_def)

lemma wins_wf_Cons: "wins_wf ((k, d) # ws) \<longleftrightarrow> k \<notin> set (dkeys ws) \<and> dwf d \<and> d \<noteq> [] \<and> wins_wf ws"
  by (auto simp: wins_wf_def)

lemma wins_wf_dwf: "wins_wf ws \<Longrightarrow> dwf ws"
  by (simp add: wins_wf_def)

lemma wins_wf_get: "wins_wf ws \<Longrightarrow> dget ws k = Some d \<Longrightarrow> dwf d \<and> d \<noteq> []"
  by (induction ws) (auto simp: wins_wf_Cons split: if_splits)

lemma mem_triples:
  assumes "wins_wf ws"
  shows "(k, e, x) \<in> set (triples ws) \<longleftrightarrow> (\<exists>d. dget ws k = Some d \<and> dget d e = Some x)"
proof -
  have "(k, e, x) \<in> set (triples ws) \<longleftrightarrow> (\<exists>d. (k, d) \<in> set ws \<and> (e, x) \<in> set d)"
    by (induction ws) auto
  also have "\<dots> \<longleftrightarrow> (\<exists>d. dget ws k = Some d \<and> dget d e = Some x)"
    using assms wins_wf_get [OF assms] dget_SomeD dget_mem
    by (metis wins_wf_def)
  finally show ?thesis .
qed

lemma mset_dpop: "dget d e = Some x \<Longrightarrow> mset d = add_mset (e, x) (mset (dpop e d))"
  by (induction d e rule: dget.induct) (auto split: if_splits)

lemma mset_dset_old: "dget d e = Some x \<Longrightarrow> mset (dset e y d) = add_mset (e, y) (mset (dpop e d))"
  by (induction d e rule: dget.induct) (auto split: if_splits)

lemma dset_new: "dget d e = None \<Longrightarrow> dset e y d = d @ [(e, y)]"
  by (induction d e rule: dget.induct) (auto split: if_splits)

lemma triples_append: "triples (xs @ ys) = triples xs @ triples ys"
  by (simp add: triples_def)

lemma triples_mset_cong: "mset xs = mset ys \<Longrightarrow> mset (triples xs) = mset (triples ys)"
proof -
  have "mset (triples ws) = (\<Sum>(k, d) \<in># mset ws. image_mset (\<lambda>(e, x). (k, e, x)) (mset d))" for ws
    by (induction ws) auto
  then show "mset xs = mset ys \<Longrightarrow> mset (triples xs) = mset (triples ys)" by simp
qed

text \<open>Replacing the windows of a group, and removing the group.\<close>

lemma triples_dpop:
  "dget ws k = Some d \<Longrightarrow> mset (triples ws) = image_mset (\<lambda>(e, x). (k, e, x)) (mset d) + mset (triples (dpop k ws))"
  using triples_mset_cong [of ws "(k, d) # dpop k ws"] mset_dpop [of ws k d] by simp

lemma triples_dset:
  "dget ws k = Some d \<Longrightarrow> mset (triples (dset k d' ws)) = image_mset (\<lambda>(e, x). (k, e, x)) (mset d') + mset (triples (dpop k ws))"
  using triples_mset_cong [of "dset k d' ws" "(k, d') # dpop k ws"] mset_dset_old [of ws k d d'] by simp

lemma triples_drop_window:
  assumes "dget ws k = Some d" "dget d e = Some x"
  shows "mset (triples ws) = add_mset (k, e, x) (mset (triples (drop_window k e d ws)))"
  using triples_dpop [OF assms(1)] triples_dset [OF assms(1)] mset_dpop [OF assms(2)]
  by (auto simp: drop_window_def Let_def)

lemma wins_wf_dset: "wins_wf ws \<Longrightarrow> dwf d \<Longrightarrow> d \<noteq> [] \<Longrightarrow> wins_wf (dset k d ws)"
  by (induction k d ws rule: dset.induct) (auto simp: wins_wf_Cons)

lemma wins_wf_dpop: "wins_wf ws \<Longrightarrow> wins_wf (dpop k ws)"
  by (induction k ws rule: dpop.induct) (auto simp: wins_wf_Cons set_dkeys_dpop dest: wins_wf_dwf)

lemma wins_wf_drop_window: "wins_wf ws \<Longrightarrow> dget ws k = Some d \<Longrightarrow> wins_wf (drop_window k e d ws)"
  using wins_wf_get [of ws k d] by (simp add: drop_window_def Let_def wins_wf_dset wins_wf_dpop)

lemma triples_put:
  assumes "d = (case dget ws k of Some d \<Rightarrow> d | None \<Rightarrow> [])"
  shows "mset (triples (dset k (dset e y d) ws)) =
    add_mset (k, e, y) (mset (triples ws) - (case dget d e of Some x \<Rightarrow> {#(k, e, x)#} | None \<Rightarrow> {#}))"
proof (cases "dget ws k")
  case None
  then show ?thesis using assms by (simp add: dset_new triples_append)
next
  case (Some d0)
  then have d: "d = d0" using assms by simp
  show ?thesis
  proof (cases "dget d e")
    case None
    then show ?thesis using triples_dpop [OF Some] triples_dset [OF Some, of "dset e y d"] d by (simp add: dset_new)
  next
    case (Some x)
    then show ?thesis
      using triples_dpop [OF \<open>dget ws k = Some d0\<close>] triples_dset [OF \<open>dget ws k = Some d0\<close>, of "dset e y d"] d
        mset_dpop [OF Some] mset_dset_old [OF Some, of y]
      by simp
  qed
qed

section \<open>Finalizing by the heap\<close>

definition due :: "rat \<Rightarrow> string \<times> int \<times> window_entry \<Rightarrow> bool" where
  "due wm t \<longleftrightarrow> of_int (fst (snd t)) \<le> wm"

definition entry_of :: "string \<times> int \<times> window_entry \<Rightarrow> window_entry" where
  "entry_of t = snd (snd t)"

lemma finalize_heap_spec:
  assumes "finalize_heap wm h ws = (es, h', ws')" "wins_wf ws" "sorted h" "mset h = mset (open_pairs ws)"
  shows "\<exists>ts. es = map entry_of ts \<and> sorted (map pair_of ts) \<and> list_all (due wm) ts \<and>
      mset (triples ws) = mset ts + mset (triples ws') \<and>
      list_all (\<lambda>t. \<not> due wm t) (triples ws') \<and> wins_wf ws' \<and> sorted h' \<and> mset h' = mset (open_pairs ws')"
  using assms
proof (induction wm h ws arbitrary: es h' ws' rule: finalize_heap.induct)
  case (1 wm ws)
  then show ?case by (auto simp: open_pairs_triples intro!: exI [of _ "[]"])
next
  case (2 wm e k h ws)
  show ?case
  proof (cases "of_int e \<le> wm")
    case False
    have "\<not> due wm t" if t: "t \<in> set (triples ws)" for t
    proof -
      have "pair_of t \<in># mset (open_pairs ws)" using t by (simp add: open_pairs_triples)
      then have "pair_of t \<in> set ((e, k) # h)" using "2.prems"(4) by (metis set_mset_mset)
      then have "(e, k) \<le> pair_of t" using "2.prems"(3) by auto
      then show ?thesis using False by (auto simp: due_def pair_of_def)
    qed
    then show ?thesis using False "2.prems" by (auto simp: list_all_iff intro!: exI [of _ "[]"])
  next
    case True
    have "(e, k) \<in># mset (open_pairs ws)" using "2.prems"(4) by (metis union_single_eq_member add_mset_add_single mset.simps(2))
    then obtain x where "(k, e, x) \<in> set (triples ws)" by (auto simp: open_pairs_triples pair_of_def)
    then obtain d where d: "dget ws k = Some d" "dget d e = Some x" using mem_triples [OF "2.prems"(2)] by blast
    let ?ws = "drop_window k e d ws"
    obtain fs where f: "finalize_heap wm h ?ws = (fs, h', ws')" "es = x # fs"
      using "2.prems"(1) True d by (auto split: prod.splits)
    have m: "mset (triples ws) = add_mset (k, e, x) (mset (triples ?ws))" by (rule triples_drop_window [OF d])
    have "mset (open_pairs ws) = add_mset (e, k) (mset (open_pairs ?ws))"
      using m by (simp add: open_pairs_triples pair_of_def)
    then have h: "mset h = mset (open_pairs ?ws)" using "2.prems"(4) by simp
    obtain ts where ts: "fs = map entry_of ts" "sorted (map pair_of ts)" "list_all (due wm) ts"
        "mset (triples ?ws) = mset ts + mset (triples ws')"
        "list_all (\<lambda>t. \<not> due wm t) (triples ws')" "wins_wf ws'" "sorted h'" "mset h' = mset (open_pairs ws')"
      using "2.IH"(3) [OF _ d f(1) wins_wf_drop_window [OF "2.prems"(2) d(1)] _ h] True "2.prems"(3) by auto
    have le: "(e, k) \<le> pair_of t" if "t \<in> set ts" for t
    proof -
      have "t \<in> set (triples ?ws)" using that ts(4) by (metis set_mset_mset union_iff)
      then have "pair_of t \<in> set h" using h by (metis open_pairs_triples image_eqI list.set_map set_mset_mset)
      then show ?thesis using "2.prems"(3) by simp
    qed
    have "sorted (map pair_of ((k, e, x) # ts))" using ts(2) le by (simp add: pair_of_def)
    moreover have "list_all (due wm) ((k, e, x) # ts)" using ts(3) True by (simp add: due_def)
    ultimately show ?thesis
      using ts(1,4-) m f(2) by (intro exI [of _ "(k, e, x) # ts"]) (simp add: entry_of_def)
  qed
qed

section \<open>The invariant\<close>

definition group_string :: "clock_env \<Rightarrow> pval list \<Rightarrow> string" where
  "group_string env vs = join_with id_sep (map (\<lambda>v. if v = VNone then [] else py_show (ce_show env) v) vs)"

definition labelled :: "clock_env \<Rightarrow> string \<times> int \<times> window_entry \<Rightarrow> bool" where
  "labelled env t \<longleftrightarrow> (case t of (k, e, x) \<Rightarrow> we_end x = e \<and> group_string env (we_group x) = k)"

definition wa_watermark :: "wa_cfg \<Rightarrow> wa_state \<Rightarrow> rat option" where
  "wa_watermark c st = map_option (\<lambda>m. m - wc_lateness c) (wa_max_ts st)"

definition books_ok :: "clock_env \<Rightarrow> wa_state \<Rightarrow> bool" where
  "books_ok env st \<longleftrightarrow> wins_wf (wa_windows st) \<and> sorted (wa_heap st) \<and>
     mset (wa_heap st) = mset (open_pairs (wa_windows st)) \<and> list_all (labelled env) (triples (wa_windows st))"

definition wa_inv :: "clock_env \<Rightarrow> wa_cfg \<Rightarrow> wa_state \<Rightarrow> bool" where
  "wa_inv env c st \<longleftrightarrow> books_ok env st \<and>
     (case wa_watermark c st of
        None \<Rightarrow> wa_windows st = []
      | Some wm \<Rightarrow> list_all (\<lambda>t. \<not> due wm t) (triples (wa_windows st)))"

definition win_get :: "windows \<Rightarrow> string \<Rightarrow> int \<Rightarrow> window_entry option" where
  "win_get ws k e = (case dget ws k of Some d \<Rightarrow> dget d e | None \<Rightarrow> None)"

lemma win_get_iff: "wins_wf ws \<Longrightarrow> win_get ws k e = Some x \<longleftrightarrow> (k, e, x) \<in> set (triples ws)"
  by (auto simp: win_get_def mem_triples split: option.split)

lemma wa_empty_inv: "wa_inv env c wa_empty"
  by (simp add: wa_inv_def books_ok_def wa_empty_def wa_watermark_def wins_wf_def open_pairs_def)

text \<open>Putting a record into its window.\<close>

lemma add_to_window_spec:
  assumes "books_ok env st" "st' = add_to_window env c s e r st" and kv: "wa_group_key env c r = (k, vs)"
    and g: "g = win_get (wa_windows st) k e"
  shows "books_ok env st'" "wa_max_ts st' = wa_max_ts st"
    and "mset (triples (wa_windows st')) =
      add_mset (k, e, fold_record c r (case g of Some x \<Rightarrow> x | None \<Rightarrow> new_entry c s e vs))
        (mset (triples (wa_windows st)) - (case g of Some x \<Rightarrow> {#(k, e, x)#} | None \<Rightarrow> {#}))"
    and "t \<in> set (triples (wa_windows st')) \<Longrightarrow> t \<in> set (triples (wa_windows st)) \<or> fst (snd t) = e"
proof -
  from kv have k: "group_string env vs = k" by (auto simp: wa_group_key_def group_string_def Let_def)
  let ?ws = "wa_windows st"
  define d where "d = (case dget ?ws k of Some d \<Rightarrow> d | None \<Rightarrow> [])"
  define x where "x = (case dget d e of Some x \<Rightarrow> x | None \<Rightarrow> new_entry c s e vs)"
  let ?y = "fold_record c r x"
  let ?old = "case dget d e of Some x \<Rightarrow> {#(k, e, x)#} | None \<Rightarrow> {#}"
  have B: "wins_wf ?ws" "sorted (wa_heap st)" "mset (wa_heap st) = mset (open_pairs ?ws)" "list_all (labelled env) (triples ?ws)"
    using assms(1) by (simp_all add: books_ok_def)
  have w: "wa_windows st' = dset k (dset e ?y d) ?ws" and m: "wa_max_ts st' = wa_max_ts st"
    and h: "wa_heap st' = (if dget d e = None then insort (e, k) (wa_heap st) else wa_heap st)"
    unfolding assms(2) add_to_window_def kv d_def [symmetric] x_def by (simp_all add: Let_def d_def split: option.split)
  show "wa_max_ts st' = wa_max_ts st" by (rule m)
  have T: "mset (triples (wa_windows st')) = add_mset (k, e, ?y) (mset (triples ?ws) - ?old)"
    unfolding w by (rule triples_put) (rule d_def)
  have old: "?old \<subseteq># mset (triples ?ws)"
  proof (cases "dget d e")
    case (Some z)
    then have "dget ?ws k = Some d" unfolding d_def by (cases "dget ?ws k") auto
    then have "(k, e, z) \<in> set (triples ?ws)" using mem_triples [OF B(1)] Some by blast
    then show ?thesis using Some by simp
  qed simp
  have dw: "dwf d" using wins_wf_get [OF B(1), of k] by (cases "dget ?ws k") (simp_all add: d_def)
  have "dset e ?y d \<noteq> []" by (cases d) (auto split: if_splits)
  then have W: "wins_wf (wa_windows st')" unfolding w using B(1) dw by (simp add: wins_wf_dset)
  have cnt: "we_end ?y = we_end x" "we_group ?y = we_group x"
    by (simp_all add: fold_record_def)
  have "g = dget d e" unfolding g win_get_def d_def by (simp split: option.split)
  then show "mset (triples (wa_windows st')) =
      add_mset (k, e, fold_record c r (case g of Some x \<Rightarrow> x | None \<Rightarrow> new_entry c s e vs))
        (mset (triples ?ws) - (case g of Some x \<Rightarrow> {#(k, e, x)#} | None \<Rightarrow> {#}))"
    using T unfolding x_def by simp
  have lx: "labelled env (k, e, ?y)"
  proof (cases "dget d e")
    case (Some z)
    then have "(k, e, z) \<in> set (triples ?ws)" using old by (simp add: insert_subset_eq_iff)
    then show ?thesis using B(4) Some cnt by (auto simp: labelled_def list_all_iff x_def)
  qed (use cnt k in \<open>simp add: labelled_def x_def new_entry_def\<close>)
  have sub: "set (triples (wa_windows st')) \<subseteq> insert (k, e, ?y) (set (triples ?ws))"
  proof
    fix u
    assume "u \<in> set (triples (wa_windows st'))"
    then have "u \<in># add_mset (k, e, ?y) (mset (triples ?ws) - ?old)" unfolding T [symmetric] by simp
    then show "u \<in> insert (k, e, ?y) (set (triples ?ws))" by (auto dest: in_diffD)
  qed
  show "t \<in> set (triples ?ws) \<or> fst (snd t) = e" if "t \<in> set (triples (wa_windows st'))" using that sub by auto
  have P: "mset (open_pairs (wa_windows st')) = add_mset (e, k) (mset (open_pairs ?ws) - image_mset pair_of ?old)"
    using T old by (simp add: open_pairs_triples image_mset_Diff pair_of_def)
  have "mset (wa_heap st') = mset (open_pairs (wa_windows st'))"
  proof (cases "dget d e")
    case None
    then show ?thesis using P h B(3) by simp
  next
    case (Some z)
    then have "(e, k) \<in># mset (open_pairs ?ws)" using old by (force simp: open_pairs_triples pair_of_def insert_subset_eq_iff)
    then show ?thesis using P h B(3) Some by (simp add: pair_of_def)
  qed
  then show "books_ok env st'"
    using W B(2,4) h lx sub by (auto simp: books_ok_def list_all_iff sorted_insort)
qed

text \<open>One record, finalization included.\<close>

lemma finalize_due_spec:
  assumes "finalize_due_windows c st = (es, st')" "books_ok env st" "wa_watermark c st = Some wm"
  shows "\<exists>ts. es = map entry_of ts \<and> sorted (map pair_of ts) \<and> list_all (due wm) ts \<and>
      mset (triples (wa_windows st)) = mset ts + mset (triples (wa_windows st')) \<and>
      list_all (\<lambda>t. \<not> due wm t) (triples (wa_windows st')) \<and> books_ok env st' \<and> wa_max_ts st' = wa_max_ts st"
proof -
  obtain m where m: "wa_max_ts st = Some m" "wm = m - wc_lateness c" using assms(3) by (auto simp: wa_watermark_def)
  obtain h ws where f: "finalize_heap wm (wa_heap st) (wa_windows st) = (es, h, ws)"
      "st' = st\<lparr>wa_heap := h, wa_windows := ws\<rparr>"
    using assms(1) m by (auto simp: finalize_due_windows_def split: prod.splits)
  have B: "wins_wf (wa_windows st)" "sorted (wa_heap st)" "mset (wa_heap st) = mset (open_pairs (wa_windows st))"
      "list_all (labelled env) (triples (wa_windows st))"
    using assms(2) by (simp_all add: books_ok_def)
  obtain ts where ts: "es = map entry_of ts" "sorted (map pair_of ts)" "list_all (due wm) ts"
      "mset (triples (wa_windows st)) = mset ts + mset (triples ws)"
      "list_all (\<lambda>t. \<not> due wm t) (triples ws)" "wins_wf ws" "sorted h" "mset h = mset (open_pairs ws)"
    using finalize_heap_spec [OF f(1) B(1-3)] by blast
  have "set (triples ws) \<subseteq> set (triples (wa_windows st))" using ts(4) by (metis set_mset_mset set_mset_union sup_ge2)
  then have "list_all (labelled env) (triples ws)" using B(4) by (auto simp: list_all_iff)
  then show ?thesis using ts f(2) by (intro exI [of _ ts]) (simp add: books_ok_def)
qed

lemma window_contains:
  assumes "0 < wc_seconds c"
  shows "of_int (window_start c ts) \<le> ts" "ts < of_int (window_start c ts + wc_seconds c)"
proof -
  let ?w = "of_int (wc_seconds c) :: rat"
  have w: "0 < ?w" using assms by simp
  have "of_int \<lfloor>ts / ?w\<rfloor> * ?w \<le> ts" "ts < (of_int \<lfloor>ts / ?w\<rfloor> + 1) * ?w"
    using pos_le_divide_eq [OF w, of "of_int \<lfloor>ts / ?w\<rfloor>" ts] pos_divide_less_eq [OF w, of ts "of_int \<lfloor>ts / ?w\<rfloor> + 1"]
      of_int_floor_le [of "ts / ?w"] floor_correct [of "ts / ?w"]
    by auto
  then show "of_int (window_start c ts) \<le> ts" "ts < of_int (window_start c ts + wc_seconds c)"
    by (simp_all add: window_start_def algebra_simps)
qed

section \<open>Streaming equals batch\<close>

text \<open>
  The reference: the records that are not late, each with its group and window, and one table
  without watermark, heap or finalization into which they are aggregated in order.
\<close>

type_synonym placed = "(string \<times> int) \<times> int \<times> pval list \<times> row"

fun admitted :: "clock_env \<Rightarrow> wa_cfg \<Rightarrow> rat option \<Rightarrow> row list \<Rightarrow> placed list" where
  "admitted env c m [] = []"
| "admitted env c m (r # rs) =
     (case resolve_timestamp env (wc_ts_fields c) r of
        Inl x \<Rightarrow> []
      | Inr ts \<Rightarrow>
          (let s = window_start c ts; e = s + wc_seconds c; (k, vs) = wa_group_key env c r
           in case m of
                None \<Rightarrow> ((k, e), s, vs, r) # admitted env c (Some ts) rs
              | Some mx \<Rightarrow>
                  if of_int e \<le> mx - wc_lateness c then admitted env c m rs
                  else ((k, e), s, vs, r) # admitted env c (Some (max mx ts)) rs))"

type_synonym batch_table = "(string \<times> int, window_entry) dict"

definition batch_add :: "wa_cfg \<Rightarrow> placed \<Rightarrow> batch_table \<Rightarrow> batch_table" where
  "batch_add c p b = (case p of (ke, s, vs, r) \<Rightarrow>
     dset ke (fold_record c r (case dget b ke of Some x \<Rightarrow> x | None \<Rightarrow> new_entry c s (snd ke) vs)) b)"

definition batch :: "wa_cfg \<Rightarrow> placed list \<Rightarrow> batch_table" where
  "batch c ps = fold (batch_add c) ps []"

definition flat :: "batch_table \<Rightarrow> (string \<times> int \<times> window_entry) list" where
  "flat b = map (\<lambda>(ke, x). (fst ke, snd ke, x)) b"

lemma flat_dset:
  "mset (flat (dset (k, e) y b)) =
     add_mset (k, e, y) (mset (flat b) - (case dget b (k, e) of Some x \<Rightarrow> {#(k, e, x)#} | None \<Rightarrow> {#}))"
proof (cases "dget b (k, e)")
  case None
  then show ?thesis by (simp add: flat_def dset_new)
next
  case (Some x)
  then show ?thesis using mset_dset_old [OF Some, of y] mset_dpop [OF Some] by (simp add: flat_def)
qed

lemma flat_get: "dwf b \<Longrightarrow> dget b (k, e) = Some x \<longleftrightarrow> (k, e, x) \<in> set (flat b)"
  using dget_SomeD [of b "(k, e)" x] dget_mem [of b "(k, e)" x] by (force simp: flat_def)

lemma dwf_batch_add [simp]: "dwf b \<Longrightarrow> dwf (batch_add c p b)"
  by (simp add: batch_add_def split: prod.split)

text \<open>The refinement relation: emitted and open windows are the table's, and the emitted ones are due.\<close>

definition streams :: "clock_env \<Rightarrow> wa_cfg \<Rightarrow> (string \<times> int \<times> window_entry) list \<Rightarrow> wa_state \<Rightarrow> batch_table \<Rightarrow> bool" where
  "streams env c ts st b \<longleftrightarrow> wa_inv env c st \<and> dwf b \<and> mset (flat b) = mset ts + mset (triples (wa_windows st)) \<and>
     (case wa_watermark c st of None \<Rightarrow> ts = [] | Some wm \<Rightarrow> list_all (due wm) ts)"

lemma streams_add:
  assumes "books_ok env st" "dwf b" "mset (flat b) = mset ts + mset (triples (wa_windows st))"
    and wm: "wa_watermark c st = Some wm" "wm < of_int e" "list_all (due wm) ts"
      "list_all (\<lambda>t. \<not> due wm t) (triples (wa_windows st))"
    and kv: "wa_group_key env c r = (k, vs)"
  shows "streams env c ts (add_to_window env c s e r st) (batch_add c ((k, e), s, vs, r) b)"
proof -
  define g where "g = win_get (wa_windows st) k e"
  define st' where "st' = add_to_window env c s e r st"
  note A = add_to_window_spec [OF assms(1) st'_def kv g_def]
  have W: "wins_wf (wa_windows st)" using assms(1) by (simp add: books_ok_def)
  have "(k, e, x) \<notin> set ts" for x using wm(2,3) by (force simp: list_all_iff due_def)
  then have "dget b (k, e) = Some x \<longleftrightarrow> g = Some x" for x
    unfolding flat_get [OF assms(2)] g_def win_get_iff [OF W] using assms(3) by (metis set_mset_mset union_iff)
  then have g: "dget b (k, e) = g" by (cases g; cases "dget b (k, e)") auto
  have le: "(case g of Some x \<Rightarrow> {#(k, e, x)#} | None \<Rightarrow> {#}) \<subseteq># mset (triples (wa_windows st))"
    using win_get_iff [OF W, of k e] by (simp add: g_def split: option.split)
  have "mset (flat (batch_add c ((k, e), s, vs, r) b)) = mset ts + mset (triples (wa_windows st'))"
    unfolding batch_add_def prod.case snd_conv flat_dset A(3) g assms(3) using subset_mset.add_diff_assoc [OF le] by simp
  moreover have "wa_watermark c st' = Some wm" using wm(1) A(2) by (simp add: wa_watermark_def)
  moreover have "\<not> due wm t" if "t \<in> set (triples (wa_windows st'))" for t
    using A(4) [OF that] wm(2,4) by (auto simp: list_all_iff due_def)
  ultimately show ?thesis
    using A(1) wm(3) assms(2) unfolding streams_def wa_inv_def st'_def [symmetric] by (simp add: list_all_iff)
qed

lemma streams_record:
  assumes S: "streams env c ts st b" and c: "0 < wc_seconds c" "0 \<le> wc_lateness c"
    and t: "resolve_timestamp env (wc_ts_fields c) r = Inr x"
  shows "\<exists>us st'. wa_record env c r st = (Inr (map entry_of us), st') \<and>
    streams env c (ts @ us) st' (fold (batch_add c) (admitted env c (wa_max_ts st) [r]) b) \<and>
    admitted env c (wa_max_ts st) (r # rs) = admitted env c (wa_max_ts st) [r] @ admitted env c (wa_max_ts st') rs"
proof -
  let ?s = "window_start c x" and ?e = "window_start c x + wc_seconds c"
  obtain k vs where kv: "wa_group_key env c r = (k, vs)" by (cases "wa_group_key env c r")
  show ?thesis
  proof (cases "is_late c ?e st")
    case True
    then have "wa_record env c r st = (Inr [], st)" using t by (simp add: wa_record_def Let_def)
    moreover have "admitted env c (wa_max_ts st) (r # qs) = admitted env c (wa_max_ts st) qs" for qs
      using True t kv by (auto simp: is_late_def split: option.splits)
    ultimately show ?thesis using S by (intro exI [of _ "[]"] exI [of _ st]) simp
  next
    case False
    define m where "m = (case wa_max_ts st of None \<Rightarrow> x | Some y \<Rightarrow> max y x)"
    define st1 where "st1 = st\<lparr>wa_max_ts := Some m\<rparr>"
    let ?wm = "m - wc_lateness c"
    have st1: "(if (case wa_max_ts st of None \<Rightarrow> True | Some y \<Rightarrow> x > y) then st\<lparr>wa_max_ts := Some x\<rparr> else st) = st1"
      by (cases "wa_max_ts st") (auto simp: st1_def m_def max_def)
    have w1: "wa_watermark c st1 = Some ?wm" by (simp add: wa_watermark_def st1_def)
    have mono: "due ?wm t" if "wa_watermark c st = Some wm" "due wm t" for wm t
      using that by (auto simp: wa_watermark_def due_def m_def)
    have e: "?wm < of_int ?e" using False window_contains(2) [OF c(1), of x] c(2)
      by (auto simp: is_late_def m_def max_def split: option.splits)
    have b1: "books_ok env st1" using S by (simp add: streams_def wa_inv_def books_ok_def st1_def)
    obtain es st2 where f: "finalize_due_windows c st1 = (es, st2)" by (cases "finalize_due_windows c st1")
    obtain us where us: "es = map entry_of us" "list_all (due ?wm) us"
        "mset (triples (wa_windows st1)) = mset us + mset (triples (wa_windows st2))"
        "list_all (\<lambda>t. \<not> due ?wm t) (triples (wa_windows st2))" "books_ok env st2" "wa_max_ts st2 = wa_max_ts st1"
      using finalize_due_spec [OF f b1 w1] by blast
    let ?st' = "add_to_window env c ?s ?e r st2"
    have "list_all (due ?wm) (ts @ us)"
      using S us(2) mono by (auto simp: streams_def list_all_iff split: option.splits)
    moreover have "mset (flat b) = mset (ts @ us) + mset (triples (wa_windows st2))"
      using S us(3) by (simp add: streams_def st1_def)
    moreover have "dwf b" using S by (simp add: streams_def)
    moreover have "wa_watermark c st2 = Some ?wm" using w1 us(6) by (simp add: wa_watermark_def)
    ultimately have S': "streams env c (ts @ us) ?st' (batch_add c ((k, ?e), ?s, vs, r) b)"
      using streams_add [OF us(5) _ _ _ e _ us(4) kv] by blast
    have A: "admitted env c (wa_max_ts st) (r # qs) = ((k, ?e), ?s, vs, r) # admitted env c (Some m) qs" for qs
      using False t kv by (auto simp: is_late_def m_def Let_def split: option.splits)
    have "wa_max_ts ?st' = Some m"
      using add_to_window_spec(2) [OF us(5) refl kv refl] us(6) by (simp add: st1_def)
    moreover have "wa_record env c r st = (Inr es, ?st')"
      using False t f by (simp add: wa_record_def Let_def st1)
    ultimately show ?thesis using S' us(1) A by (intro exI [of _ us] exI [of _ ?st']) simp
  qed
qed

definition timed :: "clock_env \<Rightarrow> wa_cfg \<Rightarrow> row \<Rightarrow> bool" where
  "timed env c r = (case resolve_timestamp env (wc_ts_fields c) r of Inr x \<Rightarrow> True | Inl e \<Rightarrow> False)"

lemma streams_records:
  assumes "streams env c ts st b" "0 < wc_seconds c" "0 \<le> wc_lateness c" "list_all (timed env c) rs"
  shows "\<exists>us st'. wa_records env c rs st = (Inr (map entry_of us), st') \<and>
    streams env c (ts @ us) st' (fold (batch_add c) (admitted env c (wa_max_ts st) rs) b) \<and>
    (\<forall>qs. admitted env c (wa_max_ts st) (rs @ qs) = admitted env c (wa_max_ts st) rs @ admitted env c (wa_max_ts st') qs)"
  using assms
proof (induction rs arbitrary: ts st b)
  case (Cons r rs)
  then obtain x where t: "resolve_timestamp env (wc_ts_fields c) r = Inr x" by (auto simp: timed_def split: sum.splits)
  note R = streams_record [OF Cons.prems(1-3) t]
  obtain us st1 where u: "wa_record env c r st = (Inr (map entry_of us), st1)"
      "streams env c (ts @ us) st1 (fold (batch_add c) (admitted env c (wa_max_ts st) [r]) b)"
    using R by blast
  have A: "admitted env c (wa_max_ts st) (r # qs) = admitted env c (wa_max_ts st) [r] @ admitted env c (wa_max_ts st1) qs" for qs
    using R [of qs] u(1) by auto
  obtain vs st2 where v: "wa_records env c rs st1 = (Inr (map entry_of vs), st2)"
      "streams env c ((ts @ us) @ vs) st2 (fold (batch_add c) (admitted env c (wa_max_ts st1) rs)
        (fold (batch_add c) (admitted env c (wa_max_ts st) [r]) b))"
      "\<forall>qs. admitted env c (wa_max_ts st1) (rs @ qs) = admitted env c (wa_max_ts st1) rs @ admitted env c (wa_max_ts st2) qs"
    using Cons.IH [OF u(2) Cons.prems(2,3)] Cons.prems(4) by auto
  have "wa_records env c (r # rs) st = (Inr (map entry_of (us @ vs)), st2)" using u(1) v(1) by simp
  moreover have "streams env c (ts @ us @ vs) st2 (fold (batch_add c) (admitted env c (wa_max_ts st) (r # rs)) b)"
    using v(2) unfolding A [of rs] fold_append by simp
  moreover have "admitted env c (wa_max_ts st) ((r # rs) @ qs) =
      admitted env c (wa_max_ts st) (r # rs) @ admitted env c (wa_max_ts st2) qs" for qs
    using v(3) A [of "rs @ qs"] A [of rs] by (simp del: admitted.simps)
  ultimately show ?case by blast
qed (auto intro!: exI [of _ "[]"])

text \<open>
  Chunks, with the state written out and loaded again after each; loading rebuilds the heap.
\<close>

fun wa_chunks :: "clock_env \<Rightarrow> wa_cfg \<Rightarrow> row list list \<Rightarrow> wa_state \<Rightarrow> window_entry list tres \<times> wa_state" where
  "wa_chunks env c [] st = (Inr [], st)"
| "wa_chunks env c (rs # css) st =
     (case wa_records env c rs st of
        (Inl x, st1) \<Rightarrow> (Inl x, st1)
      | (Inr es, st1) \<Rightarrow>
          (case wa_chunks env c css (wa_set_state (wa_get_state st1)) of
             (Inl x, st2) \<Rightarrow> (Inl x, st2)
           | (Inr fs, st2) \<Rightarrow> (Inr (es @ fs), st2)))"

lemma reload_id: "books_ok env st \<Longrightarrow> wa_set_state (wa_get_state st) = st"
  by (cases st) (simp add: books_ok_def wa_set_state_def wa_get_state_def rebuild_due_heap_def properties_for_sort)

lemma streams_chunks:
  assumes "streams env c ts st b" "0 < wc_seconds c" "0 \<le> wc_lateness c" "list_all (timed env c) (concat css)"
  shows "\<exists>us st'. wa_chunks env c css st = (Inr (map entry_of us), st') \<and>
    streams env c (ts @ us) st' (fold (batch_add c) (admitted env c (wa_max_ts st) (concat css)) b)"
  using assms
proof (induction css arbitrary: ts st b)
  case (Cons rs css)
  obtain us st1 where u: "wa_records env c rs st = (Inr (map entry_of us), st1)"
      "streams env c (ts @ us) st1 (fold (batch_add c) (admitted env c (wa_max_ts st) rs) b)"
      "\<forall>qs. admitted env c (wa_max_ts st) (rs @ qs) = admitted env c (wa_max_ts st) rs @ admitted env c (wa_max_ts st1) qs"
    using streams_records [OF Cons.prems(1-3), of rs] Cons.prems(4) by auto
  have "wa_set_state (wa_get_state st1) = st1" using u(2) by (auto simp: streams_def wa_inv_def intro: reload_id)
  moreover obtain vs st2 where "wa_chunks env c css st1 = (Inr (map entry_of vs), st2)"
      "streams env c ((ts @ us) @ vs) st2 (fold (batch_add c) (admitted env c (wa_max_ts st1) (concat css))
        (fold (batch_add c) (admitted env c (wa_max_ts st) rs) b))"
    using Cons.IH [OF u(2) Cons.prems(2,3)] Cons.prems(4) by auto
  ultimately show ?case using u(1,3) by (intro exI [of _ "us @ vs"] exI [of _ st2]) simp
qed (auto intro!: exI [of _ "[]"])

lemma streams_empty: "streams env c [] wa_empty []"
  using wa_empty_inv [of env c] by (simp add: streams_def flat_def wa_empty_def wa_watermark_def)

lemma mset_concat_map: "mset xs = mset ys \<Longrightarrow> mset (concat (map f xs)) = mset (concat (map f ys))"
proof -
  have "mset (concat (map f zs)) = (\<Sum>z \<in># mset zs. mset (f z))" for zs by (induction zs) simp_all
  then show "mset xs = mset ys \<Longrightarrow> mset (concat (map f xs)) = mset (concat (map f ys))" by simp
qed

lemma mset_open_entries:
  assumes "wins_wf ws"
  shows "mset (open_entries ws) = image_mset entry_of (mset (triples ws))"
proof -
  have one: "mset (concat (map (\<lambda>e. case dget d e of Some x \<Rightarrow> [x] | None \<Rightarrow> []) (sort (dkeys d)))) = mset (map snd d)"
    if "dwf d" for d :: "(int, window_entry) dict"
  proof -
    let ?f = "\<lambda>e. case dget d e of Some x \<Rightarrow> [x] | None \<Rightarrow> []"
    have "mset (concat (map ?f (sort (dkeys d)))) = mset (concat (map ?f (dkeys d)))"
      by (rule mset_concat_map) simp
    also have "map ?f (dkeys d) = map (\<lambda>p. [snd p]) d"
      using dget_mem [OF that] by (auto simp: dkeys_def)
    finally show ?thesis by simp
  qed
  from assms show ?thesis
  proof (induction ws)
    case (Cons p ws)
    then show ?case using one
      by (cases p) (simp add: open_entries_def wins_wf_Cons entry_of_def case_prod_unfold image_mset.compositionality comp_def)
  qed (simp add: open_entries_def)
qed

lemma init_bounds:
  assumes "window_aggregate_init c = Inr c'"
  shows "0 < wc_seconds c" "0 \<le> wc_lateness c"
  using assms by (auto simp: window_aggregate_init_def split: if_splits)

definition window_id :: "clock_env \<Rightarrow> window_entry \<Rightarrow> string \<times> int" where
  "window_id env x = (group_string env (we_group x), we_end x)"

lemma batch_add_labelled:
  assumes "group_string env vs = k" "list_all (labelled env) (flat b)"
  shows "list_all (labelled env) (flat (batch_add c ((k, e), s, vs, r) b))"
proof -
  let ?x = "case dget b (k, e) of Some x \<Rightarrow> x | None \<Rightarrow> new_entry c s e vs"
  have "labelled env (k, e, ?x)"
  proof (cases "dget b (k, e)")
    case (Some x)
    then have "(k, e, x) \<in> set (flat b)" using dget_SomeD [OF Some] by (force simp: flat_def)
    then show ?thesis using assms(2) Some by (simp add: list_all_iff)
  qed (use assms(1) in \<open>simp add: labelled_def new_entry_def\<close>)
  then have y: "labelled env (k, e, fold_record c r ?x)" by (simp add: labelled_def fold_record_def)
  have "set (flat (batch_add c ((k, e), s, vs, r) b)) \<subseteq> insert (k, e, fold_record c r ?x) (set (flat b))"
    unfolding batch_add_def prod.case snd_conv set_mset_mset [symmetric] flat_dset
    by (auto dest: in_diffD)
  then show ?thesis using y assms(2) by (auto simp: list_all_iff)
qed

lemma batch_labelled: "list_all (labelled env) (flat b) \<Longrightarrow> list_all (labelled env) (flat (fold (batch_add c) (admitted env c m rs) b))"
proof (induction env c m rs arbitrary: b rule: admitted.induct)
  case (2 env c m r rs)
  obtain k vs where kv: "wa_group_key env c r = (k, vs)" by (cases "wa_group_key env c r")
  then have k: "group_string env vs = k" by (auto simp: wa_group_key_def group_string_def Let_def)
  show ?case
  proof (cases "resolve_timestamp env (wc_ts_fields c) r")
    case (Inr x)
    note IH = "2.IH" [OF Inr refl refl kv [symmetric] refl]
    then show ?thesis
      using Inr kv "2.prems" batch_add_labelled [OF k "2.prems"] by (auto simp: Let_def split: option.split)
  qed (use "2.prems" in simp)
qed simp

lemma batch_ids:
  assumes "b = batch c (admitted env c m rs)"
  shows "map (window_id env) (map snd b) = dkeys b"
proof -
  have "list_all (labelled env) (flat b)" unfolding assms batch_def by (rule batch_labelled) (simp add: flat_def)
  then show ?thesis by (auto simp: flat_def dkeys_def window_id_def labelled_def list_all_iff)
qed

text \<open>
  C32. The windows computed record by record, over chunks between which the state is saved and
  loaded again, with a heap, a watermark and windows that are finalized and dropped on the way, are
  the windows of a plain table into which all admitted records are aggregated: what was emitted and
  what is still open is that table, and no window of a group occurs twice.
\<close>

theorem windows_equal_batch:
  assumes "window_aggregate_init c = Inr c" and timed: "list_all (timed env c) (concat css)"
    and b: "b = batch c (admitted env c None (concat css))"
  shows "\<exists>es st. wa_chunks env c css wa_empty = (Inr es, st) \<and>
    mset es + mset (open_entries (wa_windows st)) = mset (map snd b) \<and>
    distinct (map (window_id env) (es @ open_entries (wa_windows st)))"
proof -
  obtain us st where r: "wa_chunks env c css wa_empty = (Inr (map entry_of us), st)" "streams env c us st b"
    using streams_chunks [OF streams_empty init_bounds [OF assms(1)] timed] b by (auto simp: batch_def wa_empty_def)
  have "wins_wf (wa_windows st)" "dwf b" "mset (flat b) = mset us + mset (triples (wa_windows st))"
    using r(2) by (simp_all add: streams_def wa_inv_def books_ok_def)
  then have M: "mset (map entry_of us) + mset (open_entries (wa_windows st)) = image_mset entry_of (mset (flat b))"
    by (simp add: mset_open_entries)
  also have "\<dots> = mset (map snd b)" by (simp add: flat_def entry_of_def comp_def case_prod_unfold flip: mset_map)
  finally have M: "mset (map entry_of us) + mset (open_entries (wa_windows st)) = mset (map snd b)" .
  then have "mset (map (window_id env) (map entry_of us @ open_entries (wa_windows st))) = mset (dkeys b)"
    unfolding batch_ids [OF b, symmetric] mset_map mset_append by (simp flip: mset_map)
  then have "distinct (map (window_id env) (map entry_of us @ open_entries (wa_windows st)))"
    using \<open>dwf b\<close> by (metis dwf_def mset_eq_imp_distinct_iff)
  then show ?thesis using r(1) M by blast
qed

section \<open>Running accumulators and batch aggregation\<close>






lemma py_sum_not_none [simp]: "py_sum vs \<noteq> VNone"
  by (simp add: py_sum_def Let_def)













definition window_of :: "wa_cfg \<Rightarrow> int \<Rightarrow> int \<Rightarrow> pval list \<Rightarrow> row list \<Rightarrow> window_entry" where
  "window_of c s e vs rs = fold (fold_record c) rs (new_entry c s e vs)"





lemma batch_get:
  "dget (batch c ps) ke = (case filter (\<lambda>p. fst p = ke) ps of
      [] \<Rightarrow> None
    | (_, s, vs, r) # qs \<Rightarrow> Some (window_of c s (snd ke) vs (r # map (\<lambda>(_, _, _, r). r) qs)))"
proof (induction ps rule: rev_induct)
  case (snoc p ps)
  obtain k s vs r where p: "p = (k, s, vs, r)" by (cases p) auto
  have b: "batch c (ps @ [p]) = batch_add c p (batch c ps)" by (simp add: batch_def)
  show ?case
  proof (cases "k = ke")
    case True
    then show ?thesis using snoc p unfolding b
      by (auto simp: batch_add_def window_of_def split: list.splits)
  next
    case False
    then show ?thesis using snoc p unfolding b by (simp add: batch_add_def)
  qed
qed (simp add: batch_def)



lemma filter_parts:
  assumes "\<And>t. t \<in># A \<Longrightarrow> P t" "\<And>t. t \<in># B \<Longrightarrow> \<not> P t"
  shows "filter_mset P (A + B) = A" "filter_mset (\<lambda>t. \<not> P t) (A + B) = B"
proof -
  have "filter_mset P A = A" "filter_mset (\<lambda>t. \<not> P t) A = {#}" using assms(1) by (induction A; auto)+
  moreover have "filter_mset P B = {#}" "filter_mset (\<lambda>t. \<not> P t) B = B" using assms(2) by (induction B; auto)+
  ultimately show "filter_mset P (A + B) = A" "filter_mset (\<lambda>t. \<not> P t) (A + B) = B" by simp_all
qed

text \<open>
  Finalization pops windows off a heap as long as the earliest end is below the watermark.
  In every state the transform reaches, this emits exactly the windows that a scan of all open
  windows finds due, in the order of their ends, and leaves exactly the others open.
\<close>

theorem heap_finalizes_like_scan:
  assumes "window_aggregate_init c = Inr c" "list_all (timed env c) (concat css)"
    and st: "wa_chunks env c css wa_empty = (Inr fs, st)"
    and f: "finalize_due_windows c (st\<lparr>wa_max_ts := Some m\<rparr>) = (es, st')"
    and wm: "wm = m - wc_lateness c"
  shows "mset es = mset (filter (\<lambda>x. of_int (we_end x) \<le> wm) (open_entries (wa_windows st))) \<and>
    mset (open_entries (wa_windows st')) = mset (filter (\<lambda>x. \<not> of_int (we_end x) \<le> wm) (open_entries (wa_windows st))) \<and>
    sorted (map we_end es)"
proof -
  let ?st = "st\<lparr>wa_max_ts := Some m\<rparr>"
  have B: "books_ok env ?st"
    using streams_chunks [OF streams_empty init_bounds [OF assms(1)] assms(2)] st
    by (auto simp: streams_def wa_inv_def books_ok_def)
  have "wa_watermark c ?st = Some wm" by (simp add: wa_watermark_def wm)
  then obtain ts where ts: "es = map entry_of ts" "sorted (map pair_of ts)" "list_all (due wm) ts"
      "mset (triples (wa_windows st)) = mset ts + mset (triples (wa_windows st'))"
      "list_all (\<lambda>t. \<not> due wm t) (triples (wa_windows st'))" "books_ok env st'"
    using finalize_due_spec [OF f B] by auto
  have L: "of_int (we_end (entry_of t)) \<le> wm \<longleftrightarrow> due wm t" "we_end (entry_of t) = fst (pair_of t)"
    if "t \<in># mset (triples (wa_windows st))" for t
    using B that by (auto simp: books_ok_def list_all_iff labelled_def entry_of_def due_def pair_of_def)
  have W: "wins_wf (wa_windows st)" "wins_wf (wa_windows st')" using B ts(6) by (simp_all add: books_ok_def)
  have "of_int (we_end (entry_of t)) \<le> wm" if "t \<in># mset ts" for t
    using that ts(3) L(1) [of t] ts(4) by (auto simp: list_all_iff)
  moreover have "\<not> of_int (we_end (entry_of t)) \<le> wm" if "t \<in># mset (triples (wa_windows st'))" for t
    using that ts(5) L(1) [of t] ts(4) by (auto simp: list_all_iff)
  ultimately have "filter_mset (\<lambda>t. of_int (we_end (entry_of t)) \<le> wm) (mset (triples (wa_windows st))) = mset ts"
    "filter_mset (\<lambda>t. \<not> of_int (we_end (entry_of t)) \<le> wm) (mset (triples (wa_windows st))) = mset (triples (wa_windows st'))"
    unfolding ts(4) by (rule filter_parts; simp)+
  then have M: "mset es = mset (filter (\<lambda>x. of_int (we_end x) \<le> wm) (open_entries (wa_windows st)))"
    "mset (open_entries (wa_windows st')) = mset (filter (\<lambda>x. \<not> of_int (we_end x) \<le> wm) (open_entries (wa_windows st)))"
    using W by (simp_all add: ts(1) mset_open_entries filter_mset_image_mset)
  have "map we_end es = map fst (map pair_of ts)"
    using L(2) ts(4) by (auto simp: ts(1))
  moreover have "sorted (map fst ps)" if "sorted ps" for ps :: "(int \<times> string) list"
    using that by (induction ps) (auto simp: less_eq_prod_def)
  ultimately have "sorted (map we_end es)" using ts(2) by (simp del: map_map)
  then show ?thesis using M by blast
qed

section \<open>Concrete runs\<close>

definition demo_wa_cfg :: wa_cfg where
  "demo_wa_cfg = \<lparr>wc_seconds = 60, wc_lateness = 0, wc_ts_fields = [''t''], wc_group_by = [],
     wc_operations = [(''total'', (OpSum, ''in''))]\<rparr>"

text \<open>
  A record without a usable timestamp makes the whole call fail, after windows may have been
  finalized: they are no longer in the state, which is kept, and were never emitted. Here the
  window of the first minute is lost: the call raises, and neither a later record nor the flush at
  the end reports its sample.
\<close>

theorem bad_record_loses_windows:
  "let rs = [demo_sample 5 10, demo_sample 7 70, [(''in'', VInt 1)]];
       st = snd (window_aggregate_apply demo_clock demo_wa_cfg rs wa_empty)
   in fst (window_aggregate_apply demo_clock demo_wa_cfg rs wa_empty) = Inl (TransformError ''no parseable timestamp'') \<and>
     map (\<lambda>r. dget r ''total'') (fst (wa_close demo_wa_cfg True st)) = [Some (VFloat 7)] \<and>
     fst (window_aggregate_apply demo_clock demo_wa_cfg [demo_sample 5 10] st) = Inr []"
  by code_simp

text \<open>The comments on the accumulators claim parity with the batch aggregation, which differs on booleans and missing values.\<close>

theorem aggregate_parity_fails:
  "emit_value OpSum (fold (update_accumulator OpSum) [VBool True, VInt 1] (new_accumulator OpSum)) = VFloat 1"
  "agg_value OpSum [VBool True, VInt 1] = VInt 2"
  "emit_value OpLast (fold (update_accumulator OpLast) [VInt 1, VNone] (new_accumulator OpLast)) = VInt 1"
  "agg_value OpLast [VInt 1, VNone] = VNone"
  by code_simp+

theorem windows_equal_batch_witness:
  "\<exists>es st. wa_chunks demo_clock demo_wa_cfg [[demo_sample 5 10], [demo_sample 7 70, demo_sample 6 20]] wa_empty = (Inr es, st) \<and>
    mset es + mset (open_entries (wa_windows st)) =
      mset (map snd (batch demo_wa_cfg (admitted demo_clock demo_wa_cfg None [demo_sample 5 10, demo_sample 7 70, demo_sample 6 20]))) \<and>
    distinct (map (window_id demo_clock) (es @ open_entries (wa_windows st)))"
proof -
  have c: "window_aggregate_init demo_wa_cfg = Inr demo_wa_cfg"
    by (simp add: window_aggregate_init_def demo_wa_cfg_def)
  have t: "list_all (timed demo_clock demo_wa_cfg) (concat [[demo_sample 5 10], [demo_sample 7 70, demo_sample 6 20]])"
    by code_simp
  show ?thesis using windows_equal_batch [OF c t refl] by simp
qed


theorem heap_finalizes_like_scan_witness:
  "let (es, st') = finalize_due_windows demo_wa_cfg
         ((snd (wa_chunks demo_clock demo_wa_cfg [[demo_sample 5 10], [demo_sample 7 70]] wa_empty))\<lparr>wa_max_ts := Some 130\<rparr>)
   in sorted (map we_end es) \<and> map we_end es = [120]"
proof -
  let ?run = "wa_chunks demo_clock demo_wa_cfg [[demo_sample 5 10], [demo_sample 7 70]] wa_empty"
  have c: "window_aggregate_init demo_wa_cfg = Inr demo_wa_cfg"
    by (simp add: window_aggregate_init_def demo_wa_cfg_def)
  have t: "list_all (timed demo_clock demo_wa_cfg) (concat [[demo_sample 5 10], [demo_sample 7 70]])" by code_simp
  have r: "case fst ?run of Inr fs \<Rightarrow> True | Inl x \<Rightarrow> False" by code_simp
  obtain fs st where st: "?run = (Inr fs, st)" using r by (cases ?run) (auto split: sum.splits)
  obtain es st' where f: "finalize_due_windows demo_wa_cfg (st\<lparr>wa_max_ts := Some 130\<rparr>) = (es, st')"
    by (cases "finalize_due_windows demo_wa_cfg (st\<lparr>wa_max_ts := Some 130\<rparr>)")
  have "map we_end (fst (finalize_due_windows demo_wa_cfg ((snd ?run)\<lparr>wa_max_ts := Some 130\<rparr>))) = [120]" by code_simp
  then show ?thesis using heap_finalizes_like_scan [OF c t st f refl] f st by simp
qed

end
