(* ===== verification/Framing.thy ===== *)
theory Framing
  imports Records "HOL-Library.Word"
begin

text \<open>
  Splitting byte strings into records: the BER splitter of \<open>tram/serializers/asn1_serializer.py\<close>,
  the length-prefixed frames of \<open>tram/serializers/protobuf_serializer.py\<close> and the five-byte schema
  header of \<open>tram/schema_registry/client.py\<close>. The loops of the splitter that advance by parsed
  lengths are partial functions, so that their termination is a theorem; positions are offsets into
  the whole payload as in the source.
\<close>

unbundle bit_operations_syntax

type_synonym byte = "8 word"

datatype serror = SerializerError string | ValueError string | StructError string

type_synonym 'a sres = "serror + 'a"

definition from_be :: "byte list \<Rightarrow> nat" where
  "from_be bs = foldl (\<lambda>n b. n * 256 + unat b) 0 bs"

section \<open>BER tags and lengths\<close>

function tag_loop :: "byte list \<Rightarrow> nat \<Rightarrow> nat \<Rightarrow> (nat \<times> nat) sres" where
  "tag_loop data pos n =
     (if length data \<le> pos then Inl (SerializerError ''unexpected EOF in long-form tag'')
      else
        (let b = data ! pos; n' = push_bit 7 n OR unat (b AND 0x7F)
         in if b AND 0x80 = 0 then Inr (pos + 1, n') else tag_loop data (pos + 1) n'))"
  by pat_completeness auto

termination
  by (relation "measure (\<lambda>(data, pos, n). length data - pos)") auto

declare tag_loop.simps [simp del]

definition parse_tag :: "byte list \<Rightarrow> nat \<Rightarrow> (nat \<times> nat) sres" where
  "parse_tag data offset =
     (if length data \<le> offset then Inl (SerializerError ''unexpected EOF while reading tag'')
      else
        (let n = unat (data ! offset AND 0x1F)
         in if n = 0x1F then tag_loop data (offset + 1) 0 else Inr (offset + 1, n)))"

text \<open>A length; the indefinite form has none.\<close>

definition parse_length :: "byte list \<Rightarrow> nat \<Rightarrow> (nat \<times> nat option) sres" where
  "parse_length data offset =
     (if length data \<le> offset then Inl (SerializerError ''unexpected EOF while reading length'')
      else
        (let first = data ! offset
         in if first < 0x80 then Inr (offset + 1, Some (unat first))
            else if first = 0x80 then Inr (offset + 1, None)
            else
              (let k = unat (first AND 0x7F); e = offset + 1 + k
               in if k = 0 then Inl (SerializerError ''invalid BER length with 0 length bytes'')
                  else if length data < e then Inl (SerializerError ''unexpected EOF in long-form length'')
                  else Inr (e, Some (from_be (take k (drop (offset + 1) data)))))))"

section \<open>Records\<close>

partial_function (option) find_indefinite_end :: "byte list \<Rightarrow> nat \<Rightarrow> nat sres option" where
  "find_indefinite_end data pos =
     (if \<not> pos < length data then Some (Inl (SerializerError ''missing end-of-contents marker''))
      else if pos + 1 < length data \<and> data ! pos = 0 \<and> data ! (pos + 1) = 0 then Some (Inr (pos + 2))
      else
        (case parse_tag data pos of
           Inl e \<Rightarrow> Some (Inl e)
         | Inr (tag_end, _) \<Rightarrow>
             (case parse_length data tag_end of
                Inl e \<Rightarrow> Some (Inl e)
              | Inr (len_end, Some n) \<Rightarrow> find_indefinite_end data (len_end + n)
              | Inr (len_end, None) \<Rightarrow>
                  Option.bind (find_indefinite_end data len_end)
                    (\<lambda>r. case r of Inl e \<Rightarrow> Some (Inl e) | Inr p \<Rightarrow> find_indefinite_end data p))))"

text \<open>The end of the record that starts at an offset.\<close>

definition record_end :: "byte list \<Rightarrow> nat \<Rightarrow> nat sres option" where
  "record_end data offset =
     (case parse_tag data offset of
        Inl e \<Rightarrow> Some (Inl e)
      | Inr (tag_end, _) \<Rightarrow>
          (case parse_length data tag_end of
             Inl e \<Rightarrow> Some (Inl e)
           | Inr (len_end, None) \<Rightarrow> find_indefinite_end data len_end
           | Inr (len_end, Some n) \<Rightarrow> Some (Inr (len_end + n))))"

text \<open>The generator: the records it yields, and the error that ends it.\<close>

partial_function (option) iter_ber_records :: "byte list \<Rightarrow> nat \<Rightarrow> (byte list list \<times> serror option) option" where
  "iter_ber_records data offset =
     (if \<not> offset < length data then Some ([], None)
      else
        Option.bind (record_end data offset)
          (\<lambda>r. case r of
             Inl e \<Rightarrow> Some ([], Some e)
           | Inr e \<Rightarrow>
               if length data < e then Some ([], Some (SerializerError ''record extends past end of payload''))
               else
                 Option.bind (iter_ber_records data e)
                   (\<lambda>(rs, err). Some (take (e - offset) (drop offset data) # rs, err))))"

definition split_ber_records :: "byte list \<Rightarrow> byte list list sres option" where
  "split_ber_records data =
     map_option (\<lambda>(rs, err). case err of None \<Rightarrow> Inr rs | Some e \<Rightarrow> Inl e) (iter_ber_records data 0)"

section \<open>Length-prefixed frames\<close>

definition pack_u32 :: "nat \<Rightarrow> byte list sres" where
  "pack_u32 n =
     (if n < 2 ^ 32
      then Inr [of_nat (n div 2 ^ 24), of_nat (n div 2 ^ 16 mod 256), of_nat (n div 2 ^ 8 mod 256), of_nat (n mod 256)]
      else Inl (StructError ''argument out of range''))"

function frames :: "byte list \<Rightarrow> nat \<Rightarrow> byte list list sres" where
  "frames data offset =
     (if \<not> offset < length data then Inr []
      else if length data < offset + 4 then Inl (SerializerError ''Truncated length prefix in protobuf stream'')
      else
        (let n = from_be (take 4 (drop offset data)); e = offset + 4 + n
         in if length data < e then Inl (SerializerError ''Truncated protobuf record'')
            else
              (case frames data e of
                 Inl x \<Rightarrow> Inl x
               | Inr fs \<Rightarrow> Inr (take n (drop (offset + 4) data) # fs))))"
  by pat_completeness auto

termination
  by (relation "measure (\<lambda>(data, offset). length data - offset)") auto

declare frames.simps [simp del]

definition encode_with_magic :: "nat \<Rightarrow> byte list \<Rightarrow> byte list sres" where
  "encode_with_magic schema_id payload =
     (case pack_u32 schema_id of Inl e \<Rightarrow> Inl e | Inr bs \<Rightarrow> Inr (0 # bs @ payload))"

definition decode_magic :: "byte list \<Rightarrow> (nat \<times> byte list) sres" where
  "decode_magic data =
     (if length data < 5 then Inl (ValueError ''Data too short to contain magic byte framing'')
      else if hd data \<noteq> 0 then Inl (ValueError ''Expected magic byte 0x00'')
      else Inr (from_be (take 4 (drop 1 data)), drop 5 data))"

end
