(* ===== verification/Framing_Props.thy ===== *)
theory Framing_Props
  imports Framing
begin

text \<open>
  The BER splitter terminates on every payload and accepts exactly the concatenations of
  well-formed records, which are described here by a grammar independent of the code.
\<close>

section \<open>Slices\<close>

definition segment :: "'a list \<Rightarrow> nat \<Rightarrow> nat \<Rightarrow> 'a list" where
  "segment xs i j = take (j - i) (drop i xs)"

lemma segment_Cons: "i < j \<Longrightarrow> j \<le> length xs \<Longrightarrow> segment xs i j = xs ! i # segment xs (i + 1) j"
  by (simp add: segment_def Cons_nth_drop_Suc [symmetric] take_Cons')

lemma segment_append: "i \<le> j \<Longrightarrow> j \<le> k \<Longrightarrow> k \<le> length xs \<Longrightarrow> segment xs i j @ segment xs j k = segment xs i k"
  using take_add [of "j - i" "k - j" "drop i xs"] by (simp add: segment_def)

lemma segment_empty [simp]: "segment xs i i = []"
  by (simp add: segment_def)

lemma length_segment [simp]: "i \<le> j \<Longrightarrow> j \<le> length xs \<Longrightarrow> length (segment xs i j) = j - i"
  by (simp add: segment_def)

lemma segment_of_drop: "drop i xs = ys @ zs \<Longrightarrow> segment xs i (i + length ys) = ys"
  by (simp add: segment_def)

lemma drop_split:
  assumes "drop i xs = ys @ zs"
  shows "drop (i + length ys) xs = zs" "i + length ys \<le> length xs \<or> ys = []"
proof -
  show "drop (i + length ys) xs = zs" using assms by (metis add.commute append_eq_conv_conj drop_drop)
  have "length xs - i = length ys + length zs" using assms by (metis length_append length_drop)
  then show "i + length ys \<le> length xs \<or> ys = []" by (cases ys) auto
qed

lemma drop_Cons_nth: "drop i xs = y # ys \<Longrightarrow> i < length xs \<and> xs ! i = y \<and> drop (i + 1) xs = ys"
  by (metis Cons_nth_drop_Suc Suc_eq_plus1 drop_eq_Nil2 leI list.distinct(1) list.inject)

section \<open>The grammar\<close>

definition tag_bytes :: "byte list \<Rightarrow> bool" where
  "tag_bytes t \<longleftrightarrow>
     (\<exists>b. t = [b] \<and> b AND 0x1F \<noteq> 0x1F) \<or>
     (\<exists>b bs z. t = b # bs @ [z] \<and> b AND 0x1F = 0x1F \<and> (\<forall>x \<in> set bs. x AND 0x80 \<noteq> 0) \<and> z AND 0x80 = 0)"

definition length_bytes :: "byte list \<Rightarrow> nat option \<Rightarrow> bool" where
  "length_bytes l n \<longleftrightarrow>
     (\<exists>b. l = [b] \<and> b < 0x80 \<and> n = Some (unat b)) \<or> l = [0x80] \<and> n = None \<or>
     (\<exists>b bs. l = b # bs \<and> 0x80 < b \<and> length bs = unat (b AND 0x7F) \<and> n = Some (from_be bs))"

inductive tlv :: "byte list \<Rightarrow> bool" and contents :: "byte list \<Rightarrow> bool" where
  definite: "tag_bytes t \<Longrightarrow> length_bytes l (Some (length c)) \<Longrightarrow> tlv (t @ l @ c)"
| indefinite: "tag_bytes t \<Longrightarrow> length_bytes l None \<Longrightarrow> contents c \<Longrightarrow> tlv (t @ l @ c)"
| marker: "contents [0, 0]"
| element: "tlv r \<Longrightarrow> r \<noteq> [0, 0] \<Longrightarrow> contents c \<Longrightarrow> contents (r @ c)"

section \<open>Tags and lengths\<close>

lemma tag_loop_sound:
  "tag_loop data pos n = Inr (p, m) \<Longrightarrow>
     pos < p \<and> p \<le> length data \<and>
     (\<exists>bs z. segment data pos p = bs @ [z] \<and> (\<forall>x \<in> set bs. x AND 0x80 \<noteq> 0) \<and> z AND 0x80 = 0)"
proof (induction data pos n rule: tag_loop.induct)
  case (1 data pos n)
  have lt: "pos < length data" using 1(2) by (auto simp: tag_loop.simps split: if_splits)
  let ?b = "data ! pos" and ?n = "push_bit 7 n OR unat (data ! pos AND 0x7F)"
  show ?case
  proof (cases "?b AND 0x80 = 0")
    case True
    then have "p = pos + 1" using 1(2) lt by (simp add: tag_loop.simps [of data pos])
    then show ?thesis using True lt segment_Cons [of pos "pos + 1" data] by (auto intro!: exI [of _ "[]"])
  next
    case False
    then have "tag_loop data (pos + 1) ?n = Inr (p, m)" using 1(2) lt by (simp add: tag_loop.simps [of data pos])
    then obtain bs z where i: "pos + 1 < p" "p \<le> length data" "segment data (pos + 1) p = bs @ [z]"
        "\<forall>x \<in> set bs. x AND 0x80 \<noteq> 0" "z AND 0x80 = 0"
      using 1(1) [OF _ refl refl False] lt by auto
    then have "segment data pos p = (?b # bs) @ [z]" using segment_Cons [of pos p data] by simp
    then show ?thesis using i False by (intro conjI exI [of _ "?b # bs"] exI [of _ z]) auto
  qed
qed

lemma tag_loop_complete:
  "drop pos data = bs @ z # rest \<Longrightarrow> \<forall>x \<in> set bs. x AND 0x80 \<noteq> 0 \<Longrightarrow> z AND 0x80 = 0 \<Longrightarrow>
     \<exists>m. tag_loop data pos n = Inr (pos + length bs + 1, m)"
proof (induction bs arbitrary: pos n)
  case Nil
  then show ?case using drop_Cons_nth [of pos data z rest] by (simp add: tag_loop.simps [of data pos])
next
  case (Cons b bs)
  have d: "pos < length data" "data ! pos = b" "drop (pos + 1) data = bs @ z # rest"
    using Cons.prems(1) drop_Cons_nth [of pos data b] by auto
  then show ?case
    using Cons.IH [OF d(3), of "push_bit 7 n OR unat (b AND 0x7F)"] Cons.prems(2,3)
    by (simp add: tag_loop.simps [of data pos])
qed

lemma low_bits: "unat (b AND 0x1F :: byte) = 0x1F \<longleftrightarrow> b AND 0x1F = 0x1F"
proof -
  have "unat (0x1F :: byte) = 0x1F" by simp
  then show ?thesis by (metis word_unat_eq_iff)
qed

lemma parse_tag_sound:
  assumes "parse_tag data i = Inr (p, m)"
  shows "i < p \<and> p \<le> length data \<and> tag_bytes (segment data i p)"
proof -
  have lt: "i < length data" using assms by (auto simp: parse_tag_def split: if_splits)
  show ?thesis
  proof (cases "data ! i AND 0x1F = 0x1F")
    case True
    then have "tag_loop data (i + 1) 0 = Inr (p, m)" using assms lt by (simp add: parse_tag_def Let_def low_bits)
    from tag_loop_sound [OF this] obtain bs z where t: "i + 1 < p" "p \<le> length data" "segment data (i + 1) p = bs @ [z]"
        "\<forall>x \<in> set bs. x AND 0x80 \<noteq> 0" "z AND 0x80 = 0"
      by blast
    then have "segment data i p = data ! i # bs @ [z]" using segment_Cons [of i p data] by simp
    then show ?thesis using t True unfolding tag_bytes_def by auto
  next
    case False
    then have "p = i + 1" using assms lt by (simp add: parse_tag_def Let_def low_bits)
    then show ?thesis using False lt segment_Cons [of i "i + 1" data] by (simp add: tag_bytes_def)
  qed
qed

lemma parse_tag_complete:
  assumes "tag_bytes t" "drop i data = t @ rest"
  shows "\<exists>m. parse_tag data i = Inr (i + length t, m)"
  using assms(1) unfolding tag_bytes_def
proof (elim disjE exE conjE)
  fix b
  assume b: "t = [b]" "b AND 0x1F \<noteq> 0x1F"
  then show ?thesis using drop_Cons_nth [of i data b rest] assms(2) by (simp add: parse_tag_def Let_def low_bits)
next
  fix b bs z
  assume b: "t = b # bs @ [z]" "b AND 0x1F = 0x1F" "\<forall>x \<in> set bs. x AND 0x80 \<noteq> 0" "z AND 0x80 = 0"
  have d: "i < length data" "data ! i = b" "drop (i + 1) data = bs @ z # rest"
    using drop_Cons_nth [of i data b "bs @ z # rest"] assms(2) b(1) by auto
  obtain m where "tag_loop data (i + 1) 0 = Inr (i + 1 + length bs + 1, m)"
    using tag_loop_complete [OF d(3) b(3,4)] by blast
  then show ?thesis using b(1,2) d by (simp add: parse_tag_def Let_def low_bits)
qed

lemma parse_length_sound:
  assumes "parse_length data i = Inr (p, n)"
  shows "i < p \<and> p \<le> length data \<and> length_bytes (segment data i p) n"
proof -
  let ?b = "data ! i" and ?k = "unat (data ! i AND 0x7F)"
  have lt: "i < length data" using assms by (auto simp: parse_length_def split: if_splits)
  consider "?b < 0x80" | "?b = 0x80" | "0x80 < ?b" by fastforce
  then show ?thesis
  proof cases
    case 3
    then have "\<not> ?b < 0x80" "?b \<noteq> 0x80" by auto
    then have r: "length data \<ge> i + 1 + ?k" "p = i + 1 + ?k" "n = Some (from_be (take ?k (drop (i + 1) data)))"
      using assms lt by (auto simp: parse_length_def Let_def split: if_splits)
    then have "segment data i p = ?b # segment data (i + 1) p" using segment_Cons [of i p data] by simp
    moreover have "segment data (i + 1) p = take ?k (drop (i + 1) data)" using r(2) by (simp add: segment_def)
    ultimately show ?thesis using r 3 unfolding length_bytes_def by auto
  qed (use assms lt segment_Cons [of i "i + 1" data] in \<open>auto simp: parse_length_def length_bytes_def Let_def\<close>)
qed

lemma long_form_nonempty: "0x80 < (b :: byte) \<Longrightarrow> unat (b AND 0x7F) \<noteq> 0"
proof
  assume b: "0x80 < b" and z: "unat (b AND 0x7F) = 0"
  have "b AND 0x7F = take_bit 7 b" by (simp add: take_bit_eq_mask mask_eq_exp_minus_1)
  then have "unat (take_bit 7 b) = 0" using z by simp
  then have "unat b mod 128 = 0" unfolding unsigned_take_bit_eq by (simp add: take_bit_eq_mod)
  moreover have "128 < unat b" "unat b < 256" using b unsigned_less [of b] by (auto simp: word_less_nat_alt)
  ultimately show False by presburger
qed

lemma parse_length_complete:
  assumes "length_bytes l n" "drop i data = l @ rest"
  shows "parse_length data i = Inr (i + length l, n)"
  using assms(1) unfolding length_bytes_def
proof (elim disjE exE conjE)
  fix b bs
  assume b: "l = b # bs" "0x80 < b" "length bs = unat (b AND 0x7F)" "n = Some (from_be bs)"
  have d: "i < length data" "data ! i = b" "drop (i + 1) data = bs @ rest"
    using drop_Cons_nth [of i data b "bs @ rest"] assms(2) b(1) by auto
  have "length data - (i + 1) = length bs + length rest" using d(3) by (metis length_append length_drop)
  then have "i + 1 + unat (b AND 0x7F) \<le> length data" using d(1) b(3) by simp
  moreover have "\<not> b < 0x80" "b \<noteq> 0x80" using b(2) by auto
  ultimately show ?thesis using b d long_form_nonempty [OF b(2)] by (simp add: parse_length_def Let_def)
qed (use drop_Cons_nth [of i data _ rest] assms(2) in \<open>auto simp: parse_length_def\<close>)

section \<open>Termination\<close>

text \<open>Every step of the search for an end marker moves forward, and so does the search itself.\<close>

lemma find_end_defined:
  "\<exists>r. find_indefinite_end data pos = Some r \<and> (\<forall>e. r = Inr e \<longrightarrow> pos < e \<and> e \<le> length data)"
proof (induction "length data - pos" arbitrary: pos rule: less_induct)
  case less
  show ?case
  proof (cases "pos < length data \<and> \<not> (pos + 1 < length data \<and> data ! pos = 0 \<and> data ! (pos + 1) = 0)")
    case False
    then show ?thesis by (subst find_indefinite_end.simps) auto
  next
    case True
    show ?thesis
    proof (cases "parse_tag data pos")
      case (Inl e)
      then show ?thesis using True by (subst find_indefinite_end.simps) auto
    next
      case T: (Inr q)
      obtain i m where q: "q = (i, m)" by (cases q)
      then have i: "pos < i" using parse_tag_sound T by blast
      show ?thesis
      proof (cases "parse_length data i")
        case (Inl e)
        then show ?thesis using True T q by (subst find_indefinite_end.simps) auto
      next
        case L: (Inr s)
        obtain j n where s: "s = (j, n)" by (cases s)
        then have j: "i < j" using parse_length_sound L by blast
        have IH: "pos < p \<Longrightarrow> \<exists>r. find_indefinite_end data p = Some r \<and> (\<forall>e. r = Inr e \<longrightarrow> pos < e \<and> e \<le> length data)" for p
          using less [of p] True by fastforce
        show ?thesis
        proof (cases n)
          case (Some k)
          have "pos < j + k" using i j by simp
          then show ?thesis using IH [of "j + k"] True T L q s Some by (subst find_indefinite_end.simps) auto
        next
          case None
          obtain r where r: "find_indefinite_end data j = Some r" "\<forall>e. r = Inr e \<longrightarrow> pos < e \<and> e \<le> length data"
            using IH [of j] i j by auto
          then show ?thesis using IH True T L q s None
            by (subst find_indefinite_end.simps) (cases r; auto)
        qed
      qed
    qed
  qed
qed

lemma record_end_defined: "\<exists>r. record_end data pos = Some r \<and> (\<forall>e. r = Inr e \<longrightarrow> pos < e)"
proof (cases "parse_tag data pos")
  case T: (Inr q)
  obtain i m where q: "q = (i, m)" by (cases q)
  then have i: "pos < i" using parse_tag_sound T by blast
  show ?thesis
  proof (cases "parse_length data i")
    case L: (Inr s)
    obtain j n where s: "s = (j, n)" by (cases s)
    then have j: "i < j" using parse_length_sound L by blast
    show ?thesis using find_end_defined [of data j] i j T L q s
      by (cases n) (auto simp: record_end_def)
  qed (use T q in \<open>simp add: record_end_def\<close>)
qed (simp add: record_end_def)

lemma iter_defined: "\<exists>r. iter_ber_records data pos = Some r"
proof (induction "length data - pos" arbitrary: pos rule: less_induct)
  case less
  obtain r where r: "record_end data pos = Some r" "\<forall>e. r = Inr e \<longrightarrow> pos < e"
    using record_end_defined by blast
  show ?case
  proof (cases "pos < length data")
    case True
    have "\<exists>r. iter_ber_records data e = Some r" if "r = Inr e" "e \<le> length data" for e
      using less [of e] True r(2) that by fastforce
    then show ?thesis using True r by (subst iter_ber_records.simps) (cases r; fastforce)
  qed (subst iter_ber_records.simps, simp)
qed

text \<open>
  C34. Splitting a payload into BER records ends on every input, nested indefinite lengths included:
  each round of the two loops, and each recursive search for an end marker, starts further right.
\<close>

theorem splitting_terminates: "\<exists>r. split_ber_records data = Some r"
  using iter_defined [of data 0] by (auto simp: split_ber_records_def)

section \<open>The splitter and the grammar\<close>

lemma tag_bytes_head:
  assumes "tag_bytes (a # t)"
  shows "a = 0 \<longrightarrow> t = []"
  using assms by (auto simp: tag_bytes_def)

lemma tag_bytes_nonempty: "tag_bytes t \<Longrightarrow> t \<noteq> []"
  by (auto simp: tag_bytes_def)

lemma length_bytes_head: "length_bytes (a # l) n \<Longrightarrow> a = 0 \<Longrightarrow> l = [] \<and> n = Some 0"
  by (auto simp: length_bytes_def word_less_nat_alt)

lemma length_bytes_nonempty: "length_bytes l n \<Longrightarrow> l \<noteq> []"
  by (auto simp: length_bytes_def)

lemma header_not_marker:
  assumes "tag_bytes t" "length_bytes l n" "t @ l @ c = 0 # 0 # rest"
  shows "t = [0] \<and> l = [0] \<and> n = Some 0 \<and> c = rest"
proof -
  obtain a t' where t: "t = a # t'" using tag_bytes_nonempty [OF assms(1)] by (cases t) auto
  then have a: "a = 0" "t' = []" using assms(1,3) tag_bytes_head [of a t'] by auto
  obtain b l' where l: "l = b # l'" using length_bytes_nonempty [OF assms(2)] by (cases l) auto
  then have b: "b = 0" "c = rest \<or> l' \<noteq> []" using assms(3) t a by auto
  then show ?thesis using length_bytes_head [of b l' n] assms(2,3) l t a by auto
qed

lemma tlv_nonempty: "tlv r \<Longrightarrow> r \<noteq> []"
  using tag_bytes_nonempty by (auto elim!: tlv.cases)

lemma find_end_step:
  assumes "pos < length data" "\<not> (pos + 1 < length data \<and> data ! pos = 0 \<and> data ! (pos + 1) = 0)"
    and "parse_tag data pos = Inr (i, m)" "parse_length data i = Inr (j, n)"
  shows "find_indefinite_end data pos =
    (case n of
       Some k \<Rightarrow> find_indefinite_end data (j + k)
     | None \<Rightarrow> Option.bind (find_indefinite_end data j)
         (\<lambda>r. case r of Inl e \<Rightarrow> Some (Inl e) | Inr p \<Rightarrow> find_indefinite_end data p))"
  using assms by (subst find_indefinite_end.simps) (auto split: option.split)

lemma find_end_sound:
  "find_indefinite_end data pos = Some (Inr e) \<Longrightarrow> contents (segment data pos e)"
proof (induction "length data - pos" arbitrary: pos e rule: less_induct)
  case less
  have le: "pos < e" "e \<le> length data" using find_end_defined [of data pos] less.prems by auto
  have lt: "pos < length data" using le by simp
  show ?case
  proof (cases "pos + 1 < length data \<and> data ! pos = 0 \<and> data ! (pos + 1) = 0")
    case True
    then have "e = pos + 2" using less.prems by (subst (asm) find_indefinite_end.simps) simp
    then show ?thesis using True segment_Cons [of pos e data] segment_Cons [of "pos + 1" e data] by (simp add: marker)
  next
    case False
    obtain i m where T: "parse_tag data pos = Inr (i, m)"
      using less.prems lt False by (subst (asm) find_indefinite_end.simps) (auto split: sum.splits)
    obtain j n where L: "parse_length data i = Inr (j, n)"
      using less.prems lt False T by (subst (asm) find_indefinite_end.simps) (auto split: sum.splits)
    note tb = parse_tag_sound [OF T] and lb = parse_length_sound [OF L]
    have nm: "segment data pos p \<noteq> [0, 0]" if "pos < p" "p \<le> length data" for p
    proof
      assume z: "segment data pos p = [0, 0]"
      then have "p = pos + 2" using length_segment [of pos p data] that by simp
      then show False using z False that segment_Cons [of pos p data] segment_Cons [of "pos + 1" p data] by simp
    qed
    obtain p where p: "tlv (segment data pos p)" "find_indefinite_end data p = Some (Inr e)" "pos < p"
    proof (cases n)
      case (Some k)
      have f: "find_indefinite_end data (j + k) = Some (Inr e)"
        using less.prems find_end_step [OF lt False T L] Some by simp
      then have b: "j + k \<le> length data" using find_end_defined [of data "j + k"] by auto
      have "segment data pos (j + k) = segment data pos i @ segment data i j @ segment data j (j + k)"
        using tb lb b by (simp add: segment_append)
      then have "tlv (segment data pos (j + k))"
        using tlv_contents.definite [of "segment data pos i" "segment data i j" "segment data j (j + k)"] tb lb b Some by simp
      then show ?thesis using f tb lb by (intro that [of "j + k"]) auto
    next
      case None
      obtain p where f: "find_indefinite_end data j = Some (Inr p)" "find_indefinite_end data p = Some (Inr e)"
        using less.prems find_end_step [OF lt False T L] None find_end_defined [of data j] that
        by (auto split: sum.split_asm)
      have b: "j < p" "p \<le> length data" using find_end_defined [of data j] f(1) by auto
      have "contents (segment data j p)" using less.hyps [OF _ f(1)] tb lb lt by auto
      moreover have "segment data pos p = segment data pos i @ segment data i j @ segment data j p"
        using tb lb b by (simp add: segment_append)
      ultimately have "tlv (segment data pos p)"
        using tlv_contents.indefinite [of "segment data pos i" "segment data i j" "segment data j p"] tb lb None by simp
      then show ?thesis using f(2) tb lb b by (intro that [of p]) auto
    qed
    have b: "p < e" "e \<le> length data" using find_end_defined [of data p] p(2) by auto
    have "contents (segment data p e)" using less.hyps [OF _ p(2)] p(3) lt by auto
    then have "contents (segment data pos p @ segment data p e)"
      using tlv_contents.element [OF p(1) nm] p(3) b by simp
    then show ?thesis using segment_append [of pos p e data] p(3) b by simp
  qed
qed

lemma find_end_complete:
  "tlv r \<Longrightarrow> drop pos data = r @ rest \<Longrightarrow> record_end data pos = Some (Inr (pos + length r))"
  "contents c \<Longrightarrow> drop pos data = c @ rest \<Longrightarrow> find_indefinite_end data pos = Some (Inr (pos + length c))"
proof (induction arbitrary: pos rest and pos rest rule: tlv_contents.inducts)
  case (definite t l c)
  obtain m where T: "parse_tag data pos = Inr (pos + length t, m)"
    using parse_tag_complete [OF definite(1)] definite(3) by fastforce
  have "drop (pos + length t) data = l @ c @ rest" using drop_split(1) [of pos data t] definite(3) by simp
  then show ?case using T parse_length_complete [OF definite(2)] by (simp add: record_end_def)
next
  case (indefinite t l c)
  obtain m where T: "parse_tag data pos = Inr (pos + length t, m)"
    using parse_tag_complete [OF indefinite(1)] indefinite(5) by fastforce
  have d: "drop (pos + length t) data = l @ c @ rest" using drop_split(1) [of pos data t] indefinite(5) by simp
  have "drop (pos + length t + length l) data = c @ rest" using drop_split(1) [OF d] .
  then show ?case using T parse_length_complete [OF indefinite(2) d] indefinite.IH by (simp add: record_end_def)
next
  case marker
  then have "pos < length data" "data ! pos = 0" "pos + 1 < length data" "data ! (pos + 1) = 0"
    using drop_Cons_nth [of pos data 0 "0 # rest"] drop_Cons_nth [of "pos + 1" data 0 rest] by auto
  then show ?case by (subst find_indefinite_end.simps) simp
next
  case (element r c)
  have R: "record_end data pos = Some (Inr (pos + length r))" using element.IH(1) element.prems by simp
  have "find_indefinite_end data (pos + length r) = Some (Inr (pos + length r + length c))"
    using element.IH(2) drop_split(1) [of pos data r "c @ rest"] element.prems by simp
  moreover have lt: "pos < length data"
    using tlv_nonempty [OF element.hyps(1)] element.prems by (metis append_is_Nil_conv drop_all leI)
  moreover have nm: "\<not> (pos + 1 < length data \<and> data ! pos = 0 \<and> data ! (pos + 1) = 0)"
  proof
    assume "pos + 1 < length data \<and> data ! pos = 0 \<and> data ! (pos + 1) = 0"
    then have "drop pos data = 0 # 0 # drop (pos + 2) data"
      by (metis Cons_nth_drop_Suc Suc_eq_plus1 Suc_lessD add_2_eq_Suc')
    then have z: "r @ c @ rest = 0 # 0 # drop (pos + 2) data" using element.prems by simp
    from element.hyps(1) show False
    proof cases
      case (definite t l d)
      then show False using header_not_marker [of t l "Some (length d)" "d @ c @ rest"] z element.hyps(2) by auto
    next
      case (indefinite t l d)
      then show False using header_not_marker [of t l None "d @ c @ rest"] z by auto
    qed
  qed
  moreover obtain i m where T: "parse_tag data pos = Inr (i, m)" using R by (auto simp: record_end_def split: sum.splits)
  moreover obtain j n where L: "parse_length data i = Inr (j, n)" using R T by (auto simp: record_end_def split: sum.splits)
  ultimately show ?case using R find_end_step [OF lt nm T L] by (cases n) (simp_all add: record_end_def add.assoc)
qed

lemma record_end_sound:
  assumes "record_end data pos = Some (Inr e)" "e \<le> length data"
  shows "tlv (segment data pos e)"
proof -
  obtain i m where T: "parse_tag data pos = Inr (i, m)" using assms(1) by (auto simp: record_end_def split: sum.splits)
  obtain j n where L: "parse_length data i = Inr (j, n)" using assms(1) T by (auto simp: record_end_def split: sum.splits)
  note tb = parse_tag_sound [OF T] and lb = parse_length_sound [OF L]
  have je: "j \<le> e" using assms(1) T L find_end_defined [of data j] by (cases n) (auto simp: record_end_def)
  have s: "segment data pos e = segment data pos i @ segment data i j @ segment data j e"
    using tb lb je assms(2) by (simp add: segment_append)
  show ?thesis
  proof (cases n)
    case (Some k)
    then have "length (segment data j e) = k" using assms T L je by (auto simp: record_end_def)
    then show ?thesis unfolding s using tb lb Some by (intro tlv_contents.definite) simp_all
  next
    case None
    then have "contents (segment data j e)" using assms(1) T L find_end_sound by (simp add: record_end_def)
    then show ?thesis unfolding s using tb lb None by (intro tlv_contents.indefinite) simp_all
  qed
qed

lemma iter_sound:
  "iter_ber_records data pos = Some (rs, None) \<Longrightarrow> pos \<le> length data \<Longrightarrow> concat rs = drop pos data \<and> list_all tlv rs"
proof (induction rs arbitrary: pos)
  case Nil
  obtain x where "record_end data pos = Some x" using record_end_defined by blast
  with Nil have "\<not> pos < length data"
    by (subst (asm) iter_ber_records.simps) (cases x; auto simp: bind_eq_Some_conv split: if_splits)
  then show ?case by simp
next
  case (Cons r rs)
  obtain e where e: "pos < length data" "record_end data pos = Some (Inr e)" "e \<le> length data"
      "iter_ber_records data e = Some (rs, None)" "r = segment data pos e"
  proof -
    obtain x where "record_end data pos = Some x" using record_end_defined by blast
    then show ?thesis using Cons.prems(1) that
      by (subst (asm) iter_ber_records.simps) (cases x; auto simp: bind_eq_Some_conv segment_def split: if_splits)
  qed
  have "pos < e" using record_end_defined [of data pos] e(2) by auto
  then have "segment data pos e @ drop e data = drop pos data"
    using e(3) segment_append [of pos e "length data" data] by (simp add: segment_def)
  then show ?case using Cons.IH [OF e(4,3)] record_end_sound [OF e(2,3)] e(5) by simp
qed

lemma iter_complete:
  "list_all tlv rs \<Longrightarrow> drop pos data = concat rs \<Longrightarrow> iter_ber_records data pos = Some (rs, None)"
proof (induction rs arbitrary: pos)
  case Nil
  then show ?case by (subst iter_ber_records.simps) simp
next
  case (Cons r rs)
  have r: "tlv r" "drop pos data = r @ concat rs" using Cons.prems by simp_all
  have R: "record_end data pos = Some (Inr (pos + length r))" by (rule find_end_complete(1) [OF r])
  have d: "drop (pos + length r) data = concat rs" "pos + length r \<le> length data"
    using drop_split [OF r(2)] tlv_nonempty [OF r(1)] by auto
  have "iter_ber_records data (pos + length r) = Some (rs, None)" using Cons.IH [OF _ d(1)] Cons.prems(1) by simp
  moreover have "pos < length data" using d(2) tlv_nonempty [OF r(1)] by (cases r) auto
  moreover have "take (length r) (drop pos data) = r" using r(2) by simp
  ultimately show ?case using R d(2) by (subst iter_ber_records.simps) simp
qed

text \<open>
  C35. The splitter returns a list of records exactly when the payload is their concatenation and
  each of them is one well-formed BER element of the grammar; the reading of a payload is unique.
\<close>

theorem splitter_parses_grammar:
  "split_ber_records data = Some (Inr rs) \<longleftrightarrow> concat rs = data \<and> list_all tlv rs"
proof
  assume "split_ber_records data = Some (Inr rs)"
  then have "iter_ber_records data 0 = Some (rs, None)"
    by (auto simp: split_ber_records_def split: option.splits)
  then show "concat rs = data \<and> list_all tlv rs" using iter_sound [of data 0] by simp
next
  assume "concat rs = data \<and> list_all tlv rs"
  then have "iter_ber_records data 0 = Some (rs, None)" using iter_complete [of rs 0 data] by simp
  then show "split_ber_records data = Some (Inr rs)" by (simp add: split_ber_records_def)
qed

end
