(* ===== verification/Serializers.thy ===== *)
theory Serializers
  imports Framing_Props
begin

text \<open>
  The protobuf and ASN.1 serializers around the byte formats of \<open>Framing\<close>. The message codec of
  the protobuf package, the decoder compiled by \<open>asn1tools\<close> and the schema id that the registry
  answers are parameters; their results are values or the text of the exception they raise.
\<close>

section \<open>Protobuf\<close>

record proto_cfg =
  pc_framing_none :: bool
  pc_registry :: bool
  pc_use_magic :: bool
  pc_schema_id :: "nat option"

record 'r codec =
  encode_msg :: "'r \<Rightarrow> string + byte list"
  decode_msg :: "byte list \<Rightarrow> string + 'r"

fun decode_all :: "'r codec \<Rightarrow> byte list list \<Rightarrow> 'r list sres" where
  "decode_all cd [] = Inr []"
| "decode_all cd (f # fs) =
     (case decode_msg cd f of
        Inl m \<Rightarrow> Inl (SerializerError m)
      | Inr r \<Rightarrow> (case decode_all cd fs of Inl e \<Rightarrow> Inl e | Inr rs \<Rightarrow> Inr (r # rs)))"

definition strip_magic :: "proto_cfg \<Rightarrow> byte list \<Rightarrow> byte list sres" where
  "strip_magic c data =
     (if pc_use_magic c \<and> pc_registry c \<and> 5 \<le> length data \<and> take 1 data = [0]
      then (case decode_magic data of Inl e \<Rightarrow> Inl e | Inr (i, payload) \<Rightarrow> Inr payload)
      else Inr data)"

definition proto_parse :: "'r codec \<Rightarrow> proto_cfg \<Rightarrow> byte list \<Rightarrow> 'r list sres" where
  "proto_parse cd c data =
     (case strip_magic c data of
        Inl e \<Rightarrow> Inl e
      | Inr payload \<Rightarrow>
          if pc_framing_none c then decode_all cd [payload]
          else (case frames payload 0 of Inl e \<Rightarrow> Inl e | Inr fs \<Rightarrow> decode_all cd fs))"

fun encode_all :: "'r codec \<Rightarrow> 'r list \<Rightarrow> byte list sres" where
  "encode_all cd [] = Inr []"
| "encode_all cd (r # rs) =
     (case encode_msg cd r of
        Inl m \<Rightarrow> Inl (SerializerError m)
      | Inr bs \<Rightarrow>
          (case pack_u32 (length bs) of
             Inl e \<Rightarrow> Inl (SerializerError ''Protobuf serialize error'')
           | Inr hd4 \<Rightarrow> (case encode_all cd rs of Inl e \<Rightarrow> Inl e | Inr out \<Rightarrow> Inr (hd4 @ bs @ out))))"

definition proto_serialize :: "'r codec \<Rightarrow> proto_cfg \<Rightarrow> 'r list \<Rightarrow> byte list sres" where
  "proto_serialize cd c rs =
     (case encode_all cd rs of
        Inl e \<Rightarrow> Inl e
      | Inr payload \<Rightarrow>
          if pc_use_magic c \<and> pc_registry c
          then (case pc_schema_id c of Some i \<Rightarrow> encode_with_magic i payload | None \<Rightarrow> Inr payload)
          else Inr payload)"

subsection \<open>Frames\<close>







definition raw_codec :: "byte list codec" where
  "raw_codec = \<lparr>encode_msg = Inr, decode_msg = Inr\<rparr>"


text \<open>
  With a registry configured, possibly only by the environment, but no schema id or subject, the
  serializer writes no header and yet strips one when reading: the first byte of a length prefix is
  0 for every record below 16 MiB, so the prefix and one byte of the first record are taken for a
  header. A single two-byte record comes back as a decoding error, and two records as other bytes.
  The framing \<open>none\<close> is honoured by the reader only: the reader returns the length prefix as part
  of the message.
\<close>

theorem proto_roundtrip_fails:
  "let c = \<lparr>pc_framing_none = False, pc_registry = True, pc_use_magic = True, pc_schema_id = None\<rparr>;
       d = \<lparr>pc_framing_none = True, pc_registry = False, pc_use_magic = True, pc_schema_id = None\<rparr>
   in proto_serialize raw_codec c [[8, 1]] = Inr [0, 0, 0, 2, 8, 1] \<and>
     proto_parse raw_codec c [0, 0, 0, 2, 8, 1] = Inl (SerializerError ''Truncated length prefix in protobuf stream'') \<and>
     proto_serialize raw_codec c [[0], [5]] = Inr [0, 0, 0, 1, 0, 0, 0, 0, 1, 5] \<and>
     proto_parse raw_codec c [0, 0, 0, 1, 0, 0, 0, 0, 1, 5] = Inr [[5]] \<and>
     proto_serialize raw_codec d [[8, 1]] = Inr [0, 0, 0, 2, 8, 1] \<and>
     proto_parse raw_codec d [0, 0, 0, 2, 8, 1] = Inr [[0, 0, 0, 2, 8, 1]]"
  by (simp add: proto_serialize_def proto_parse_def strip_magic_def decode_magic_def raw_codec_def pack_u32_def
      from_be_def frames.simps Let_def)

section \<open>ASN.1\<close>








record asn1_cfg =
  ac_schema_file :: "string option"
  ac_message_class :: "string option"
  ac_message_classes :: "string list"
  ac_encoding :: string
  ac_split_records :: bool
  ac_split_path :: "string option"
  ac_split_context :: "row option"

definition asn1_init :: "asn1_cfg \<Rightarrow> asn1_cfg sres" where
  "asn1_init c =
     (let has_class = (case ac_message_class c of Some s \<Rightarrow> s \<noteq> [] | None \<Rightarrow> False);
          has_path = (case ac_split_path c of Some s \<Rightarrow> s \<noteq> [] | None \<Rightarrow> False)
      in if ac_schema_file c = None then Inl (SerializerError ''requires schema_file config'')
         else if has_class = (ac_message_classes c \<noteq> [])
         then Inl (SerializerError ''requires exactly one of message_class or message_classes'')
         else if ac_split_records c \<and> ac_encoding c \<noteq> ''ber''
         then Inl (SerializerError ''split_records is only supported for BER'')
         else if ac_split_records c \<and> has_path
         then Inl (SerializerError ''split_records and split_path are mutually exclusive'')
         else if ac_split_path c = None \<and> ac_split_context c \<noteq> None
         then Inl (SerializerError ''split_path_context requires split_path to be configured'')
         else Inr c)"










text \<open>The default of \<open>BaseSerializer\<close>.\<close>

function slices :: "nat \<Rightarrow> 'a list \<Rightarrow> 'a list list" where
  "slices n xs = (if n = 0 \<or> xs = [] then [] else take n xs # slices n (drop n xs))"
  by pat_completeness auto

termination
  by (relation "measure (\<lambda>(n, xs). length xs)") auto

declare slices.simps [simp del]




lemma slices_empty [simp]: "slices n [] = []"
  by (subst slices.simps) simp





end
