(* ===== verification/Controller.thy ===== *)
theory Controller
  imports Ledger Run_Stats "HOL-Library.List_Lexorder" "HOL-Library.Product_Lexorder" "HOL-Library.Char_ord"
begin

text \<open>
  Batch pipelines on the manager: \<open>tram/pipeline/controller.py\<close> with the registry of
  \<open>tram/pipeline/manager.py\<close>, the \<open>queued_runs\<close> table of \<open>tram/persistence/db.py\<close> and the
  drain of \<open>tram/agent/reconciler.py\<close>, in manager mode with a database and a worker pool. The
  lifecycle lock makes each definition below one step; a dispatch over HTTP lies between two of
  them, with the local variables of its thread kept in \<open>ct_inflight\<close>. Clock readings, fence
  tokens, the answers of the workers and the parsed form of a YAML text are arguments. Stream
  pipelines, metrics, lifecycle audit rows, error texts and the Kubernetes service are left out, and
  so are the attempt columns that no modelled statement tests (times, worker, reasons): \<open>dispatch_sent_at\<close> is
  written together with the state \<open>dispatching\<close>, so that a claimed attempt has none.
\<close>

section \<open>State\<close>

datatype sched = Interval | Cron | Manual

record pipe =
  pl_sched :: sched
  pl_enabled :: bool
  pl_yaml :: string
  pl_status :: string
  pl_config :: nat

record desired =
  ds_status :: string
  ds_generation :: int
  ds_deleted :: bool

record registered =
  rg_yaml :: string
  rg_stopped :: bool
  rg_deleted :: bool

record qrow =
  qr_run :: string
  qr_pipeline :: string
  qr_yaml :: string
  qr_status :: string
  qr_requested_at :: instant
  qr_expires_at :: instant
  qr_dispatched_at :: "instant option"

record lease =
  ls_run :: string
  ls_worker :: string
  ls_object :: nat

record hist =
  h_run :: string
  h_pipeline :: string
  h_status :: run_status

datatype origin = ManualRun | ScheduledRun

record inflight =
  if_thread :: nat
  if_pipeline :: string
  if_run :: string
  if_attempt :: string
  if_generation :: int
  if_origin :: origin
  if_yaml :: string
  if_config :: nat

record ctl =
  ct_ledger :: ledger
  ct_queue :: "qrow list"
  ct_desired :: "(string, desired) dict"
  ct_registry :: "(string, registered) dict"
  ct_history :: "hist list"
  ct_pipes :: "(string, pipe) dict"
  ct_jobs :: "string list"
  ct_leases :: "(string, lease) dict"
  ct_inflight :: "inflight list"
  ct_busy :: "(string, nat) dict"
  ct_next :: nat

record ctl_cfg =
  cc_queue_manual :: bool
  cc_ttl :: int
  cc_max_count :: int
  cc_max_bytes :: int

datatype cerror = PipelineNotFound | PipelineExists | ConfigInvalid | AlreadyRunning | QueueCapacity string | Overload | Db lerror

section \<open>Registry and desired state\<close>

definition set_status :: "string \<Rightarrow> string \<Rightarrow> ctl \<Rightarrow> ctl" where
  "set_status name s c =
     (case dget (ct_pipes c) name of
        Some p \<Rightarrow> c\<lparr>ct_pipes := dset name (p\<lparr>pl_status := s\<rparr>) (ct_pipes c)\<rparr>
      | None \<Rightarrow> c)"

definition pipeline_generation :: "string \<Rightarrow> ctl \<Rightarrow> int" where
  "pipeline_generation name c = (case dget (ct_desired c) name of Some d \<Rightarrow> ds_generation d | None \<Rightarrow> 1)"

definition ensure_desired_state :: "string \<Rightarrow> string \<Rightarrow> ctl \<Rightarrow> ctl" where
  "ensure_desired_state name s c =
     (if dhas name (ct_desired c) then c
      else c\<lparr>ct_desired := dset name \<lparr>ds_status = s, ds_generation = 1, ds_deleted = False\<rparr> (ct_desired c)\<rparr>)"

definition set_desired_status :: "string \<Rightarrow> string \<Rightarrow> ctl \<Rightarrow> ctl" where
  "set_desired_status name s c =
     (case dget (ct_desired c) name of
        Some d \<Rightarrow> c\<lparr>ct_desired := dset name (d\<lparr>ds_status := s\<rparr>) (ct_desired c)\<rparr>
      | None \<Rightarrow> c)"

definition bump_pipeline_generation :: "string \<Rightarrow> bool \<Rightarrow> ctl \<Rightarrow> ctl" where
  "bump_pipeline_generation name deleted c =
     (let g = pipeline_generation name c + 1
      in c\<lparr>ct_desired := dset name
            (case dget (ct_desired c) name of
               Some d \<Rightarrow> d\<lparr>ds_generation := g, ds_deleted := deleted\<rparr>
             | None \<Rightarrow> \<lparr>ds_status = ''running'', ds_generation = g, ds_deleted = deleted\<rparr>) (ct_desired c)\<rparr>)"

definition flag_stopped :: "string \<Rightarrow> bool \<Rightarrow> ctl \<Rightarrow> ctl" where
  "flag_stopped name b c =
     (case dget (ct_registry c) name of
        Some r \<Rightarrow> c\<lparr>ct_registry := dset name (r\<lparr>rg_stopped := b\<rparr>) (ct_registry c)\<rparr>
      | None \<Rightarrow> c)"

definition save_pipeline :: "string \<Rightarrow> string \<Rightarrow> ctl \<Rightarrow> ctl" where
  "save_pipeline name yaml c =
     c\<lparr>ct_registry := dset name
         (case dget (ct_registry c) name of
            Some r \<Rightarrow> r\<lparr>rg_yaml := yaml, rg_deleted := False\<rparr>
          | None \<Rightarrow> \<lparr>rg_yaml = yaml, rg_stopped = False, rg_deleted = False\<rparr>) (ct_registry c)\<rparr>"

definition delete_pipeline_row :: "string \<Rightarrow> ctl \<Rightarrow> ctl" where
  "delete_pipeline_row name c =
     (case dget (ct_registry c) name of
        Some r \<Rightarrow> c\<lparr>ct_registry := dset name (r\<lparr>rg_deleted := True\<rparr>) (ct_registry c)\<rparr>
      | None \<Rightarrow> c)"

definition is_pipeline_stopped :: "string \<Rightarrow> ctl \<Rightarrow> bool" where
  "is_pipeline_stopped name c =
     (case dget (ct_registry c) name of Some r \<Rightarrow> \<not> rg_deleted r \<and> rg_stopped r | None \<Rightarrow> False)"

definition may_schedule :: "string \<Rightarrow> ctl \<Rightarrow> bool" where
  "may_schedule name c =
     (case dget (ct_pipes c) name of
        None \<Rightarrow> False
      | Some p \<Rightarrow> \<not> is_pipeline_stopped name c \<and> pl_enabled p)"

definition do_schedule :: "string \<Rightarrow> ctl \<Rightarrow> ctl" where
  "do_schedule name c =
     (case dget (ct_pipes c) name of
        None \<Rightarrow> c
      | Some p \<Rightarrow>
          if pl_sched p = Manual then set_status name ''stopped'' c
          else set_status name ''scheduled'' (c\<lparr>ct_jobs := List.insert name (ct_jobs c)\<rparr>))"

definition manager_register :: "string \<Rightarrow> sched \<Rightarrow> bool \<Rightarrow> string \<Rightarrow> ctl \<Rightarrow> ctl" where
  "manager_register name sch en yaml c =
     c\<lparr>ct_pipes := dset name \<lparr>pl_sched = sch, pl_enabled = en, pl_yaml = yaml, pl_status = ''stopped'', pl_config = ct_next c\<rparr>
         (ct_pipes c), ct_next := ct_next c + 1\<rparr>"

section \<open>Run history\<close>

text \<open>\<open>save_run\<close> ignores a duplicate run id.\<close>

definition record_run :: "hist \<Rightarrow> ctl \<Rightarrow> ctl" where
  "record_run h c = c\<lparr>ct_history := insert_ignore h_run h (ct_history c)\<rparr>"

definition get_run :: "string \<Rightarrow> ctl \<Rightarrow> hist option" where
  "get_run run_id c = tbl_find h_run run_id (ct_history c)"

definition failed_run :: "string \<Rightarrow> string \<Rightarrow> hist" where
  "failed_run run_id name = \<lparr>h_run = run_id, h_pipeline = name, h_status = Failed\<rparr>"

definition on_run_complete_status :: "string \<Rightarrow> run_status \<Rightarrow> ctl \<Rightarrow> ctl" where
  "on_run_complete_status name st c =
     (case dget (ct_pipes c) name of
        None \<Rightarrow> c
      | Some p \<Rightarrow>
          if pl_status p = ''stopped'' then c
          else if st \<noteq> Success then set_status name ''error'' c
          else if name \<in> set (ct_jobs c) then set_status name ''scheduled'' c
          else if pl_sched p \<noteq> Manual \<and> pl_enabled p
          then if may_schedule name c then do_schedule name c else set_status name ''stopped'' c
          else set_status name ''stopped'' c)"

definition finalize_batch_result :: "hist \<Rightarrow> ctl \<Rightarrow> ctl" where
  "finalize_batch_result h c =
     (if dhas (h_pipeline h) (ct_pipes c)
      then on_run_complete_status (h_pipeline h) (h_status h) (record_run h c)
      else c)"

section \<open>Ledger statements of the controller\<close>

datatype final = FSuccess | FPartial | FFailed | FAborted | FExpired

fun final_str :: "final \<Rightarrow> string" where
  "final_str FSuccess = ''success''"
| "final_str FPartial = ''partial''"
| "final_str FFailed = ''failed''"
| "final_str FAborted = ''aborted''"
| "final_str FExpired = ''expired''"

fun intent_outcome :: "run_status \<Rightarrow> final" where
  "intent_outcome Success = FSuccess"
| "intent_outcome Partial = FPartial"
| "intent_outcome Aborted = FAborted"
| "intent_outcome _ = FFailed"

fun status_from_intent_outcome :: "final \<Rightarrow> run_status" where
  "status_from_intent_outcome FSuccess = Success"
| "status_from_intent_outcome FPartial = Partial"
| "status_from_intent_outcome FAborted = Aborted"
| "status_from_intent_outcome _ = Failed"

fun sched_str :: "sched \<Rightarrow> string" where
  "sched_str Interval = ''interval''"
| "sched_str Cron = ''cron''"
| "sched_str Manual = ''manual''"

definition live_state :: "string \<Rightarrow> bool" where
  "live_state s \<longleftrightarrow> s = ''claimed'' \<or> s = ''dispatching'' \<or> s = ''running''"

definition active_attempt_for_run :: "string \<Rightarrow> ledger \<Rightarrow> attempt option" where
  "active_attempt_for_run run_id l =
     (case filter (\<lambda>x. x_run x = run_id \<and> x_state x \<noteq> ''terminal'') (attempts l) of
        [] \<Rightarrow> None
      | x # xs \<Rightarrow> Some (foldl (\<lambda>b y. if x_ordinal y > x_ordinal b then y else b) x xs))"

definition mark_attempt_dispatching :: "string \<Rightarrow> string \<Rightarrow> int \<Rightarrow> ledger \<Rightarrow> ledger" where
  "mark_attempt_dispatching a r g l = snd (transition_attempt a r ''claimed'' ''dispatching'' g l)"

definition mark_attempt_running :: "string \<Rightarrow> string \<Rightarrow> int \<Rightarrow> ledger \<Rightarrow> ledger" where
  "mark_attempt_running a r g l = snd (transition_attempt a r ''dispatching'' ''running'' g l)"

definition mark_attempt_unknown :: "attempt \<Rightarrow> ledger \<Rightarrow> ledger" where
  "mark_attempt_unknown x l =
     l\<lparr>attempts := update_where
         (\<lambda>y. x_attempt y = x_attempt x \<and> x_run y = x_run x \<and> x_generation y = x_generation x \<and>
              (x_state y = ''dispatching'' \<or> x_state y = ''running''))
         (\<lambda>y. y\<lparr>x_state := ''unknown''\<rparr>) (attempts l)\<rparr>"

text \<open>\<open>_terminalize_attempt\<close>: the attempt under its fence, the intent when an outcome is given, the
  guard by identity.\<close>

definition terminalize_attempt ::
  "string \<Rightarrow> string \<Rightarrow> string \<Rightarrow> int \<Rightarrow> final option \<Rightarrow> instant \<Rightarrow> ledger \<Rightarrow> ledger" where
  "terminalize_attempt a r p g res now l =
     (let l1 = l\<lparr>attempts := update_where
                   (\<lambda>x. x_attempt x = a \<and> x_run x = r \<and> x_generation x = g \<and> live_state (x_state x))
                   (\<lambda>x. x\<lparr>x_state := ''terminal''\<rparr>) (attempts l)\<rparr>;
          l2 = (case res of None \<Rightarrow> l1 | Some oc \<Rightarrow> snd (resolve_intent r (final_str oc) a now l1))
      in snd (release_guard p a r l2))"

definition mk_intent ::
  "string \<Rightarrow> string \<Rightarrow> string \<Rightarrow> bool \<Rightarrow> instant \<Rightarrow> instant option \<Rightarrow> int \<Rightarrow> string \<Rightarrow> sched \<Rightarrow> intent" where
  "mk_intent run_id name org flush now expires g yaml sch =
     \<lparr>i_run = run_id, i_pipeline = name, i_origin = org, i_flush = flush, i_requested_at = now,
      i_expires_at = expires, i_requested_generation = g, i_requested_config_version = None,
      i_yaml_snapshot = Some yaml, i_schedule_type = Some (sched_str sch), i_final_outcome = None,
      i_final_attempt = None, i_resolved_at = None\<rparr>"

text \<open>
  \<open>_claim_for_dispatch\<close> at the pipeline's generation \<open>g\<close>: the intent, the guard, then the state
  \<open>dispatching\<close>. The result is the attempt id, or None for a refused claim.
\<close>

definition claim_for_dispatch ::
  "string \<Rightarrow> string \<Rightarrow> string \<Rightarrow> bool \<Rightarrow> string \<Rightarrow> sched \<Rightarrow> int \<Rightarrow> int \<Rightarrow> string \<Rightarrow> instant \<Rightarrow> ledger
     \<Rightarrow> (lerror + string option) \<times> ledger" where
  "claim_for_dispatch name run_id org flush yaml sch ordinal g fence now l =
     (case ensure_run_intent (mk_intent run_id name org flush now None g yaml sch) l of
        (Inl e, l1) \<Rightarrow> (Inl e, l1)
      | (Inr _, l1) \<Rightarrow>
          (case claim_run \<lparr>q_guard_key = name, q_guard_kind = ''batch'', q_pipeline = name,
                           q_run = run_id, q_generation = g, q_ordinal = ordinal, q_slot = '''',
                           q_yaml_snapshot = Some yaml\<rparr> fence now l1 of
             (Inl e, l2) \<Rightarrow> (Inl e, l2)
           | (Inr oc, l2) \<Rightarrow>
               if co_status oc = LOST \<or> co_status oc = NO_INTENT then (Inr None, l2)
               else (Inr (Some (co_attempt oc)), mark_attempt_dispatching (co_attempt oc) run_id g l2)))"

section \<open>Queue statements\<close>

definition q_active :: "qrow \<Rightarrow> bool" where
  "q_active q \<longleftrightarrow> qr_status q = ''queued'' \<or> qr_status q = ''dispatching''"

definition get_active_queued_runs :: "ctl \<Rightarrow> qrow list" where
  "get_active_queued_runs c = sort_key qr_requested_at (filter (\<lambda>q. qr_status q = ''queued'') (ct_queue c))"

definition get_queued_run_view :: "ctl \<Rightarrow> qrow list" where
  "get_queued_run_view c = sort_key qr_requested_at (filter q_active (ct_queue c))"

definition get_active_queued_run_for_pipeline :: "string \<Rightarrow> ctl \<Rightarrow> qrow option" where
  "get_active_queued_run_for_pipeline name c =
     (case sort_key qr_requested_at (filter (\<lambda>q. qr_pipeline q = name \<and> q_active q) (ct_queue c)) of
        [] \<Rightarrow> None
      | q # _ \<Rightarrow> Some q)"

definition save_queued_run :: "qrow \<Rightarrow> ctl \<Rightarrow> ctl" where
  "save_queued_run q c = c\<lparr>ct_queue := upsert qr_run q (\<lambda>_. q) (ct_queue c)\<rparr>"

text \<open>The conditional updates of one row (claim, revert, expire), with their row count.\<close>

definition move_queued_run_row :: "string \<Rightarrow> string \<Rightarrow> string \<Rightarrow> ctl \<Rightarrow> nat \<times> ctl" where
  "move_queued_run_row run_id s t c =
     (let sel = (\<lambda>q. qr_run q = run_id \<and> qr_status q = s)
      in (rowcount sel (ct_queue c),
          c\<lparr>ct_queue := update_where sel (\<lambda>q. q\<lparr>qr_status := t\<rparr>) (ct_queue c)\<rparr>))"

definition mark_queued_run_dispatched :: "string \<Rightarrow> instant \<Rightarrow> ctl \<Rightarrow> ctl" where
  "mark_queued_run_dispatched run_id now c =
     c\<lparr>ct_queue := update_where (\<lambda>q. qr_run q = run_id \<and> qr_status q = ''dispatching'')
         (\<lambda>q. q\<lparr>qr_status := ''dispatched'', qr_dispatched_at := Some now\<rparr>) (ct_queue c)\<rparr>"

definition terminal_cancel_queued_run :: "string \<Rightarrow> ctl \<Rightarrow> ctl" where
  "terminal_cancel_queued_run run_id c =
     c\<lparr>ct_queue := update_where (\<lambda>q. qr_run q = run_id \<and> q_active q)
         (\<lambda>q. q\<lparr>qr_status := ''cancelled''\<rparr>) (ct_queue c)\<rparr>"

definition has_open_attempt :: "string \<Rightarrow> ledger \<Rightarrow> bool" where
  "has_open_attempt run_id l \<longleftrightarrow> (\<exists>x \<in> set (attempts l). x_run x = run_id \<and> x_state x \<noteq> ''terminal'')"

definition terminal_cancel_pipeline_queued :: "string \<Rightarrow> instant \<Rightarrow> ctl \<Rightarrow> ctl" where
  "terminal_cancel_pipeline_queued name now c =
     (let l = ct_ledger c
      in c\<lparr>ct_queue := update_where (\<lambda>q. qr_pipeline q = name \<and> q_active q)
             (\<lambda>q. q\<lparr>qr_status := ''cancelled''\<rparr>) (ct_queue c),
           ct_ledger := l\<lparr>intents := update_where
             (\<lambda>i. i_pipeline i = name \<and> i_final_outcome i = None \<and> \<not> has_open_attempt (i_run i) l)
             (\<lambda>i. i\<lparr>i_final_outcome := Some ''aborted'', i_resolved_at := Some now\<rparr>) (intents l)\<rparr>\<rparr>)"

definition prune_orphaned_run_intents :: "string \<Rightarrow> instant \<Rightarrow> ctl \<Rightarrow> ctl" where
  "prune_orphaned_run_intents name now c =
     (let l = ct_ledger c
      in c\<lparr>ct_ledger := l\<lparr>intents := update_where
             (\<lambda>i. i_pipeline i = name \<and> i_final_outcome i = None)
             (\<lambda>i. i\<lparr>i_final_outcome := Some ''aborted'', i_resolved_at := Some now\<rparr>) (intents l)\<rparr>\<rparr>)"

section \<open>Manual runs and the queue\<close>

definition record_skipped_manual_run :: "string \<Rightarrow> string \<Rightarrow> ctl \<Rightarrow> ctl" where
  "record_skipped_manual_run name run_id c = record_run (failed_run run_id name) c"

definition reject_queue_over_capacity :: "ctl_cfg \<Rightarrow> string \<Rightarrow> ctl \<Rightarrow> cerror option" where
  "reject_queue_over_capacity cfg yaml c =
     (let active = get_active_queued_runs c;
          bytes = sum_list (map (\<lambda>q. int (length (qr_yaml q))) active)
      in if cc_max_count cfg > 0 \<and> int (length active) \<ge> cc_max_count cfg
         then Some (QueueCapacity ''TRAM_QUEUE_MAX_COUNT'')
         else if cc_max_bytes cfg > 0 \<and> bytes + int (length yaml) > cc_max_bytes cfg
         then Some (QueueCapacity ''TRAM_QUEUE_MAX_BYTES'')
         else None)"

definition enqueue_manual_run ::
  "ctl_cfg \<Rightarrow> string \<Rightarrow> string \<Rightarrow> string \<Rightarrow> instant \<Rightarrow> ctl \<Rightarrow> (cerror + bool) \<times> ctl" where
  "enqueue_manual_run cfg name run_id yaml now c =
     (if get_active_queued_run_for_pipeline name c \<noteq> None then (Inr False, set_status name ''queued'' c)
      else
        (case reject_queue_over_capacity cfg yaml c of
           Some e \<Rightarrow> (Inl e, c)
         | None \<Rightarrow>
             (let expires = now + 1000000 * cc_ttl cfg;
                  sch = (case dget (ct_pipes c) name of Some p \<Rightarrow> pl_sched p | None \<Rightarrow> Manual);
                  c1 = save_queued_run \<lparr>qr_run = run_id, qr_pipeline = name, qr_yaml = yaml,
                         qr_status = ''queued'', qr_requested_at = now, qr_expires_at = expires,
                         qr_dispatched_at = None\<rparr> c;
                  l = snd (ensure_run_intent (mk_intent run_id name ''queued'' False now (Some expires)
                         (pipeline_generation name c) yaml sch) (ct_ledger c1))
              in (Inr True, set_status name ''queued'' (c1\<lparr>ct_ledger := l\<rparr>)))))"

datatype trigger_result = TriggerQueued string | TriggerDispatched string

text \<open>
  \<open>trigger_run\<close>: \<open>healthy\<close> is whether the pool has a healthy worker and \<open>admitted\<close> whether the
  management executor takes the task; the task itself is \<open>execute_batch\<close> below. The queue keeps the
  run id of an earlier request.
\<close>

definition trigger_run ::
  "ctl_cfg \<Rightarrow> bool \<Rightarrow> bool \<Rightarrow> string \<Rightarrow> instant \<Rightarrow> string \<Rightarrow> ctl \<Rightarrow> (cerror + trigger_result) \<times> ctl" where
  "trigger_run cfg healthy admitted run_id now name c =
     (case dget (ct_pipes c) name of
        None \<Rightarrow> (Inl PipelineNotFound, c)
      | Some p \<Rightarrow>
          if pl_status p = ''running'' then (Inl AlreadyRunning, c)
          else
            (case (if cc_queue_manual cfg then get_active_queued_run_for_pipeline name c else None) of
               Some q \<Rightarrow> (Inr (TriggerQueued (qr_run q)), set_status name ''queued'' c)
             | None \<Rightarrow>
                 if cc_queue_manual cfg \<and> \<not> healthy
                 then
                   (case enqueue_manual_run cfg name run_id (pl_yaml p) now c of
                      (Inl e, c') \<Rightarrow> (Inl e, c')
                    | (Inr True, c') \<Rightarrow> (Inr (TriggerQueued run_id), c')
                    | (Inr False, c') \<Rightarrow>
                        (Inr (TriggerQueued (case get_active_queued_run_for_pipeline name c' of
                                Some q \<Rightarrow> qr_run q | None \<Rightarrow> run_id)), c'))
                 else if admitted then (Inr (TriggerDispatched run_id), c)
                 else (Inl Overload, c)))"

definition drainable_queued_runs :: "ctl \<Rightarrow> qrow list" where
  "drainable_queued_runs c =
     filter (\<lambda>q. (case dget (ct_pipes c) (qr_pipeline q) of
                    None \<Rightarrow> False
                  | Some p \<Rightarrow> \<not> dhas (qr_pipeline q) (ct_leases c) \<and> pl_status p \<noteq> ''running''))
       (get_active_queued_runs c)"

text \<open>The claimed payload is the attempt id; a refused claim puts the row back.\<close>

definition claim_queued_run ::
  "string \<Rightarrow> string \<Rightarrow> instant \<Rightarrow> ctl \<Rightarrow> (cerror + string option) \<times> ctl" where
  "claim_queued_run run_id fence now c =
     (case find (\<lambda>q. qr_run q = run_id) (drainable_queued_runs c) of
        None \<Rightarrow> (Inr None, c)
      | Some q \<Rightarrow>
          (let name = qr_pipeline q;
               sch = (case dget (ct_pipes c) name of Some p \<Rightarrow> pl_sched p | None \<Rightarrow> Manual)
           in case move_queued_run_row run_id ''queued'' ''dispatching'' c of
             (n, c1) \<Rightarrow>
               if n \<noteq> 1 then (Inr None, c1)
               else
                 (case claim_for_dispatch name run_id ''queued'' False (qr_yaml q) sch
                         (next_attempt_ordinal run_id (ct_ledger c1)) (pipeline_generation name c1)
                         fence now (ct_ledger c1) of
                    (Inl e, l) \<Rightarrow> (Inl (Db e), c1\<lparr>ct_ledger := l\<rparr>)
                  | (Inr None, l) \<Rightarrow>
                      (Inr None, snd (move_queued_run_row run_id ''dispatching'' ''queued''
                                       (c1\<lparr>ct_ledger := l\<rparr>)))
                  | (Inr (Some a), l) \<Rightarrow> (Inr (Some a), c1\<lparr>ct_ledger := l\<rparr>))))"

definition add_lease :: "string \<Rightarrow> string \<Rightarrow> string \<Rightarrow> ctl \<Rightarrow> ctl" where
  "add_lease name run_id url c =
     c\<lparr>ct_leases := dset name \<lparr>ls_run = run_id, ls_worker = url, ls_object = ct_next c\<rparr> (ct_leases c),
       ct_next := ct_next c + 1\<rparr>"

definition commit_queued_dispatch :: "string \<Rightarrow> string \<Rightarrow> instant \<Rightarrow> ctl \<Rightarrow> bool \<times> ctl" where
  "commit_queued_dispatch run_id url now c =
     (case find (\<lambda>q. qr_run q = run_id \<and> qr_status q = ''dispatching'') (get_queued_run_view c) of
        None \<Rightarrow> (False, c)
      | Some q \<Rightarrow>
          (let name = qr_pipeline q in
           if \<not> dhas name (ct_pipes c) then (False, c)
           else
             (let c1 = (if get_run run_id c = None
                        then set_status name ''running'' (add_lease name run_id url c) else c);
                  c2 = mark_queued_run_dispatched run_id now c1
              in (True,
                  case active_attempt_for_run run_id (ct_ledger c2) of
                    None \<Rightarrow> c2
                  | Some x \<Rightarrow> c2\<lparr>ct_ledger :=
                      mark_attempt_running (x_attempt x) run_id (x_generation x) (ct_ledger c2)\<rparr>))))"

text \<open>The newest open attempt of a run made terminal, when there is one.\<close>

definition terminalize_open :: "string \<Rightarrow> final option \<Rightarrow> instant \<Rightarrow> ctl \<Rightarrow> ctl" where
  "terminalize_open run_id res now c =
     (case active_attempt_for_run run_id (ct_ledger c) of
        None \<Rightarrow> c
      | Some x \<Rightarrow> c\<lparr>ct_ledger :=
          terminalize_attempt (x_attempt x) run_id (x_pipeline x) (x_generation x) res now (ct_ledger c)\<rparr>)"

definition retire_cancelled_claim_attempt :: "string \<Rightarrow> instant \<Rightarrow> ctl \<Rightarrow> ctl" where
  "retire_cancelled_claim_attempt run_id now c =
     (case tbl_find qr_run run_id (ct_queue c) of
        Some q \<Rightarrow> if qr_status q = ''cancelled'' then terminalize_open run_id (Some FAborted) now c else c
      | None \<Rightarrow> c)"

definition revert_queued_claim :: "string \<Rightarrow> instant \<Rightarrow> ctl \<Rightarrow> bool \<times> ctl" where
  "revert_queued_claim run_id now c =
     (if find (\<lambda>q. qr_run q = run_id) (get_queued_run_view c) = None
      then (False, retire_cancelled_claim_attempt run_id now c)
      else
        (case move_queued_run_row run_id ''dispatching'' ''queued'' c of
           (n, c1) \<Rightarrow> if n \<noteq> 1 then (False, c1) else (True, terminalize_open run_id None now c1)))"

definition expire_queued_run :: "string \<Rightarrow> instant \<Rightarrow> ctl \<Rightarrow> bool \<times> ctl" where
  "expire_queued_run run_id now c =
     (case find (\<lambda>q. qr_run q = run_id) (get_active_queued_runs c) of
        None \<Rightarrow> (False, c)
      | Some q \<Rightarrow>
          (case move_queued_run_row run_id ''queued'' ''expired'' c of
             (n, c1) \<Rightarrow>
               if n \<noteq> 1 then (False, c1)
               else
                 (let a = (case active_attempt_for_run run_id (ct_ledger c1) of
                             Some x \<Rightarrow> x_attempt x | None \<Rightarrow> []);
                      c2 = c1\<lparr>ct_ledger := snd (resolve_intent run_id ''expired'' a now (ct_ledger c1))\<rparr>
                  in (True, finalize_batch_result (failed_run run_id (qr_pipeline q)) c2))))"

text \<open>
  \<open>_drain_queued_runs\<close> of the reconciler, without interleaved steps of other threads: expiry first,
  then, when the pool has a healthy worker, claim and dispatch; \<open>out\<close> is the answer to the dispatch of
  each run. A claim at the next ordinal does not raise.
\<close>

datatype dispatch_answer = Accepted string | NoCapacity | DispatchFailed

definition drain_expire :: "instant \<Rightarrow> qrow \<Rightarrow> ctl \<Rightarrow> ctl" where
  "drain_expire now q c =
     (if qr_expires_at q \<le> now then snd (expire_queued_run (qr_run q) now c) else c)"

definition drain_dispatch ::
  "(string \<Rightarrow> dispatch_answer) \<Rightarrow> (string \<Rightarrow> string) \<Rightarrow> instant \<Rightarrow> qrow \<Rightarrow> ctl \<Rightarrow> ctl" where
  "drain_dispatch out fence now q c =
     (case claim_queued_run (qr_run q) (fence (qr_run q)) now c of
        (Inr (Some _), c1) \<Rightarrow>
          (case out (qr_run q) of
             Accepted url \<Rightarrow> snd (commit_queued_dispatch (qr_run q) url now c1)
           | _ \<Rightarrow> snd (revert_queued_claim (qr_run q) now c1))
      | (_, c1) \<Rightarrow> c1)"

definition drain_queued_runs ::
  "bool \<Rightarrow> (string \<Rightarrow> dispatch_answer) \<Rightarrow> (string \<Rightarrow> string) \<Rightarrow> instant \<Rightarrow> ctl \<Rightarrow> ctl" where
  "drain_queued_runs healthy out fence now c =
     (let c1 = fold (drain_expire now) (drainable_queued_runs c) c
      in if healthy then fold (drain_dispatch out fence now) (drainable_queued_runs c1) c1 else c1)"

section \<open>Batch dispatch\<close>

fun origin_str :: "origin \<Rightarrow> string" where
  "origin_str ManualRun = ''manual''"
| "origin_str ScheduledRun = ''scheduled''"

definition skip_run :: "origin \<Rightarrow> string \<Rightarrow> string \<Rightarrow> ctl \<Rightarrow> ctl" where
  "skip_run org name run_id c = (if org = ManualRun then record_skipped_manual_run name run_id c else c)"

text \<open>\<open>_execute_batch\<close> up to the dispatch; True when a dispatch follows.\<close>

definition execute_batch ::
  "origin \<Rightarrow> bool \<Rightarrow> string \<Rightarrow> string \<Rightarrow> instant \<Rightarrow> string \<Rightarrow> ctl \<Rightarrow> (cerror + bool) \<times> ctl" where
  "execute_batch org flush run_id fence now name c =
     (case dget (ct_pipes c) name of
        None \<Rightarrow> (Inr False, c\<lparr>ct_jobs := removeAll name (ct_jobs c)\<rparr>)
      | Some p \<Rightarrow>
          if pl_status p = ''running'' \<or> pl_status p = ''queued''
          then (Inr False, skip_run org name run_id c)
          else
            (let c1 = set_status name ''running'' c; g = pipeline_generation name c1 in
             case claim_for_dispatch name run_id (origin_str org) flush (pl_yaml p) (pl_sched p) 1 g
                    fence now (ct_ledger c1) of
               (Inl e, l) \<Rightarrow> (Inl (Db e), c1\<lparr>ct_ledger := l\<rparr>)
             | (Inr None, l) \<Rightarrow> (Inr False, skip_run org name run_id (c1\<lparr>ct_ledger := l\<rparr>))
             | (Inr (Some a), l) \<Rightarrow>
                 (Inr True,
                  c1\<lparr>ct_ledger := l,
                     ct_inflight := ct_inflight c @
                       [\<lparr>if_thread = ct_next c, if_pipeline = name, if_run = run_id, if_attempt = a,
                         if_generation = g, if_origin = org, if_yaml = pl_yaml p,
                         if_config = pl_config p\<rparr>],
                     ct_busy := dset name (ct_next c) (ct_busy c), ct_next := ct_next c + 1\<rparr>)))"

definition terminalize_inflight :: "inflight \<Rightarrow> final option \<Rightarrow> instant \<Rightarrow> ctl \<Rightarrow> ctl" where
  "terminalize_inflight i res now c =
     c\<lparr>ct_ledger := terminalize_attempt (if_attempt i) (if_run i) (if_pipeline i) (if_generation i)
         res now (ct_ledger c)\<rparr>"

text \<open>\<open>_execute_batch\<close> after the dispatch.\<close>

definition batch_no_capacity :: "ctl_cfg \<Rightarrow> inflight \<Rightarrow> instant \<Rightarrow> ctl \<Rightarrow> (cerror + unit) \<times> ctl" where
  "batch_no_capacity cfg i now c =
     (if if_origin i = ManualRun \<and> cc_queue_manual cfg
      then
        (case enqueue_manual_run cfg (if_pipeline i) (if_run i) (if_yaml i) now
                (terminalize_inflight i None now c) of
           (Inr _, c1) \<Rightarrow> (Inr (), c1)
         | (Inl e, c1) \<Rightarrow>
             if dhas (if_pipeline i) (ct_pipes c1)
             then (Inr (), record_skipped_manual_run (if_pipeline i) (if_run i) c1)
             else (Inl PipelineNotFound, c1))
      else (Inr (), finalize_batch_result (failed_run (if_run i) (if_pipeline i))
                      (terminalize_inflight i (Some FFailed) now c)))"

definition batch_accepted :: "inflight \<Rightarrow> string \<Rightarrow> instant \<Rightarrow> ctl \<Rightarrow> ctl" where
  "batch_accepted i url now c =
     (case dget (ct_pipes c) (if_pipeline i) of
        None \<Rightarrow> terminalize_inflight i (Some FAborted) now c
      | Some p \<Rightarrow>
          if pl_config p \<noteq> if_config i then terminalize_inflight i None now c
          else if get_run (if_run i) c \<noteq> None then c
          else add_lease (if_pipeline i) (if_run i) url
                 (c\<lparr>ct_ledger := mark_attempt_running (if_attempt i) (if_run i) (if_generation i) (ct_ledger c)\<rparr>))"

definition batch_dispatch_result ::
  "ctl_cfg \<Rightarrow> dispatch_answer \<Rightarrow> inflight \<Rightarrow> instant \<Rightarrow> ctl \<Rightarrow> (cerror + unit) \<times> ctl" where
  "batch_dispatch_result cfg out i now c =
     (case out of
        NoCapacity \<Rightarrow> batch_no_capacity cfg i now c
      | DispatchFailed \<Rightarrow>
          (Inr (), finalize_batch_result (failed_run (if_run i) (if_pipeline i))
                     (terminalize_inflight i (Some FFailed) now c))
      | Accepted url \<Rightarrow> (Inr (), batch_accepted i url now c))"

text \<open>\<open>_run_batch\<close>: its \<open>finally\<close> clause drops the dispatch marker of its own thread.\<close>

definition end_dispatch :: "inflight \<Rightarrow> ctl \<Rightarrow> ctl" where
  "end_dispatch i c =
     c\<lparr>ct_inflight := filter (\<lambda>j. if_thread j \<noteq> if_thread i) (ct_inflight c),
       ct_busy := (if dget (ct_busy c) (if_pipeline i) = Some (if_thread i)
                   then dpop (if_pipeline i) (ct_busy c) else ct_busy c)\<rparr>"

definition run_batch_dispatched ::
  "ctl_cfg \<Rightarrow> dispatch_answer \<Rightarrow> nat \<Rightarrow> instant \<Rightarrow> ctl \<Rightarrow> (cerror + unit) \<times> ctl" where
  "run_batch_dispatched cfg out th now c =
     (case find (\<lambda>i. if_thread i = th) (ct_inflight c) of
        None \<Rightarrow> (Inr (), c)
      | Some i \<Rightarrow> map_prod id (end_dispatch i) (batch_dispatch_result cfg out i now c))"

section \<open>Completion and loss\<close>

definition pop_batch_lease_for_run :: "string \<Rightarrow> string \<Rightarrow> ctl \<Rightarrow> ctl" where
  "pop_batch_lease_for_run name run_id c =
     (case dget (ct_leases c) name of
        Some ls \<Rightarrow> if ls_run ls = run_id then c\<lparr>ct_leases := dpop name (ct_leases c)\<rparr> else c
      | None \<Rightarrow> c)"

definition on_worker_run_complete :: "string \<Rightarrow> string \<Rightarrow> run_status \<Rightarrow> instant \<Rightarrow> ctl \<Rightarrow> ctl" where
  "on_worker_run_complete run_id name st now c =
     (let c1 = pop_batch_lease_for_run name run_id c
      in if get_run run_id c \<noteq> None then c1
         else finalize_batch_result \<lparr>h_run = run_id, h_pipeline = name, h_status = st\<rparr>
                (terminalize_open run_id (Some (intent_outcome st)) now c1))"

datatype complete_reply = CompleteOk | UnknownAttempt | IdentityMismatch

definition on_attempt_run_complete ::
  "string \<Rightarrow> int \<Rightarrow> string \<Rightarrow> string \<Rightarrow> run_status \<Rightarrow> instant \<Rightarrow> ctl \<Rightarrow> complete_reply \<times> ctl" where
  "on_attempt_run_complete a g run_id name st now c =
     (case get_attempt_row a (ct_ledger c) of
        None \<Rightarrow> (UnknownAttempt, c)
      | Some x \<Rightarrow>
          if x_run x \<noteq> run_id \<or> x_pipeline x \<noteq> name \<or> x_generation x \<noteq> g then (IdentityMismatch, c)
          else
            (CompleteOk,
             on_worker_run_complete run_id name st now
               (c\<lparr>ct_ledger := terminalize_attempt a run_id name g (Some (intent_outcome st)) now
                                 (ct_ledger c)\<rparr>)))"

text \<open>
  The last part of \<open>mark_active_batch_run_lost\<close>, after a probe without evidence: \<open>seen\<close> is the
  lease it read before the probe, \<open>fresh\<close> the run id drawn when there is none.
\<close>

definition mark_active_batch_run_lost ::
  "string \<Rightarrow> string option \<Rightarrow> lease option \<Rightarrow> string \<Rightarrow> instant \<Rightarrow> ctl \<Rightarrow> bool \<times> ctl" where
  "mark_active_batch_run_lost name run_id seen fresh now c =
     (if dhas name (ct_busy c) \<or> dget (ct_leases c) name \<noteq> seen then (False, c)
      else
        (let running = (case dget (ct_pipes c) name of Some p \<Rightarrow> pl_status p = ''running'' | None \<Rightarrow> False);
             c1 = c\<lparr>ct_leases := dpop name (ct_leases c)\<rparr>;
             rid = (case run_id of
                      Some (b # r) \<Rightarrow> b # r
                    | _ \<Rightarrow> (case seen of Some ls \<Rightarrow> ls_run ls | None \<Rightarrow> fresh));
             c2 = terminalize_open rid (Some FFailed) now c1
         in if seen = None \<and> \<not> running then (False, c)
            else if \<not> dhas name (ct_pipes c) then (False, c1)
            else if get_run rid c2 \<noteq> None then (True, c2)
            else (True, finalize_batch_result (failed_run rid name) c2)))"

definition adopt_active_batch_run :: "string \<Rightarrow> string \<Rightarrow> string \<Rightarrow> ctl \<Rightarrow> bool \<times> ctl" where
  "adopt_active_batch_run name run_id url c =
     (if dhas name (ct_pipes c) then (True, set_status name ''running'' (add_lease name run_id url c))
      else (False, c))"

section \<open>Lifecycle of a pipeline\<close>

definition stop_execution :: "string \<Rightarrow> ctl \<Rightarrow> ctl" where
  "stop_execution name c =
     (if dhas name (ct_pipes c)
      then set_status name ''stopped'' (c\<lparr>ct_jobs := removeAll name (ct_jobs c)\<rparr>) else c)"

definition register_pipeline ::
  "string \<Rightarrow> sched \<Rightarrow> bool \<Rightarrow> string \<Rightarrow> ctl \<Rightarrow> (cerror + unit) \<times> ctl" where
  "register_pipeline name sch en yaml c =
     (if dhas name (ct_pipes c) then (Inl PipelineExists, c)
      else
        (let c1 = ensure_desired_state name (if en then ''running'' else ''stopped'')
                    (save_pipeline name yaml (manager_register name sch en yaml c))
         in (Inr (), if en then do_schedule name c1 else c1)))"

text \<open>\<open>parsed\<close> is what the loader makes of the new YAML, None when it raises.\<close>

definition update_pipeline ::
  "(sched \<times> bool) option \<Rightarrow> string \<Rightarrow> instant \<Rightarrow> string \<Rightarrow> ctl \<Rightarrow> (cerror + unit) \<times> ctl" where
  "update_pipeline parsed yaml now name c =
     (case dget (ct_pipes c) name of
        None \<Rightarrow> (Inl PipelineNotFound, c)
      | Some p \<Rightarrow>
          if pl_yaml p = yaml then (Inr (), save_pipeline name yaml c)
          else
            (case parsed of
               None \<Rightarrow> (Inl ConfigInvalid, c)
             | Some (sch, en) \<Rightarrow>
                 (let was_active = pl_status p = ''scheduled'' \<or> pl_status p = ''running'';
                      c1 = stop_execution name c;
                      c2 = manager_register name sch en yaml (c1\<lparr>ct_pipes := dpop name (ct_pipes c1)\<rparr>);
                      c3 = bump_pipeline_generation name False (save_pipeline name yaml c2);
                      c4 = terminal_cancel_pipeline_queued name now c3;
                      c5 = c4\<lparr>ct_ledger := delete_transform_state name (ct_ledger c4)\<rparr>
                  in (Inr (), if was_active \<and> en \<and> may_schedule name c5 then do_schedule name c5 else c5))))"

definition delete_pipeline :: "instant \<Rightarrow> string \<Rightarrow> ctl \<Rightarrow> (cerror + unit) \<times> ctl" where
  "delete_pipeline now name c =
     (let c1 = stop_execution name c;
          c2 = c1\<lparr>ct_leases := dpop name (ct_leases c1)\<rparr>;
          c3 = prune_orphaned_run_intents name now (terminal_cancel_pipeline_queued name now c2)
      in if \<not> dhas name (ct_pipes c3) then (Inl PipelineNotFound, c3)
         else
           (let c4 = bump_pipeline_generation name True
                       (delete_pipeline_row name (c3\<lparr>ct_pipes := dpop name (ct_pipes c3)\<rparr>))
            in (Inr (), c4\<lparr>ct_ledger := delete_transform_state name (ct_ledger c4)\<rparr>)))"

datatype start_reply = Started | AlreadyStarted | Disabled | ManualOnly

definition start_pipeline :: "string \<Rightarrow> ctl \<Rightarrow> (cerror + start_reply) \<times> ctl" where
  "start_pipeline name c =
     (case dget (ct_pipes c) name of
        None \<Rightarrow> (Inl PipelineNotFound, c)
      | Some p \<Rightarrow>
          if pl_status p = ''running'' \<or> pl_status p = ''scheduled'' then (Inr AlreadyStarted, c)
          else
            (let c1 = set_desired_status name ''running'' (flag_stopped name False c)
             in if \<not> pl_enabled p then (Inr Disabled, set_status name ''stopped'' c1)
                else if pl_sched p = Manual then (Inr ManualOnly, set_status name ''stopped'' c1)
                else (Inr Started, do_schedule name c1)))"

definition stop_pipeline :: "instant \<Rightarrow> string \<Rightarrow> ctl \<Rightarrow> (cerror + unit) \<times> ctl" where
  "stop_pipeline now name c =
     (let c1 = terminal_cancel_pipeline_queued name now
                 (set_desired_status name ''stopped'' (flag_stopped name True (stop_execution name c)))
      in if dhas name (ct_pipes c1) then (Inr (), set_status name ''stopped'' c1)
         else (Inl PipelineNotFound, c1))"

definition restart_pipeline :: "instant \<Rightarrow> string \<Rightarrow> ctl \<Rightarrow> (cerror + unit) \<times> ctl" where
  "restart_pipeline now name c =
     (case dget (ct_pipes c) name of
        None \<Rightarrow> (Inl PipelineNotFound, c)
      | Some p \<Rightarrow>
          (let c1 = (if pl_status p = ''running'' \<or> pl_status p = ''scheduled''
                     then set_status name ''stopped'' (c\<lparr>ct_jobs := removeAll name (ct_jobs c)\<rparr>) else c);
               c2 = terminal_cancel_pipeline_queued name now (flag_stopped name False c1)
           in (Inr (), if pl_enabled p \<and> may_schedule name c2 then do_schedule name c2
                       else set_status name ''stopped'' c2)))"

text \<open>\<open>manager.rollback\<close> with the YAML of the version already read and parsed.\<close>

definition rollback_pipeline :: "sched \<Rightarrow> bool \<Rightarrow> string \<Rightarrow> string \<Rightarrow> ctl \<Rightarrow> ctl" where
  "rollback_pipeline sch en yaml name c = manager_register name sch en yaml (save_pipeline name yaml c)"

section \<open>Boot\<close>

definition reset_orphan_dispatching_queued_runs :: "ctl \<Rightarrow> ctl" where
  "reset_orphan_dispatching_queued_runs c =
     c\<lparr>ct_queue := update_where
         (\<lambda>q. qr_status q = ''dispatching'' \<and> \<not> has_open_attempt (qr_run q) (ct_ledger c))
         (\<lambda>q. q\<lparr>qr_status := ''queued''\<rparr>) (ct_queue c)\<rparr>"

definition get_non_terminal_attempts :: "ledger \<Rightarrow> attempt list" where
  "get_non_terminal_attempts l =
     sort_key (\<lambda>x. (x_run x, x_ordinal x)) (filter (\<lambda>x. live_state (x_state x)) (attempts l))"

text \<open>What the journals of the workers say about an attempt.\<close>

datatype evidence = NoReply | Completed final | Interrupted | Tombstone | ActiveOn string | Unrecognized

definition resolve_attempt_at_boot :: "evidence \<Rightarrow> instant \<Rightarrow> attempt \<Rightarrow> ctl \<Rightarrow> ctl" where
  "resolve_attempt_at_boot ev now x c =
     (let finish = (\<lambda>oc. c\<lparr>ct_ledger := terminalize_attempt (x_attempt x) (x_run x) (x_pipeline x)
                                (x_generation x) (Some oc) now (ct_ledger c)\<rparr>);
          unknown = c\<lparr>ct_ledger := mark_attempt_unknown x (ct_ledger c)\<rparr>
      in if x_state x = ''claimed'' then terminal_cancel_queued_run (x_run x) (finish FAborted)
         else
           (case ev of
              NoReply \<Rightarrow> unknown
            | Unrecognized \<Rightarrow> unknown
            | Completed oc \<Rightarrow>
                terminal_cancel_queued_run (x_run x)
                  (record_run \<lparr>h_run = x_run x, h_pipeline = x_pipeline x,
                               h_status = status_from_intent_outcome oc\<rparr> (finish oc))
            | Interrupted \<Rightarrow> terminal_cancel_queued_run (x_run x) (finish FAborted)
            | Tombstone \<Rightarrow> terminal_cancel_queued_run (x_run x) (finish FAborted)
            | ActiveOn url \<Rightarrow>
                set_status (x_pipeline x) ''running'' (add_lease (x_pipeline x) (x_run x) url c)))"

definition boot_stopped :: "ctl \<Rightarrow> string \<Rightarrow> bool" where
  "boot_stopped c name \<longleftrightarrow>
     is_pipeline_stopped name c \<or>
     (case dget (ct_desired c) name of
        Some d \<Rightarrow> ds_deleted d \<or> ds_status d = ''stopped'' | None \<Rightarrow> False)"

text \<open>The pipelines of the registry, in name order; a YAML that does not load is skipped.\<close>

definition boot_pipeline ::
  "(string \<Rightarrow> (sched \<times> bool) option) \<Rightarrow> string \<times> registered \<Rightarrow> ctl \<Rightarrow> ctl" where
  "boot_pipeline parse row c =
     (case row of
        (name, r) \<Rightarrow>
          if rg_deleted r then c
          else
            (case parse (rg_yaml r) of
               None \<Rightarrow> c
             | Some (sch, en) \<Rightarrow>
                 (let c1 = manager_register name sch en (rg_yaml r) c
                  in if boot_stopped c name then set_status name ''stopped'' c1
                     else if en then do_schedule name c1 else c1)))"

definition boot_load ::
  "(string \<Rightarrow> (sched \<times> bool) option) \<Rightarrow> (string \<Rightarrow> evidence) \<Rightarrow> instant \<Rightarrow> ctl \<Rightarrow> ctl" where
  "boot_load parse ev now c =
     (let c0 = c\<lparr>ct_pipes := [], ct_jobs := [], ct_leases := [], ct_inflight := [], ct_busy := []\<rparr>;
          c1 = reset_orphan_dispatching_queued_runs c0;
          c2 = fold (\<lambda>x. resolve_attempt_at_boot (ev (x_attempt x)) now x)
                 (get_non_terminal_attempts (ct_ledger c1)) c1
      in fold (boot_pipeline parse) (sort_key fst (ct_registry c2)) c2)"

section \<open>The controller as a machine\<close>

text \<open>
  Every step another thread can see. The run id of a batch thread comes from \<open>uuid4\<close>: a step that
  starts one with an id that already has an attempt does not occur.
\<close>

datatype cop =
    CTrigger ctl_cfg bool bool string instant string
  | CBatch origin bool string string instant string
  | CBatchDone ctl_cfg dispatch_answer nat instant
  | CClaim string string instant
  | CCommit string string instant
  | CRevert string instant
  | CExpire string instant
  | CComplete string string run_status instant
  | CAttemptComplete string int string string run_status instant
  | CLost string "string option" "lease option" string instant
  | CAdopt string string string
  | CRegister string sched bool string
  | CUpdate "(sched \<times> bool) option" string instant string
  | CDelete instant string
  | CStart string
  | CStop instant string
  | CRestart instant string
  | CRollback sched bool string string
  | CBoot "string \<Rightarrow> (sched \<times> bool) option" "string \<Rightarrow> evidence" instant

definition run_unused :: "string \<Rightarrow> ledger \<Rightarrow> bool" where
  "run_unused run_id l \<longleftrightarrow> (\<forall>x \<in> set (attempts l). x_run x \<noteq> run_id)"

fun ctl_next :: "cop \<Rightarrow> ctl \<Rightarrow> ctl" where
  "ctl_next (CTrigger cfg h ad r now name) c = snd (trigger_run cfg h ad r now name c)"
| "ctl_next (CBatch org fl r fence now name) c =
     (if run_unused r (ct_ledger c) then snd (execute_batch org fl r fence now name c) else c)"
| "ctl_next (CBatchDone cfg out th now) c = snd (run_batch_dispatched cfg out th now c)"
| "ctl_next (CClaim r fence now) c = snd (claim_queued_run r fence now c)"
| "ctl_next (CCommit r url now) c = snd (commit_queued_dispatch r url now c)"
| "ctl_next (CRevert r now) c = snd (revert_queued_claim r now c)"
| "ctl_next (CExpire r now) c = snd (expire_queued_run r now c)"
| "ctl_next (CComplete r name st now) c = on_worker_run_complete r name st now c"
| "ctl_next (CAttemptComplete a g r name st now) c = snd (on_attempt_run_complete a g r name st now c)"
| "ctl_next (CLost name r seen fresh now) c = snd (mark_active_batch_run_lost name r seen fresh now c)"
| "ctl_next (CAdopt name r url) c = snd (adopt_active_batch_run name r url c)"
| "ctl_next (CRegister name sch en yaml) c = snd (register_pipeline name sch en yaml c)"
| "ctl_next (CUpdate parsed yaml now name) c = snd (update_pipeline parsed yaml now name c)"
| "ctl_next (CDelete now name) c = snd (delete_pipeline now name c)"
| "ctl_next (CStart name) c = snd (start_pipeline name c)"
| "ctl_next (CStop now name) c = snd (stop_pipeline now name c)"
| "ctl_next (CRestart now name) c = snd (restart_pipeline now name c)"
| "ctl_next (CRollback sch en yaml name) c = rollback_pipeline sch en yaml name c"
| "ctl_next (CBoot parse ev now) c = boot_load parse ev now c"

definition empty_ctl :: ctl where
  "empty_ctl =
     \<lparr>ct_ledger = empty_ledger, ct_queue = [], ct_desired = [], ct_registry = [], ct_history = [],
      ct_pipes = [], ct_jobs = [], ct_leases = [], ct_inflight = [], ct_busy = [], ct_next = 0\<rparr>"

text \<open>The states a manager can be in.\<close>

inductive ctl_reachable :: "ctl \<Rightarrow> bool" where
  ctl_init: "ctl_reachable empty_ctl"
| ctl_more: "ctl_reachable c \<Longrightarrow> ctl_reachable (ctl_next op c)"

end
