(* ===== verification/Controller_Props.thy ===== *)
theory Controller_Props
  imports Controller Ledger_Props
begin

text \<open>
  Properties of the controller: what its steps keep of the ledger and of the queue, hence at most
  one live attempt and one active queued run per pipeline in every reachable state; that an idle
  pipeline can always be dispatched; that a stop survives a reboot; and the histories where the
  code's records disagree.
\<close>

section \<open>The batch ledger\<close>

definition live_guarded :: "ledger \<Rightarrow> bool" where
  "live_guarded l \<longleftrightarrow>
     (\<forall>x \<in> set (attempts l). live_state (x_state x) \<longrightarrow> held_by (x_pipeline x) (x_attempt x) (x_run x) l)"

definition owned :: "ledger \<Rightarrow> guard \<Rightarrow> bool" where
  "owned l g \<longleftrightarrow>
     (\<forall>a. g_attempt g = Some a \<longrightarrow>
        (\<exists>x \<in> set (attempts l). x_attempt x = a \<and> g_run g = Some (x_run x) \<and>
           x_pipeline x = g_key g \<and> x_state x \<noteq> ''terminal''))"

definition batch_ok :: "ledger \<Rightarrow> bool" where
  "batch_ok l \<longleftrightarrow> ledger_ok l \<and> live_guarded l \<and> (\<forall>g \<in> set (guards l). owned l g)"

type_synonym attempt_ident = "string \<times> string \<times> string \<times> int"

definition ident :: "attempt \<Rightarrow> attempt_ident" where
  "ident x = (x_attempt x, x_run x, x_pipeline x, x_generation x)"

text \<open>What a statement sequence may do: keep the invariant and every attempt's identity.\<close>

definition keeps :: "ledger \<Rightarrow> ledger \<Rightarrow> bool" where
  "keeps l l' \<longleftrightarrow> batch_ok l' \<and> ident ` set (attempts l) \<subseteq> ident ` set (attempts l')"

lemma keeps_refl [simp]: "keeps l l \<longleftrightarrow> batch_ok l"
  by (simp add: keeps_def)

lemma keeps_trans: "keeps l l1 \<Longrightarrow> (batch_ok l1 \<Longrightarrow> keeps l1 l2) \<Longrightarrow> keeps l l2"
  by (auto simp: keeps_def)

lemma keeps_batch_ok: "keeps l l' \<Longrightarrow> batch_ok l'"
  by (simp add: keeps_def)

lemma held_by_cong [simp]:
  "held_by key a r (l\<lparr>attempts := xs\<rparr>) = held_by key a r l"
  "held_by key a r (l\<lparr>intents := is\<rparr>) = held_by key a r l"
  "held_by key a r (l\<lparr>tstates := ts\<rparr>) = held_by key a r l"
  by (simp_all add: held_by_def)

lemma keeps_intents: "batch_ok l \<Longrightarrow> pk_ok i_run is \<Longrightarrow> keeps l (l\<lparr>intents := is\<rparr>)"
  by (auto simp: keeps_def batch_ok_def ledger_ok_def live_guarded_def owned_def)

lemma keeps_drop_state: "batch_ok l \<Longrightarrow> keeps l (delete_transform_state p l)"
  by (auto simp: keeps_def batch_ok_def ledger_ok_def live_guarded_def owned_def
      delete_transform_state_def)

lemma batch_intents: "batch_ok l \<Longrightarrow> pk_ok i_run (intents l)"
  by (simp add: batch_ok_def ledger_ok_def)

lemma keeps_resolve: "batch_ok l \<Longrightarrow> keeps l (snd (resolve_intent r oc a now l))"
  by (simp add: resolve_intent_def Let_def keeps_intents batch_intents)

lemma keeps_ensure: "batch_ok l \<Longrightarrow> keeps l (snd (ensure_run_intent i l))"
  using batch_intents [of l]
  by (auto simp: ensure_run_intent_def intro!: keeps_intents)

lemma changed_row: "x \<in> set t \<Longrightarrow> (if P x then f x else x) \<in> set (update_where P f t)"
  by (auto simp: set_update_where)

lemma updated_row:
  "x \<in> set (update_where P f t) \<Longrightarrow> (\<exists>y \<in> set t. P y \<and> x = f y) \<or> x \<in> set t \<and> \<not> P x"
  by (auto simp: set_update_where split: if_splits)

lemma kept_row: "x \<in> set t \<Longrightarrow> \<not> P x \<Longrightarrow> x \<in> set (update_where P f t)"
  by (force simp: set_update_where)

lemma ident_relabel: "ident ` set (update_where P (\<lambda>x. x\<lparr>x_state := s\<rparr>) t) = ident ` set t"
proof -
  have "map ident (update_where P (\<lambda>x. x\<lparr>x_state := s\<rparr>) t) = map ident t"
    by (rule map_update_where) (simp add: ident_def)
  then show ?thesis by (metis set_map)
qed

text \<open>A new state for live attempts that is not the terminal one.\<close>

lemma keeps_relabel:
  assumes ok: "batch_ok l" and live: "\<And>x. P x \<Longrightarrow> live_state (x_state x)" and s: "s \<noteq> ''terminal''"
  shows "keeps l (l\<lparr>attempts := update_where P (\<lambda>x. x\<lparr>x_state := s\<rparr>) (attempts l)\<rparr>)"
proof -
  let ?l = "l\<lparr>attempts := update_where P (\<lambda>x. x\<lparr>x_state := s\<rparr>) (attempts l)\<rparr>"
  have "ledger_ok ?l" using ok by (auto simp: batch_ok_def ledger_ok_def set_update_where)
  moreover have "live_guarded ?l"
    using ok live by (auto simp: batch_ok_def live_guarded_def dest!: updated_row)
  moreover have "owned ?l g" if own: "owned l g" for g
    unfolding owned_def
  proof (intro allI impI)
    fix a assume "g_attempt g = Some a"
    then obtain x where x: "x \<in> set (attempts l)" "x_attempt x = a" "g_run g = Some (x_run x)"
      "x_pipeline x = g_key g" "x_state x \<noteq> ''terminal''" using own unfolding owned_def by blast
    let ?x = "if P x then x\<lparr>x_state := s\<rparr> else x"
    have "?x \<in> set (attempts ?l)" using changed_row [OF x(1), of P] by simp
    moreover have "x_attempt ?x = a" "g_run g = Some (x_run ?x)" "x_pipeline ?x = g_key g"
      "x_state ?x \<noteq> ''terminal''" using x s by simp_all
    ultimately show "\<exists>x\<in>set (attempts ?l). x_attempt x = a \<and> g_run g = Some (x_run x) \<and>
        x_pipeline x = g_key g \<and> x_state x \<noteq> ''terminal''" by blast
  qed
  moreover have "ident ` set (attempts l) \<subseteq> ident ` set (attempts ?l)"
    by (simp add: ident_relabel)
  ultimately show ?thesis using ok by (simp add: keeps_def batch_ok_def)
qed

lemma keeps_transition:
  "batch_ok l \<Longrightarrow> live_state s \<Longrightarrow> t \<noteq> ''terminal'' \<Longrightarrow> keeps l (snd (transition_attempt a r s t g l))"
  by (auto simp: transition_attempt_def Let_def intro!: keeps_relabel)

lemma live_states [simp]: "live_state ''claimed''" "live_state ''dispatching''" "live_state ''running''"
  "\<not> live_state ''terminal''" "\<not> live_state ''unknown''"
  by (simp_all add: live_state_def)

lemma keeps_dispatching: "batch_ok l \<Longrightarrow> keeps l (mark_attempt_dispatching a r g l)"
  unfolding mark_attempt_dispatching_def by (rule keeps_transition) simp_all

lemma keeps_running: "batch_ok l \<Longrightarrow> keeps l (mark_attempt_running a r g l)"
  unfolding mark_attempt_running_def by (rule keeps_transition) simp_all

lemma keeps_unknown: "batch_ok l \<Longrightarrow> keeps l (mark_attempt_unknown x l)"
  unfolding mark_attempt_unknown_def by (rule keeps_relabel) auto

text \<open>A fence that names a row by its identity covers every row of that attempt and run.\<close>

definition names_row :: "string \<Rightarrow> string \<Rightarrow> string \<Rightarrow> int \<Rightarrow> ledger \<Rightarrow> bool" where
  "names_row a r p g l \<longleftrightarrow>
     (\<forall>x \<in> set (attempts l). x_attempt x = a \<longrightarrow> x_run x = r \<longrightarrow> x_generation x = g \<and> x_pipeline x = p)"

lemma ident_names:
  assumes "batch_ok l" "(a, r, p, g) \<in> ident ` set (attempts l)"
  shows "names_row a r p g l"
proof -
  obtain y where y: "y \<in> set (attempts l)" "x_attempt y = a" "x_run y = r" "x_pipeline y = p" "x_generation y = g"
    using assms(2) by (auto simp: ident_def)
  have "x = y" if "x \<in> set (attempts l)" "x_attempt x = a" for x
  proof (rule pk_ok_eq [of x_attempt "attempts l"])
    show "pk_ok x_attempt (attempts l)" using assms(1) by (simp add: batch_ok_def ledger_ok_def)
  qed (use y that in simp_all)
  then show ?thesis using y unfolding names_row_def by metis
qed

lemma release_held:
  "held_by key a' r' l \<Longrightarrow> \<not> (a' = a \<and> r' = r) \<Longrightarrow> held_by key a' r' (snd (release_guard p a r l))"
  using ledger_step_held [of key a' r' l "LRelease p a r"] by auto

lemma release_fields [simp]:
  "attempts (snd (release_guard p a r l)) = attempts l"
  by (simp add: release_guard_def Let_def)

lemma release_guards:
  "g \<in> set (guards (snd (release_guard p a r l))) \<Longrightarrow>
     g_attempt g = None \<or> g \<in> set (guards l) \<and> \<not> (g_key g = p \<and> g_attempt g = Some a \<and> g_run g = Some r)"
  by (auto simp: release_guard_def Let_def set_update_where)

lemma keeps_terminal_release:
  assumes ok: "batch_ok l" and row: "names_row a r p g l"
  defines "l1 \<equiv> l\<lparr>attempts := update_where
      (\<lambda>x. x_attempt x = a \<and> x_run x = r \<and> x_generation x = g \<and> live_state (x_state x))
      (\<lambda>x. x\<lparr>x_state := ''terminal''\<rparr>) (attempts l)\<rparr>"
  shows "keeps l (snd (release_guard p a r l1))"
proof -
  let ?l = "snd (release_guard p a r l1)"
  have "ledger_ok l1" using ok by (auto simp: l1_def batch_ok_def ledger_ok_def set_update_where)
  then have "ledger_ok ?l" using ledger_step_ok [of l1 "LRelease p a r"] by simp
  moreover have "live_guarded ?l"
    unfolding live_guarded_def
  proof (intro ballI impI)
    fix x assume "x \<in> set (attempts ?l)" and live: "live_state (x_state x)"
    then have "x \<in> set (attempts l) \<and>
      \<not> (x_attempt x = a \<and> x_run x = r \<and> x_generation x = g \<and> live_state (x_state x))"
      unfolding l1_def release_fields by (auto dest!: updated_row)
    then have x: "x \<in> set (attempts l)" "live_state (x_state x)" "\<not> (x_attempt x = a \<and> x_run x = r)"
      using row live by (auto simp: names_row_def)
    then have "held_by (x_pipeline x) (x_attempt x) (x_run x) l1"
      using ok by (auto simp: l1_def batch_ok_def live_guarded_def)
    then show "held_by (x_pipeline x) (x_attempt x) (x_run x) ?l" using x(3) by (rule release_held)
  qed
  moreover have "owned ?l h" if "h \<in> set (guards ?l)" for h
  proof (cases "g_attempt h")
    case (Some b)
    with release_guards [OF that] have h: "h \<in> set (guards l)"
      "\<not> (g_key h = p \<and> b = a \<and> g_run h = Some r)" by (auto simp: l1_def)
    then obtain x where x: "x \<in> set (attempts l)" "x_attempt x = b" "g_run h = Some (x_run x)"
      "x_pipeline x = g_key h" "x_state x \<noteq> ''terminal''" using ok Some by (auto simp: batch_ok_def owned_def)
    then have "\<not> (x_attempt x = a \<and> x_run x = r)" using h(2) row by (auto simp: names_row_def)
    then have "x \<in> set (attempts ?l)" using x(1) by (auto simp: l1_def intro!: kept_row)
    then show ?thesis using x Some by (auto simp: owned_def intro!: bexI [of _ x])
  qed (simp add: owned_def)
  moreover have "ident ` set (attempts l) \<subseteq> ident ` set (attempts ?l)"
    by (simp add: l1_def ident_relabel)
  ultimately show ?thesis by (simp add: keeps_def batch_ok_def)
qed

lemma release_resolve:
  "snd (release_guard p a r (snd (resolve_intent r' oc a' now l))) =
     snd (resolve_intent r' oc a' now (snd (release_guard p a r l)))"
  by (simp add: release_guard_def resolve_intent_def Let_def)

lemma keeps_terminalize:
  assumes "batch_ok l" "names_row a r p g l"
  shows "keeps l (terminalize_attempt a r p g res now l)"
proof (cases res)
  case None
  then show ?thesis using keeps_terminal_release [OF assms] by (simp add: terminalize_attempt_def)
next
  case (Some oc)
  from keeps_trans [OF keeps_terminal_release [OF assms] keeps_resolve] show ?thesis
    unfolding terminalize_attempt_def Let_def Some option.case release_resolve .
qed

text \<open>Claims.\<close>

lemma claimed_ledger_holds:
  assumes "ledger_ok l" "claim_possible q l"
  shows "held_by (q_guard_key q) (q_attempt q) (q_run q) (claimed_ledger q fence now l)"
proof -
  have kind: "q_guard_kind q \<in> set guard_kinds" using assms(2) by (simp add: claim_possible_def)
  have run: "claim_run q fence now l = (Inr (outcome q CLAIMED (Some fence)), claimed_ledger q fence now l)"
    by (rule claim_run_possible [OF assms(2)])
  have st: "co_status (outcome q CLAIMED (Some fence)) = CLAIMED" by (simp add: outcome_def)
  from claim_run_spec [OF assms(1) kind, of fence now] show ?thesis
    unfolding run fst_conv snd_conv using st by (simp split: if_split_asm)
qed

lemma claimed_guards:
  assumes "g \<in> set (guards (claimed_ledger q fence now l))" "g_attempt g = Some a"
  shows "g \<in> set (guards l) \<or> g_key g = q_guard_key q \<and> a = q_attempt q \<and> g_run g = Some (q_run q)"
proof -
  let ?free = "free_guard (q_guard_key q) (q_guard_kind q)"
  have "g \<in> set (update_where (guard_free (q_guard_key q)) (take_guard q now)
      (insert_ignore g_key ?free (guards l)))" using assms(1) by (simp add: claimed_ledger_def)
  from updated_row [OF this] show ?thesis
  proof
    assume "\<exists>y \<in> set (insert_ignore g_key ?free (guards l)). guard_free (q_guard_key q) y \<and> g = take_guard q now y"
    then show ?thesis using assms(2) by (auto simp: guard_free_def take_guard_def)
  next
    assume "g \<in> set (insert_ignore g_key ?free (guards l)) \<and> \<not> guard_free (q_guard_key q) g"
    then have "g \<in> set (guards l) \<or> g = ?free" by (simp add: insert_ignore_def split: if_splits) blast
    moreover have "g \<noteq> ?free" using assms(2) by (auto simp: free_guard_def)
    ultimately show ?thesis by blast
  qed
qed

lemma keeps_claimed:
  assumes ok: "batch_ok l" and q: "q_guard_key q = q_pipeline q" and possible: "claim_possible q l"
  shows "keeps l (claimed_ledger q fence now l)"
proof -
  let ?l = "claimed_ledger q fence now l"
  have lok: "ledger_ok l" using ok by (simp add: batch_ok_def)
  have att: "attempts ?l = attempts l @ [new_attempt q fence]" by (simp add: claimed_ledger_def)
  have "ledger_ok ?l" using claim_run_ok [OF lok, of q fence now] claim_run_possible [OF possible] by simp
  moreover have "live_guarded ?l"
    using ok claimed_ledger_held claimed_ledger_holds [OF lok possible] q
    by (auto simp: live_guarded_def batch_ok_def att new_attempt_def)
  moreover have "owned ?l g" if "g \<in> set (guards ?l)" for g
    unfolding owned_def
  proof (intro allI impI)
    fix a assume a: "g_attempt g = Some a"
    from claimed_guards [OF that a]
    show "\<exists>x\<in>set (attempts ?l). x_attempt x = a \<and> g_run g = Some (x_run x) \<and>
        x_pipeline x = g_key g \<and> x_state x \<noteq> ''terminal''"
    proof
      assume "g \<in> set (guards l)"
      then have "owned l g" using ok by (simp add: batch_ok_def)
      then show ?thesis using a unfolding owned_def att by fastforce
    qed (simp add: att new_attempt_def q)
  qed
  ultimately show ?thesis by (auto simp: keeps_def batch_ok_def att)
qed

text \<open>A claim for an attempt that has no row yet is granted as new or refused.\<close>

lemma claim_run_fresh:
  assumes ok: "batch_ok l" and q: "q_guard_key q = q_pipeline q"
    and new: "\<not> tbl_has x_attempt (q_attempt q) (attempts l)"
    and claim: "claim_run q fence now l = (Inr oc, l')"
  shows "co_status oc = CLAIMED \<and> co_attempt oc = q_attempt q \<and> l' = claimed_ledger q fence now l \<and>
      keeps l l' \<or> co_status oc \<in> {LOST, NO_INTENT} \<and> l' = l"
proof (cases "claim_possible q l")
  case True
  then show ?thesis using claim claim_run_possible [OF True, of fence now] keeps_claimed [OF ok q True]
    by (auto simp: outcome_def)
next
  case False
  have "co_status oc \<noteq> ALREADY_HELD"
  proof
    assume "co_status oc = ALREADY_HELD"
    then obtain h where "tbl_find g_key (q_guard_key q) (insert_ignore g_key
          (free_guard (q_guard_key q) (q_guard_kind q)) (guards l)) = Some h" "g_attempt h = Some (q_attempt q)"
      using claim
      by (auto simp: claim_run_def in_claim_txn_def claim_txn_def Let_def outcome_def
          split: sum.splits if_splits option.splits)
    then have "h \<in> set (guards l)" "g_attempt h = Some (q_attempt q)"
      by (auto simp: insert_ignore_def free_guard_def dest!: tbl_find_SomeD split: if_splits)
    then show False using ok new unfolding batch_ok_def owned_def tbl_has_def by blast
  qed
  moreover have "l' = l" "co_status oc \<noteq> CLAIMED"
    using claim claim_run_impossible [OF False, of fence now] by auto
  ultimately show ?thesis by (cases "co_status oc") auto
qed

lemma claim_for_dispatch_keeps:
  assumes ok: "batch_ok l" and new: "\<not> tbl_has x_attempt (mint_attempt_id r n) (attempts l)"
    and claim: "claim_for_dispatch name r org flush yaml sch n g fence now l = (res, l')"
  shows "keeps l l' \<and> (\<forall>a. res = Inr (Some a) \<longrightarrow> (a, r, name, g) \<in> ident ` set (attempts l'))"
proof -
  obtain e l1 where e: "ensure_run_intent (mk_intent r name org flush now None g yaml sch) l = (e, l1)"
    by fastforce
  have k1: "keeps l l1" using keeps_ensure [OF ok] e by (metis snd_conv)
  have new1: "\<not> tbl_has x_attempt (mint_attempt_id r n) (attempts l1)"
    using e new by (auto simp: ensure_run_intent_def split: if_splits)
  define q where "q = \<lparr>q_guard_key = name, q_guard_kind = ''batch'', q_pipeline = name, q_run = r,
    q_generation = g, q_ordinal = n, q_slot = [], q_yaml_snapshot = Some yaml\<rparr>"
  obtain d l2 where d: "claim_run q fence now l1 = (d, l2)" by fastforce
  show ?thesis
  proof (cases "\<exists>u oc. e = Inr u \<and> d = Inr oc")
    case False
    have "l2 = l1" if "d = Inl y" for y using that d
      by (auto simp: claim_run_def in_claim_txn_def split: sum.splits if_splits)
    then show ?thesis using False claim k1
      by (cases e; cases d) (auto simp: claim_for_dispatch_def e d [unfolded q_def])
  next
    case True
    then obtain u oc where eq: "e = Inr u" "d = Inr oc" by blast
    have "(co_status oc = CLAIMED \<and> co_attempt oc = mint_attempt_id r n \<and>
        l2 = claimed_ledger q fence now l1 \<and> keeps l1 l2) \<or> (co_status oc \<in> {LOST, NO_INTENT} \<and> l2 = l1)"
      using claim_run_fresh [OF keeps_batch_ok [OF k1], of q fence now oc l2] d eq new1 by (simp add: q_def)
    then show ?thesis
    proof (elim disjE conjE)
      assume c: "co_status oc = CLAIMED" "co_attempt oc = mint_attempt_id r n"
        "l2 = claimed_ledger q fence now l1" "keeps l1 l2"
      then have res: "res = Inr (Some (mint_attempt_id r n))"
        "l' = mark_attempt_dispatching (mint_attempt_id r n) r g l2"
        using claim by (auto simp: claim_for_dispatch_def e d [unfolded q_def] eq)
      have k: "keeps l2 l'" using keeps_dispatching keeps_batch_ok [OF c(4)] res by simp
      have "(mint_attempt_id r n, r, name, g) \<in> ident ` set (attempts l2)"
        by (auto simp: c(3) claimed_ledger_def new_attempt_def ident_def q_def)
      then have "(mint_attempt_id r n, r, name, g) \<in> ident ` set (attempts l')"
        using k unfolding keeps_def by blast
      moreover have "keeps l l'" using keeps_trans [OF keeps_trans [OF k1 c(4)] k] .
      ultimately show ?thesis using res(1) by simp
    next
      assume "co_status oc \<in> {LOST, NO_INTENT}" "l2 = l1"
      then have "res = Inr None \<and> l' = l1"
        using claim by (simp add: claim_for_dispatch_def e d [unfolded q_def] eq)
      then show ?thesis using k1 by simp
    qed
  qed
qed

section \<open>The invariant of the controller\<close>

definition queue_ok :: "qrow list \<Rightarrow> bool" where
  "queue_ok q \<longleftrightarrow> pk_ok qr_run q \<and>
     (\<forall>x \<in> set q. \<forall>y \<in> set q. q_active x \<longrightarrow> q_active y \<longrightarrow> qr_pipeline x = qr_pipeline y \<longrightarrow> x = y)"

definition inflight_ok :: "ledger \<Rightarrow> inflight list \<Rightarrow> bool" where
  "inflight_ok l fs \<longleftrightarrow>
     (\<forall>i \<in> set fs. (if_attempt i, if_run i, if_pipeline i, if_generation i) \<in> ident ` set (attempts l))"

definition ctl_ok :: "ctl \<Rightarrow> bool" where
  "ctl_ok c \<longleftrightarrow> batch_ok (ct_ledger c) \<and> queue_ok (ct_queue c) \<and> inflight_ok (ct_ledger c) (ct_inflight c)"

lemma ctl_okI:
  assumes "ctl_ok c" "keeps (ct_ledger c) (ct_ledger c')" "queue_ok (ct_queue c')"
    "set (ct_inflight c') \<subseteq> set (ct_inflight c)"
  shows "ctl_ok c'"
  using assms unfolding ctl_ok_def keeps_def inflight_ok_def by blast

lemma ctl_okD: "ctl_ok c \<Longrightarrow> batch_ok (ct_ledger c)" "ctl_ok c \<Longrightarrow> queue_ok (ct_queue c)"
  by (simp_all add: ctl_ok_def)

text \<open>A state with the same ledger, queue and threads.\<close>

definition same_core :: "ctl \<Rightarrow> ctl \<Rightarrow> bool" where
  "same_core c c' \<longleftrightarrow>
     ct_ledger c' = ct_ledger c \<and> ct_queue c' = ct_queue c \<and> ct_inflight c' = ct_inflight c"

lemma same_core_ok: "same_core c c' \<Longrightarrow> ctl_ok c' \<longleftrightarrow> ctl_ok c"
  by (simp add: same_core_def ctl_ok_def)

lemma set_status_core [simp]:
  "ct_ledger (set_status n s c) = ct_ledger c" "ct_queue (set_status n s c) = ct_queue c"
  "ct_inflight (set_status n s c) = ct_inflight c"
  by (simp_all add: set_status_def split: option.split)

lemma desired_core [simp]:
  "same_core c (ensure_desired_state n s c)" "same_core c (set_desired_status n s c)"
  "same_core c (bump_pipeline_generation n b c)" "same_core c (flag_stopped n b c)"
  "same_core c (save_pipeline n y c)" "same_core c (delete_pipeline_row n c)"
  "same_core c (manager_register n sch en y c)" "same_core c (record_run h c)"
  "same_core c (add_lease n r u c)" "same_core c (pop_batch_lease_for_run n r c)"
  "same_core c (stop_execution n c)" "same_core c (do_schedule n c)"
  by (simp_all add: same_core_def ensure_desired_state_def set_desired_status_def
      bump_pipeline_generation_def flag_stopped_def save_pipeline_def delete_pipeline_row_def
      manager_register_def record_run_def add_lease_def pop_batch_lease_for_run_def stop_execution_def
      do_schedule_def Let_def split: option.split)

lemma same_core_eqs:
  "same_core c c' \<Longrightarrow> ct_ledger c' = ct_ledger c" "same_core c c' \<Longrightarrow> ct_queue c' = ct_queue c"
  "same_core c c' \<Longrightarrow> ct_inflight c' = ct_inflight c"
  by (simp_all add: same_core_def)

lemmas ledger_same [simp] = desired_core [THEN same_core_eqs(1)]
lemmas queue_same [simp] = desired_core [THEN same_core_eqs(2)]
lemmas inflight_same [simp] = desired_core [THEN same_core_eqs(3)]

lemma finalize_core [simp]:
  "ct_ledger (finalize_batch_result h c) = ct_ledger c" "ct_queue (finalize_batch_result h c) = ct_queue c"
  "ct_inflight (finalize_batch_result h c) = ct_inflight c"
  by (simp_all add: finalize_batch_result_def on_run_complete_status_def split: option.split)

lemma skip_run_core [simp]:
  "ct_ledger (skip_run g n r c) = ct_ledger c" "ct_queue (skip_run g n r c) = ct_queue c"
  "ct_inflight (skip_run g n r c) = ct_inflight c"
  by (simp_all add: skip_run_def record_skipped_manual_run_def)

lemma skipped_core [simp]: "same_core c (record_skipped_manual_run n r c)"
  by (simp add: record_skipped_manual_run_def)

lemmas skipped_same [simp] = skipped_core [THEN same_core_eqs(1)] skipped_core [THEN same_core_eqs(2)]
  skipped_core [THEN same_core_eqs(3)]

text \<open>What the queue statements keep.\<close>

lemma queue_relabel:
  assumes ok: "queue_ok q" and act: "\<And>x. P x \<Longrightarrow> q_active x"
    and f: "\<And>x. qr_run (f x) = qr_run x" "\<And>x. qr_pipeline (f x) = qr_pipeline x"
  shows "queue_ok (update_where P f q)"
proof -
  have orig: "\<exists>y \<in> set q. x = (if P y then f y else y) \<and> (q_active x \<longrightarrow> q_active y) \<and> qr_pipeline x = qr_pipeline y"
    if "x \<in> set (update_where P f q)" for x
    using updated_row [OF that] act f(2) by (metis (mono_tags))
  have "x = y" if "x \<in> set (update_where P f q)" "y \<in> set (update_where P f q)" "q_active x" "q_active y"
    "qr_pipeline x = qr_pipeline y" for x y
    using orig [OF that(1)] orig [OF that(2)] that(3-5) ok unfolding queue_ok_def by metis
  then show ?thesis using ok f(1) unfolding queue_ok_def by simp
qed

lemma queue_append:
  assumes "queue_ok q" "\<forall>x \<in> set q. q_active x \<longrightarrow> qr_pipeline x \<noteq> qr_pipeline r"
  shows "queue_ok (upsert qr_run r (\<lambda>_. r) q)"
proof -
  have new: "set (upsert qr_run r (\<lambda>_. r) q) \<subseteq> insert r (set q)"
    by (auto simp: upsert_def set_update_where)
  have "pk_ok qr_run (upsert qr_run r (\<lambda>_. r) q)"
  proof (cases "tbl_has qr_run (qr_run r) q")
    case True
    have "map qr_run (update_where (\<lambda>x. qr_run x = qr_run r) (\<lambda>_. r) q) = map qr_run q"
      by (induction q) simp_all
    then show ?thesis using True assms(1) by (simp add: upsert_def pk_ok_def queue_ok_def)
  qed (use assms(1) in \<open>simp add: upsert_def queue_ok_def\<close>)
  then show ?thesis using new assms unfolding queue_ok_def by (metis insertE subsetD)
qed

lemma queue_move: "queue_ok (ct_queue c) \<Longrightarrow> s = ''queued'' \<or> s = ''dispatching'' \<Longrightarrow>
    queue_ok (ct_queue (snd (move_queued_run_row r s t c)))"
  by (auto simp: move_queued_run_row_def Let_def q_active_def intro!: queue_relabel)

lemma move_core [simp]:
  "ct_ledger (snd (move_queued_run_row r s t c)) = ct_ledger c"
  "ct_inflight (snd (move_queued_run_row r s t c)) = ct_inflight c"
  by (simp_all add: move_queued_run_row_def Let_def)

lemma move_ok: "ctl_ok c \<Longrightarrow> s = ''queued'' \<or> s = ''dispatching'' \<Longrightarrow>
    ctl_ok (snd (move_queued_run_row r s t c))"
  by (rule ctl_okI [of c]) (simp_all add: ctl_okD queue_move)

lemma cancel_run_ok: "ctl_ok c \<Longrightarrow> ctl_ok (terminal_cancel_queued_run r c)"
  by (rule ctl_okI) (auto simp: terminal_cancel_queued_run_def ctl_okD intro!: queue_relabel)

lemma dispatched_ok: "ctl_ok c \<Longrightarrow> ctl_ok (mark_queued_run_dispatched r now c)"
  by (rule ctl_okI) (auto simp: mark_queued_run_dispatched_def ctl_okD q_active_def intro!: queue_relabel)

lemma cancel_pipeline_ok: "ctl_ok c \<Longrightarrow> ctl_ok (terminal_cancel_pipeline_queued n now c)"
  by (rule ctl_okI)
    (auto simp: terminal_cancel_pipeline_queued_def Let_def ctl_okD batch_intents
      intro!: queue_relabel keeps_intents)

lemma prune_ok: "ctl_ok c \<Longrightarrow> ctl_ok (prune_orphaned_run_intents n now c)"
  by (rule ctl_okI)
    (auto simp: prune_orphaned_run_intents_def Let_def ctl_okD batch_intents intro!: keeps_intents)

lemma reset_orphans_ok: "ctl_ok c \<Longrightarrow> ctl_ok (reset_orphan_dispatching_queued_runs c)"
  by (rule ctl_okI)
    (auto simp: reset_orphan_dispatching_queued_runs_def ctl_okD q_active_def intro!: queue_relabel)

lemma ledger_ok_step: "ctl_ok c \<Longrightarrow> keeps (ct_ledger c) l \<Longrightarrow> ctl_ok (c\<lparr>ct_ledger := l\<rparr>)"
  by (rule ctl_okI [of c]) (simp_all add: ctl_okD)

lemma active_attempt_row:
  assumes "active_attempt_for_run r l = Some x"
  shows "x \<in> set (attempts l) \<and> x_run x = r \<and> x_state x \<noteq> ''terminal''"
proof -
  have fold_mem: "foldl (\<lambda>b y. if x_ordinal b < x_ordinal y then y else b) b ys \<in> insert b (set ys)"
    for b :: attempt and ys
  proof (induction ys arbitrary: b)
    case (Cons y ys)
    show ?case using Cons.IH [of y] Cons.IH [of b] by auto
  qed simp
  let ?f = "filter (\<lambda>x. x_run x = r \<and> x_state x \<noteq> ''terminal'') (attempts l)"
  obtain y ys where f: "?f = y # ys" using assms by (cases ?f) (simp_all add: active_attempt_for_run_def)
  then have "x \<in> set (y # ys)" using assms fold_mem [of y ys] by (simp add: active_attempt_for_run_def)
  then have "x \<in> set ?f" by (simp only: f)
  then show ?thesis by simp
qed

lemma row_names: "batch_ok l \<Longrightarrow> x \<in> set (attempts l) \<Longrightarrow>
    names_row (x_attempt x) (x_run x) (x_pipeline x) (x_generation x) l"
  by (rule ident_names) (auto simp: ident_def)

lemma terminalize_open_ok: "ctl_ok c \<Longrightarrow> ctl_ok (terminalize_open r res now c)"
proof (cases "active_attempt_for_run r (ct_ledger c)")
  case (Some x)
  assume ok: "ctl_ok c"
  have "names_row (x_attempt x) r (x_pipeline x) (x_generation x) (ct_ledger c)"
    using row_names [OF ctl_okD(1) [OF ok]] active_attempt_row [OF Some] by metis
  then show ?thesis using keeps_terminalize ctl_okD(1) [OF ok] ok Some
    by (simp add: terminalize_open_def ledger_ok_step)
qed (simp add: terminalize_open_def)

lemma terminalize_inflight_ok:
  assumes ok: "ctl_ok c" and i: "i \<in> set (ct_inflight c)"
  shows "ctl_ok (terminalize_inflight i res now c)"
proof -
  have "names_row (if_attempt i) (if_run i) (if_pipeline i) (if_generation i) (ct_ledger c)"
    using ok i by (auto simp: ctl_ok_def inflight_ok_def intro!: ident_names)
  then show ?thesis
    using keeps_terminalize ctl_okD(1) [OF ok] ok by (simp add: terminalize_inflight_def ledger_ok_step)
qed

lemma no_active_row:
  assumes "get_active_queued_run_for_pipeline n c = None"
  shows "\<forall>x \<in> set (ct_queue c). q_active x \<longrightarrow> qr_pipeline x \<noteq> n"
proof -
  have "sort_key qr_requested_at (filter (\<lambda>q. qr_pipeline q = n \<and> q_active q) (ct_queue c)) = []"
    using assms by (simp add: get_active_queued_run_for_pipeline_def split: list.splits)
  then have "set (filter (\<lambda>q. qr_pipeline q = n \<and> q_active q) (ct_queue c)) = {}"
    by (metis set_sort set_empty)
  then show ?thesis by auto
qed

lemma status_ok [simp]: "ctl_ok (set_status n s c) \<longleftrightarrow> ctl_ok c"
  by (simp add: ctl_ok_def)

lemma finalize_ok [simp]: "ctl_ok (finalize_batch_result h c) \<longleftrightarrow> ctl_ok c"
  by (simp add: ctl_ok_def)

lemma skip_ok [simp]: "ctl_ok (skip_run g n r c) \<longleftrightarrow> ctl_ok c"
  by (simp add: ctl_ok_def)

lemmas core_ok [simp] = desired_core [THEN same_core_ok] skipped_core [THEN same_core_ok]

lemma enqueue_ok:
  assumes ok: "ctl_ok c"
  shows "ctl_ok (snd (enqueue_manual_run cfg n r y now c))"
proof (cases "get_active_queued_run_for_pipeline n c = None \<and> reject_queue_over_capacity cfg y c = None")
  case True
  let ?q = "\<lparr>qr_run = r, qr_pipeline = n, qr_yaml = y, qr_status = ''queued'', qr_requested_at = now,
      qr_expires_at = now + 1000000 * cc_ttl cfg, qr_dispatched_at = None\<rparr>"
  have "ctl_ok (save_queued_run ?q c)"
    using ctl_okD [OF ok] no_active_row [of n c] True
    by (intro ctl_okI [OF ok]) (simp_all add: save_queued_run_def queue_append)
  moreover have "ct_ledger (save_queued_run ?q c) = ct_ledger c" by (simp add: save_queued_run_def)
  ultimately show ?thesis using True keeps_ensure [OF ctl_okD(1) [OF ok]]
    by (auto simp: enqueue_manual_run_def Let_def intro!: ledger_ok_step)
qed (use ok in \<open>auto simp: enqueue_manual_run_def split: option.split\<close>)

lemma enqueue_inflight [simp]:
  "ct_inflight (snd (enqueue_manual_run cfg n r y now c)) = ct_inflight c"
  by (simp add: enqueue_manual_run_def save_queued_run_def Let_def split: option.split)

lemma trigger_ok: "ctl_ok c \<Longrightarrow> ctl_ok (snd (trigger_run cfg h ad r now n c))"
proof (cases "dget (ct_pipes c) n")
  case (Some p)
  assume ok: "ctl_ok c"
  obtain res c' where enq: "enqueue_manual_run cfg n r (pl_yaml p) now c = (res, c')" by fastforce
  have "ctl_ok c'" using enqueue_ok [OF ok, of cfg n r "pl_yaml p" now] enq by simp
  then show ?thesis using ok Some by (simp add: trigger_run_def enq split: option.split sum.split bool.split)
qed (simp add: trigger_run_def)

lemma new_attempt_row:
  assumes "batch_ok l" "\<forall>x \<in> set (attempts l). x_run x = r \<longrightarrow> x_ordinal x \<noteq> n"
  shows "\<not> tbl_has x_attempt (mint_attempt_id r n) (attempts l)"
  using assms by (auto simp: tbl_has_def batch_ok_def ledger_ok_def mint_inject)

lemma execute_batch_ok:
  assumes ok: "ctl_ok c" and new: "run_unused r (ct_ledger c)"
  shows "ctl_ok (snd (execute_batch g fl r fence now n c))"
proof (cases "dget (ct_pipes c) n")
  case None
  then show ?thesis using ok by (simp add: execute_batch_def ctl_ok_def)
next
  case (Some p)
  let ?c = "set_status n ''running'' c" and ?g = "pipeline_generation n (set_status n ''running'' c)"
  obtain res l where claim: "claim_for_dispatch n r (origin_str g) fl (pl_yaml p) (pl_sched p) 1 ?g
      fence now (ct_ledger c) = (res, l)" by fastforce
  have "\<not> tbl_has x_attempt (mint_attempt_id r 1) (attempts (ct_ledger c))"
    using new ctl_okD(1) [OF ok] by (intro new_attempt_row) (auto simp: run_unused_def)
  from claim_for_dispatch_keeps [OF ctl_okD(1) [OF ok] this claim]
  have k: "keeps (ct_ledger c) l" "\<And>a. res = Inr (Some a) \<Longrightarrow> (a, r, n, ?g) \<in> ident ` set (attempts l)"
    by auto
  have "ctl_ok (?c\<lparr>ct_ledger := l\<rparr>)" using ok k(1) by (intro ledger_ok_step) simp_all
  moreover have "ctl_ok (?c\<lparr>ct_ledger := l, ct_inflight := ct_inflight c @ [i], ct_busy := b, ct_next := m\<rparr>)"
    if "(if_attempt i, if_run i, if_pipeline i, if_generation i) \<in> ident ` set (attempts l)" for i b m
    using that ok k(1) unfolding ctl_ok_def keeps_def inflight_ok_def by auto
  ultimately show ?thesis using Some ok k(2)
    by (auto simp: execute_batch_def Let_def claim split: sum.split option.split)
qed

lemma inflight_terminalize [simp]: "ct_inflight (terminalize_inflight i res now c) = ct_inflight c"
  by (simp add: terminalize_inflight_def)

lemma batch_dispatch_result_ok:
  assumes ok: "ctl_ok c" and i: "i \<in> set (ct_inflight c)"
  shows "ctl_ok (snd (batch_dispatch_result cfg out i now c))"
proof (cases out)
  case (Accepted url)
  have "ctl_ok (c\<lparr>ct_ledger := mark_attempt_running a r g (ct_ledger c)\<rparr>)" for a r g
    using ok keeps_running ctl_okD(1) [OF ok] by (intro ledger_ok_step) simp_all
  then show ?thesis using Accepted ok terminalize_inflight_ok [OF ok i]
    by (simp add: batch_dispatch_result_def batch_accepted_def split: option.split)
next
  case NoCapacity
  obtain res c' where enq: "enqueue_manual_run cfg (if_pipeline i) (if_run i) (if_yaml i) now
      (terminalize_inflight i None now c) = (res, c')" by fastforce
  have "ctl_ok c'" using enqueue_ok [OF terminalize_inflight_ok [OF ok i]] enq by (metis snd_conv)
  then show ?thesis using NoCapacity terminalize_inflight_ok [OF ok i]
    by (simp add: batch_dispatch_result_def batch_no_capacity_def enq split: sum.split)
qed (simp add: batch_dispatch_result_def terminalize_inflight_ok [OF ok i])

lemma end_dispatch_ok: "ctl_ok c \<Longrightarrow> ctl_ok (end_dispatch i c)"
  by (rule ctl_okI) (auto simp: end_dispatch_def ctl_okD)

lemma run_batch_dispatched_ok: "ctl_ok c \<Longrightarrow> ctl_ok (snd (run_batch_dispatched cfg out th now c))"
  by (auto simp: run_batch_dispatched_def find_Some_iff split: option.split
      intro!: end_dispatch_ok batch_dispatch_result_ok)

lemma claim_queued_ok:
  assumes ok: "ctl_ok c"
  shows "ctl_ok (snd (claim_queued_run r fence now c))"
proof (cases "find (\<lambda>q. qr_run q = r) (drainable_queued_runs c)")
  case None
  then show ?thesis using ok by (simp add: claim_queued_run_def)
next
  case (Some q)
  let ?n = "qr_pipeline q" and ?l = "ct_ledger c"
  obtain k c1 where mv: "move_queued_run_row r ''queued'' ''dispatching'' c = (k, c1)" by fastforce
  have c1: "ctl_ok c1" "ct_ledger c1 = ?l"
    using move_ok [OF ok, of "''queued''" r "''dispatching''"] move_core(1) [of r "''queued''" "''dispatching''" c]
    by (simp_all add: mv)
  let ?sch = "case dget (ct_pipes c) ?n of Some p \<Rightarrow> pl_sched p | None \<Rightarrow> Manual"
  obtain res l where claim: "claim_for_dispatch ?n r ''queued'' False (qr_yaml q) ?sch
      (next_attempt_ordinal r ?l) (pipeline_generation ?n c1) fence now ?l = (res, l)" by fastforce
  have "\<not> tbl_has x_attempt (mint_attempt_id r (next_attempt_ordinal r ?l)) (attempts ?l)"
    using next_attempt_ordinal_fresh ctl_okD(1) [OF ok] by (intro new_attempt_row) fastforce+
  then have "keeps ?l l" using claim_for_dispatch_keeps [OF ctl_okD(1) [OF ok] _ claim] by blast
  then have l: "ctl_ok (c1\<lparr>ct_ledger := l\<rparr>)" using c1 by (intro ledger_ok_step) simp_all
  then show ?thesis using c1 Some move_ok [OF l]
    by (simp add: claim_queued_run_def Let_def mv claim split: sum.split option.split)
qed

lemma commit_ok:
  assumes ok: "ctl_ok c"
  shows "ctl_ok (snd (commit_queued_dispatch r url now c))"
proof -
  have run: "ctl_ok (d\<lparr>ct_ledger := mark_attempt_running a r' g (ct_ledger d)\<rparr>)" if "ctl_ok d" for d a r' g
    using that keeps_running ctl_okD(1) [OF that] by (intro ledger_ok_step) simp_all
  show ?thesis using ok
    by (auto simp: commit_queued_dispatch_def Let_def split: option.split intro!: run dispatched_ok)
qed

lemma revert_ok:
  assumes ok: "ctl_ok c"
  shows "ctl_ok (snd (revert_queued_claim r now c))"
proof -
  obtain n c1 where mv: "move_queued_run_row r ''dispatching'' ''queued'' c = (n, c1)" by fastforce
  have "ctl_ok c1" using move_ok [OF ok, of "''dispatching''" r "''queued''"] by (simp add: mv)
  then show ?thesis using ok
    by (simp add: revert_queued_claim_def mv retire_cancelled_claim_attempt_def terminalize_open_ok
        split: option.split)
qed

lemma expire_ok:
  assumes ok: "ctl_ok c"
  shows "ctl_ok (snd (expire_queued_run r now c))"
proof -
  obtain n c1 where mv: "move_queued_run_row r ''queued'' ''expired'' c = (n, c1)" by fastforce
  have c1: "ctl_ok c1" using move_ok [OF ok, of "''queued''" r "''expired''"] by (simp add: mv)
  have "ctl_ok (c1\<lparr>ct_ledger := snd (resolve_intent r oc a now (ct_ledger c1))\<rparr>)" for oc a
    using c1 keeps_resolve ctl_okD(1) [OF c1] by (intro ledger_ok_step) simp_all
  then show ?thesis using ok c1
    by (simp add: expire_queued_run_def mv Let_def split: option.split)
qed

lemma complete_ok: "ctl_ok c \<Longrightarrow> ctl_ok (on_worker_run_complete r n st now c)"
  by (simp add: on_worker_run_complete_def Let_def terminalize_open_ok)

lemma attempt_complete_ok:
  assumes ok: "ctl_ok c"
  shows "ctl_ok (snd (on_attempt_run_complete a g r n st now c))"
proof (cases "get_attempt_row a (ct_ledger c)")
  case (Some x)
  then have "x \<in> set (attempts (ct_ledger c))" "x_attempt x = a"
    by (auto simp: get_attempt_row_def dest: tbl_find_SomeD)
  then have "names_row a (x_run x) (x_pipeline x) (x_generation x) (ct_ledger c)"
    using row_names [OF ctl_okD(1) [OF ok]] by metis
  from keeps_terminalize [OF ctl_okD(1) [OF ok] this]
  show ?thesis using ok Some
    by (auto simp: on_attempt_run_complete_def intro!: complete_ok ledger_ok_step)
qed (simp add: on_attempt_run_complete_def ok)

lemma leases_ok [simp]: "ctl_ok (c\<lparr>ct_leases := x\<rparr>) \<longleftrightarrow> ctl_ok c"
  by (simp add: ctl_ok_def)

lemma pipes_ok [simp]: "ctl_ok (c\<lparr>ct_pipes := x\<rparr>) \<longleftrightarrow> ctl_ok c"
  by (simp add: ctl_ok_def)

lemma jobs_ok [simp]: "ctl_ok (c\<lparr>ct_jobs := x\<rparr>) \<longleftrightarrow> ctl_ok c"
  by (simp add: ctl_ok_def)

lemma lost_ok: "ctl_ok c \<Longrightarrow> ctl_ok (snd (mark_active_batch_run_lost n r seen fresh now c))"
  by (auto simp: mark_active_batch_run_lost_def Let_def intro!: terminalize_open_ok)

lemma drop_state_ok:
  "ctl_ok c \<Longrightarrow> l = ct_ledger c \<Longrightarrow> ctl_ok (c\<lparr>ct_ledger := delete_transform_state p l\<rparr>)"
  using keeps_drop_state ctl_okD(1) by (intro ledger_ok_step) simp_all

lemma update_ok: "ctl_ok c \<Longrightarrow> ctl_ok (snd (update_pipeline parsed y now n c))"
  by (auto simp: update_pipeline_def Let_def split: option.split intro!: drop_state_ok cancel_pipeline_ok)

lemma delete_ok: "ctl_ok c \<Longrightarrow> ctl_ok (snd (delete_pipeline now n c))"
  by (auto simp: delete_pipeline_def Let_def intro!: drop_state_ok prune_ok cancel_pipeline_ok)

lemma lifecycle_ok:
  assumes "ctl_ok c"
  shows "ctl_ok (snd (register_pipeline n sch en y c))" "ctl_ok (snd (start_pipeline n c))"
    "ctl_ok (snd (stop_pipeline now n c))" "ctl_ok (snd (restart_pipeline now n c))"
    "ctl_ok (snd (adopt_active_batch_run n r url c))"
  using assms
  by (auto simp: register_pipeline_def start_pipeline_def stop_pipeline_def restart_pipeline_def
      adopt_active_batch_run_def Let_def cancel_pipeline_ok split: option.split)

lemma resolve_boot_keeps:
  assumes ok: "ctl_ok c" and x: "ident x \<in> ident ` set (attempts (ct_ledger c))"
  shows "ctl_ok (resolve_attempt_at_boot ev now x c)"
proof -
  have "names_row (x_attempt x) (x_run x) (x_pipeline x) (x_generation x) (ct_ledger c)"
    using ident_names [OF ctl_okD(1) [OF ok]] x by (simp add: ident_def)
  from keeps_terminalize [OF ctl_okD(1) [OF ok] this]
  have "ctl_ok (c\<lparr>ct_ledger := terminalize_attempt (x_attempt x) (x_run x) (x_pipeline x)
      (x_generation x) res now (ct_ledger c)\<rparr>)" for res
    using ok by (intro ledger_ok_step)
  moreover have "ctl_ok (c\<lparr>ct_ledger := mark_attempt_unknown x (ct_ledger c)\<rparr>)"
    using ok keeps_unknown [OF ctl_okD(1) [OF ok]] by (intro ledger_ok_step)
  ultimately show ?thesis using ok
    by (simp add: resolve_attempt_at_boot_def Let_def cancel_run_ok split: evidence.split)
qed

lemma ident_terminalize:
  "ident ` set (attempts (terminalize_attempt a r p g res now l)) = ident ` set (attempts l)"
  by (simp add: terminalize_attempt_def Let_def resolve_intent_def ident_relabel split: option.split)

lemma cancel_run_core [simp]: "ct_ledger (terminal_cancel_queued_run r c) = ct_ledger c"
  by (simp add: terminal_cancel_queued_run_def)

lemma resolve_boot_ident:
  "ident ` set (attempts (ct_ledger (resolve_attempt_at_boot ev now x c))) =
     ident ` set (attempts (ct_ledger c))"
  by (simp add: resolve_attempt_at_boot_def Let_def ident_terminalize mark_attempt_unknown_def
      ident_relabel split: evidence.split)

lemma resolve_all_ok:
  assumes "ctl_ok c" "ident ` set xs \<subseteq> ident ` set (attempts (ct_ledger c))"
  shows "ctl_ok (fold (\<lambda>x. resolve_attempt_at_boot (ev (x_attempt x)) now x) xs c)"
  using assms
proof (induction xs arbitrary: c)
  case (Cons x xs)
  let ?c = "resolve_attempt_at_boot (ev (x_attempt x)) now x c"
  have "ctl_ok ?c" using Cons.prems by (intro resolve_boot_keeps) auto
  then show ?case using Cons.IH [of ?c] Cons.prems(2) by (simp add: resolve_boot_ident)
qed simp

lemma boot_pipeline_ok [simp]: "ctl_ok (boot_pipeline parse row c) \<longleftrightarrow> ctl_ok c"
  by (simp add: boot_pipeline_def Let_def split: prod.split option.split)

lemma boot_pipelines_ok: "ctl_ok (fold (boot_pipeline parse) rows c) \<longleftrightarrow> ctl_ok c"
  by (induction rows arbitrary: c) simp_all

lemma boot_ok:
  assumes ok: "ctl_ok c"
  shows "ctl_ok (boot_load parse ev now c)"
proof -
  let ?c0 = "c\<lparr>ct_pipes := [], ct_jobs := [], ct_leases := [], ct_inflight := [], ct_busy := []\<rparr>"
  let ?c1 = "reset_orphan_dispatching_queued_runs ?c0"
  have "ctl_ok ?c0" using ok by (simp add: ctl_ok_def inflight_ok_def)
  then have "ctl_ok ?c1" by (rule reset_orphans_ok)
  moreover have "ident ` set (get_non_terminal_attempts (ct_ledger ?c1)) \<subseteq> ident ` set (attempts (ct_ledger ?c1))"
    by (auto simp: get_non_terminal_attempts_def)
  ultimately show ?thesis by (simp add: boot_load_def Let_def boot_pipelines_ok resolve_all_ok)
qed

lemma ctl_next_ok: "ctl_ok c \<Longrightarrow> ctl_ok (ctl_next op c)"
  by (cases op)
    (simp_all add: trigger_ok execute_batch_ok run_batch_dispatched_ok claim_queued_ok commit_ok revert_ok
      expire_ok complete_ok attempt_complete_ok lost_ok lifecycle_ok update_ok delete_ok boot_ok
      rollback_pipeline_def)


lemma empty_ctl_ok: "ctl_ok empty_ctl"
  using empty_ledger_ok
  by (simp add: ctl_ok_def empty_ctl_def batch_ok_def live_guarded_def queue_ok_def inflight_ok_def empty_ledger_def)

lemma reachable_ok: "ctl_reachable c \<Longrightarrow> ctl_ok c"
  by (induction rule: ctl_reachable.induct) (simp_all add: empty_ctl_ok ctl_next_ok)

lemma reachable_run: "ctl_reachable c \<Longrightarrow> ctl_reachable (fold ctl_next ops c)"
  by (induction ops arbitrary: c) (simp_all add: ctl_more)

section \<open>One run at a time\<close>

lemma filter_at_most_one:
  assumes "distinct xs" "\<And>x y. x \<in> set xs \<Longrightarrow> y \<in> set xs \<Longrightarrow> P x \<Longrightarrow> P y \<Longrightarrow> x = y"
  shows "length (filter P xs) \<le> 1"
proof -
  have "card (set (filter P xs)) \<le> Suc 0"
    using assms(2) by (intro card_le_Suc0_iff_eq [THEN iffD2]) auto
  moreover have "length (filter P xs) = card (set (filter P xs))"
    using distinct_card [of "filter P xs"] assms(1) by simp
  ultimately show ?thesis by simp
qed

lemma pk_distinct: "pk_ok key t \<Longrightarrow> distinct t"
  by (simp add: pk_ok_def distinct_map)

lemma live_unique:
  assumes "batch_ok l" "x \<in> set (attempts l)" "y \<in> set (attempts l)" "live_state (x_state x)"
    "live_state (x_state y)" "x_pipeline x = x_pipeline y"
  shows "x = y"
proof -
  have "held_by (x_pipeline x) (x_attempt x) (x_run x) l" "held_by (x_pipeline x) (x_attempt y) (x_run y) l"
    using assms by (auto simp: batch_ok_def live_guarded_def)
  then have "x_attempt x = x_attempt y" by (auto simp: held_by_def split: option.splits)
  moreover have "pk_ok x_attempt (attempts l)" using assms(1) by (simp add: batch_ok_def ledger_ok_def)
  ultimately show ?thesis using assms(2,3) pk_ok_eq by metis
qed

definition live_attempts :: "string \<Rightarrow> ctl \<Rightarrow> attempt list" where
  "live_attempts n c = filter (\<lambda>x. x_pipeline x = n \<and> live_state (x_state x)) (attempts (ct_ledger c))"

definition queued_for :: "string \<Rightarrow> ctl \<Rightarrow> qrow list" where
  "queued_for n c = filter (\<lambda>q. qr_pipeline q = n \<and> q_active q) (ct_queue c)"

text \<open>C12. In every state the manager can reach through any interleaving of triggers, scheduled fires,
  dispatch results, queue drains, completions, losses, lifecycle calls and reboots, a pipeline has at
  most one attempt that is claimed, dispatching or running.\<close>

theorem one_live_attempt:
  assumes "ctl_reachable c"
  shows "length (live_attempts n c) \<le> 1"
proof -
  have ok: "batch_ok (ct_ledger c)" using reachable_ok [OF assms] by (rule ctl_okD)
  then have "distinct (attempts (ct_ledger c))"
    by (intro pk_distinct [of x_attempt]) (simp add: batch_ok_def ledger_ok_def)
  then show ?thesis
    unfolding live_attempts_def by (rule filter_at_most_one) (auto intro: live_unique [OF ok])
qed

text \<open>C14. In every reachable state a pipeline has at most one queued run that is waiting or being
  dispatched.\<close>

theorem one_queued_run:
  assumes "ctl_reachable c"
  shows "length (queued_for n c) \<le> 1"
proof -
  have ok: "queue_ok (ct_queue c)" using reachable_ok [OF assms] by (rule ctl_okD)
  then have "distinct (ct_queue c)" by (intro pk_distinct [of qr_run]) (simp add: queue_ok_def)
  then show ?thesis
    unfolding queued_for_def by (rule filter_at_most_one) (use ok in \<open>auto simp: queue_ok_def\<close>)
qed

definition demo_cfg :: ctl_cfg where
  "demo_cfg = \<lparr>cc_queue_manual = True, cc_ttl = 900, cc_max_count = 1, cc_max_bytes = 0\<rparr>"

definition demo_running :: "cop list" where
  "demo_running =
     [CRegister ''p'' Interval True ''y'', CBatch ScheduledRun False ''r1'' ''f1'' 5 ''p'',
      CBatchDone demo_cfg (Accepted ''u'') 1 6, CBatch ManualRun False ''r2'' ''f2'' 7 ''p'']"

definition demo_queued :: "cop list" where
  "demo_queued =
     [CRegister ''p'' Interval True ''y'', CTrigger demo_cfg False True ''r1'' 5 ''p'',
      CTrigger demo_cfg False True ''r2'' 6 ''p'']"

theorem one_live_attempt_witness:
  "length (live_attempts ''p'' (fold ctl_next demo_running empty_ctl)) \<le> 1 \<and>
   map x_run (live_attempts ''p'' (fold ctl_next demo_running empty_ctl)) = [''r1'']"
  by (rule conjI, rule one_live_attempt, rule reachable_run, rule ctl_init, code_simp)

theorem one_queued_run_witness:
  "length (queued_for ''p'' (fold ctl_next demo_queued empty_ctl)) \<le> 1 \<and>
   map qr_run (queued_for ''p'' (fold ctl_next demo_queued empty_ctl)) = [''r1'']"
  by (rule conjI, rule one_queued_run, rule reachable_run, rule ctl_init, code_simp)

section \<open>An idle pipeline can be dispatched\<close>

lemma idle_guard:
  assumes ok: "batch_ok l" and idle: "\<forall>x \<in> set (attempts l). x_pipeline x = n \<longrightarrow> x_state x = ''terminal''"
    and g: "tbl_find g_key n (guards l) = Some g"
  shows "g_attempt g = None"
proof (rule ccontr)
  assume "g_attempt g \<noteq> None"
  moreover have "g \<in> set (guards l)" "g_key g = n" using tbl_find_SomeD [OF g] by auto
  ultimately show False using ok idle unfolding batch_ok_def owned_def by blast
qed

lemma ensure_new_intent:
  assumes "\<not> tbl_has i_run (i_run i) (intents l)" "i_origin i \<in> set origins"
  shows "ensure_run_intent i l = (Inr (), l\<lparr>intents := intents l @
     [i\<lparr>i_requested_config_version := None, i_final_outcome := None, i_final_attempt := None,
       i_resolved_at := None\<rparr>]\<rparr>)"
  using assms by (simp add: ensure_run_intent_def)

lemma update_where_new:
  assumes "\<forall>x \<in> set t. \<not> P x"
  shows "update_where P f (t @ [x]) = t @ [if P x then f x else x]"
  using assms by (induction t) simp_all

lemma claim_for_dispatch_idle:
  assumes ok: "batch_ok l"
    and idle: "\<forall>x \<in> set (attempts l). x_pipeline x = n \<longrightarrow> x_state x = ''terminal''"
    and unused: "run_unused r l" "\<not> tbl_has i_run r (intents l)" and org: "org \<in> set origins"
  shows "\<exists>l'. claim_for_dispatch n r org fl y sch 1 g fence now l = (Inr (Some (mint_attempt_id r 1)), l') \<and>
     attempts l' = attempts l @ [\<lparr>x_attempt = mint_attempt_id r 1, x_run = r, x_pipeline = n,
       x_ordinal = 1, x_generation = g, x_slot = [], x_fence_token = fence, x_state = ''dispatching''\<rparr>]"
proof -
  define i where "i = mk_intent r n org fl now None g y sch"
  define l1 where "l1 = l\<lparr>intents := intents l @ [i]\<rparr>"
  define q where "q = \<lparr>q_guard_key = n, q_guard_kind = ''batch'', q_pipeline = n, q_run = r,
    q_generation = g, q_ordinal = 1, q_slot = [], q_yaml_snapshot = Some y\<rparr>"
  have i: "i_run i = r" "i_origin i = org" "i_final_outcome i = None"
    "i\<lparr>i_requested_config_version := None, i_final_outcome := None, i_final_attempt := None,
       i_resolved_at := None\<rparr> = i" by (simp_all add: i_def mk_intent_def)
  have ens: "ensure_run_intent i l = (Inr (), l1)"
    using ensure_new_intent [of i l] unused(2) org by (simp add: i l1_def)
  have "batch_ok l1" using keeps_ensure [OF ok, of i] ens by (simp add: keeps_def)
  then have lok: "ledger_ok l1" by (simp add: batch_ok_def)
  have "\<not> tbl_has x_attempt (mint_attempt_id r 1) (attempts l)"
    using unused(1) by (intro new_attempt_row [OF ok]) (auto simp: run_unused_def)
  moreover have "tbl_find i_run r (intents l1) = Some i" using unused(2) i by (simp add: l1_def tbl_find_append)
  ultimately have "claim_possible q l1"
    using idle_guard [OF ok idle] claim_possible_iff [OF lok, of q] i
    by (auto simp: q_def l1_def guard_kinds_def split: option.split)
  then have claim: "claim_run q fence now l1 = (Inr (outcome q CLAIMED (Some fence)), claimed_ledger q fence now l1)"
    by (rule claim_run_possible)
  have "\<forall>x \<in> set (attempts l). \<not> (x_attempt x = mint_attempt_id r 1 \<and> x_run x = r \<and>
      x_state x = ''claimed'' \<and> x_generation x = g)" using unused(1) by (auto simp: run_unused_def)
  then show ?thesis
    unfolding claim_for_dispatch_def i_def [symmetric] q_def [symmetric] ens
    by (simp add: claim outcome_def mark_attempt_dispatching_def transition_attempt_def Let_def
        attempt_states_def claimed_ledger_def new_attempt_def update_where_new)
      (simp add: q_def l1_def update_where_new)
qed

text \<open>C13. A pipeline whose attempts are all terminal is never blocked: when it is neither running nor
  queued, a manual trigger or a scheduled fire with a new run id claims the guard and goes on to
  dispatch, with its attempt in state \<open>dispatching\<close> at the pipeline's current generation. So no
  history of crashes, cancellations and losses leaves a guard behind.\<close>

theorem idle_pipeline_dispatches:
  assumes "ctl_reachable c" "dget (ct_pipes c) n = Some p" "pl_status p \<notin> {''running'', ''queued''}"
    "\<forall>x \<in> set (attempts (ct_ledger c)). x_pipeline x = n \<longrightarrow> x_state x = ''terminal''"
    "run_unused r (ct_ledger c)" "\<not> tbl_has i_run r (intents (ct_ledger c))"
  shows "fst (execute_batch org fl r fence now n c) = Inr True \<and>
     map (\<lambda>x. (x_run x, x_state x, x_generation x)) (live_attempts n (snd (execute_batch org fl r fence now n c))) =
       [(r, ''dispatching'', pipeline_generation n c)]"
proof -
  let ?c = "set_status n ''running'' c"
  have org: "origin_str org \<in> set origins" by (cases org) (simp_all add: origins_def)
  have gen: "pipeline_generation n ?c = pipeline_generation n c"
    using assms(2) by (simp add: pipeline_generation_def set_status_def)
  obtain l' where claim: "claim_for_dispatch n r (origin_str org) fl (pl_yaml p) (pl_sched p) 1
      (pipeline_generation n c) fence now (ct_ledger c) = (Inr (Some (mint_attempt_id r 1)), l')"
    "attempts l' = attempts (ct_ledger c) @ [\<lparr>x_attempt = mint_attempt_id r 1, x_run = r, x_pipeline = n,
       x_ordinal = 1, x_generation = pipeline_generation n c, x_slot = [], x_fence_token = fence,
       x_state = ''dispatching''\<rparr>]"
    using claim_for_dispatch_idle [OF ctl_okD(1) [OF reachable_ok [OF assms(1)]] assms(4-6) org] by metis
  have "filter (\<lambda>x. x_pipeline x = n \<and> live_state (x_state x)) (attempts (ct_ledger c)) = []"
    using assms(4) by (auto simp: filter_empty_conv)
  then show ?thesis using assms(2,3)
    by (simp add: execute_batch_def Let_def gen claim live_attempts_def)
qed

theorem idle_pipeline_dispatches_witness:
  "fst (execute_batch ManualRun False ''r9'' ''f9'' 20 ''p''
     (fold ctl_next (demo_running @ [CComplete ''r1'' ''p'' Success 9]) empty_ctl)) = Inr True"
proof -
  let ?c = "fold ctl_next (demo_running @ [CComplete ''r1'' ''p'' Success 9]) empty_ctl"
  have "ctl_reachable ?c" by (rule reachable_run, rule ctl_init)
  moreover have "dget (ct_pipes ?c) ''p'' = Some \<lparr>pl_sched = Interval, pl_enabled = True, pl_yaml = ''y'',
      pl_status = ''scheduled'', pl_config = 0\<rparr>" by code_simp
  moreover have "\<forall>x \<in> set (attempts (ct_ledger ?c)). x_pipeline x = ''p'' \<longrightarrow> x_state x = ''terminal''" by code_simp
  moreover have "run_unused ''r9'' (ct_ledger ?c)" "\<not> tbl_has i_run ''r9'' (intents (ct_ledger ?c))" by code_simp+
  ultimately show ?thesis using idle_pipeline_dispatches [of ?c "''p''"] by simp
qed

section \<open>Recorded runs\<close>

definition recorded :: "hist \<Rightarrow> ctl \<Rightarrow> bool" where
  "recorded h c \<longleftrightarrow> get_run (h_run h) c = Some h"

lemma recorded_history: "ct_history c' = ct_history c \<Longrightarrow> recorded h c' \<longleftrightarrow> recorded h c"
  by (simp add: recorded_def get_run_def)

lemma recorded_field [simp]:
  "recorded h (c\<lparr>ct_ledger := a\<rparr>) \<longleftrightarrow> recorded h c" "recorded h (c\<lparr>ct_queue := b\<rparr>) \<longleftrightarrow> recorded h c"
  "recorded h (c\<lparr>ct_pipes := d\<rparr>) \<longleftrightarrow> recorded h c" "recorded h (c\<lparr>ct_jobs := e\<rparr>) \<longleftrightarrow> recorded h c"
  "recorded h (c\<lparr>ct_leases := f\<rparr>) \<longleftrightarrow> recorded h c" "recorded h (c\<lparr>ct_inflight := g\<rparr>) \<longleftrightarrow> recorded h c"
  "recorded h (c\<lparr>ct_busy := k\<rparr>) \<longleftrightarrow> recorded h c" "recorded h (c\<lparr>ct_next := m\<rparr>) \<longleftrightarrow> recorded h c"
  "recorded h (c\<lparr>ct_desired := u\<rparr>) \<longleftrightarrow> recorded h c" "recorded h (c\<lparr>ct_registry := v\<rparr>) \<longleftrightarrow> recorded h c"
  by (simp_all add: recorded_def get_run_def)

lemma recorded_record [simp]: "recorded h c \<Longrightarrow> recorded h (record_run h' c)"
  by (simp add: recorded_def get_run_def record_run_def tbl_find_insert_ignore)

lemma recorded_helpers [simp]:
  "recorded h (set_status n s c) \<longleftrightarrow> recorded h c" "recorded h (ensure_desired_state n s c) \<longleftrightarrow> recorded h c"
  "recorded h (set_desired_status n s c) \<longleftrightarrow> recorded h c"
  "recorded h (bump_pipeline_generation n b c) \<longleftrightarrow> recorded h c" "recorded h (flag_stopped n b c) \<longleftrightarrow> recorded h c"
  "recorded h (save_pipeline n y c) \<longleftrightarrow> recorded h c" "recorded h (delete_pipeline_row n c) \<longleftrightarrow> recorded h c"
  "recorded h (manager_register n sch en y c) \<longleftrightarrow> recorded h c" "recorded h (add_lease n r u c) \<longleftrightarrow> recorded h c"
  "recorded h (pop_batch_lease_for_run n r c) \<longleftrightarrow> recorded h c"
  by (simp_all add: set_status_def ensure_desired_state_def set_desired_status_def Let_def
      bump_pipeline_generation_def flag_stopped_def save_pipeline_def delete_pipeline_row_def
      manager_register_def add_lease_def pop_batch_lease_for_run_def split: option.split)

lemma recorded_helpers2 [simp]:
  "recorded h (stop_execution n c) \<longleftrightarrow> recorded h c" "recorded h (do_schedule n c) \<longleftrightarrow> recorded h c"
  "recorded h (terminal_cancel_pipeline_queued n now c) \<longleftrightarrow> recorded h c"
  "recorded h (prune_orphaned_run_intents n now c) \<longleftrightarrow> recorded h c"
  "recorded h (terminal_cancel_queued_run r c) \<longleftrightarrow> recorded h c"
  "recorded h (mark_queued_run_dispatched r now c) \<longleftrightarrow> recorded h c"
  "recorded h (reset_orphan_dispatching_queued_runs c) \<longleftrightarrow> recorded h c"
  "recorded h (save_queued_run q c) \<longleftrightarrow> recorded h c"
  "recorded h (snd (move_queued_run_row r s t c)) \<longleftrightarrow> recorded h c"
  "recorded h (terminalize_open r res now c) \<longleftrightarrow> recorded h c"
  "recorded h (terminalize_inflight i res now c) \<longleftrightarrow> recorded h c"
  "recorded h (on_run_complete_status n st c) \<longleftrightarrow> recorded h c"
  by (simp_all add: stop_execution_def do_schedule_def terminal_cancel_pipeline_queued_def Let_def
      prune_orphaned_run_intents_def terminal_cancel_queued_run_def mark_queued_run_dispatched_def
      reset_orphan_dispatching_queued_runs_def save_queued_run_def move_queued_run_row_def
      terminalize_open_def terminalize_inflight_def on_run_complete_status_def split: option.split)

lemma recorded_finalize [simp]:
  "recorded h c \<Longrightarrow> recorded h (finalize_batch_result h' c)"
  "recorded h c \<Longrightarrow> recorded h (record_skipped_manual_run n r c)"
  "recorded h c \<Longrightarrow> recorded h (skip_run org n r c)"
  by (simp_all add: finalize_batch_result_def record_skipped_manual_run_def skip_run_def)

lemma recorded_enqueue: "recorded h (snd (enqueue_manual_run cfg n r y now c)) \<longleftrightarrow> recorded h c"
  by (simp add: enqueue_manual_run_def Let_def split: option.split)

lemma recorded_enqueue_pair:
  "enqueue_manual_run cfg n r y now c = (res, c') \<Longrightarrow> recorded h c' \<longleftrightarrow> recorded h c"
  using recorded_enqueue [of h cfg n r y now c] by simp

lemma recorded_move_pair: "move_queued_run_row r s t c = (k, c') \<Longrightarrow> recorded h c' \<longleftrightarrow> recorded h c"
  using recorded_helpers2(9) [of h r s t c] by simp

lemma recorded_queue_ops:
  assumes "recorded h c"
  shows "recorded h (snd (trigger_run cfg hl ad r now n c))" "recorded h (snd (claim_queued_run r fence now c))"
    "recorded h (snd (commit_queued_dispatch r url now c))" "recorded h (snd (revert_queued_claim r now c))"
    "recorded h (snd (expire_queued_run r now c))"
  using assms
  by (auto simp: trigger_run_def claim_queued_run_def commit_queued_dispatch_def revert_queued_claim_def
      expire_queued_run_def retire_cancelled_claim_attempt_def Let_def recorded_enqueue_pair recorded_move_pair
      split: option.split sum.split prod.split bool.split)








lemma fold_inv: "(\<And>x s. P s \<Longrightarrow> P (f x s)) \<Longrightarrow> P s \<Longrightarrow> P (fold f xs s)"
  by (induction xs arbitrary: s) simp_all





section \<open>Stop, restart and reboot\<close>

definition resting :: "string \<Rightarrow> ctl \<Rightarrow> bool" where
  "resting n c \<longleftrightarrow> n \<notin> set (ct_jobs c) \<and>
     (\<forall>p. dget (ct_pipes c) n = Some p \<longrightarrow> pl_status p = ''stopped'')"

lemma resolve_boot_memory [simp]:
  "ct_registry (resolve_attempt_at_boot ev now x c) = ct_registry c"
  "ct_pipes c = [] \<Longrightarrow> ct_pipes (resolve_attempt_at_boot ev now x c) = []"
  "ct_jobs (resolve_attempt_at_boot ev now x c) = ct_jobs c"
  by (simp_all add: resolve_attempt_at_boot_def Let_def terminal_cancel_queued_run_def record_run_def
      set_status_def add_lease_def split: evidence.split option.split)

lemma resolve_all_memory:
  "ct_pipes c = [] \<Longrightarrow> ct_jobs c = [] \<Longrightarrow>
     (let c' = fold (\<lambda>x. resolve_attempt_at_boot (ev (x_attempt x)) now x) xs c
      in ct_pipes c' = [] \<and> ct_jobs c' = [] \<and> ct_registry c' = ct_registry c)"
  by (induction xs arbitrary: c) (simp_all add: Let_def)

lemma boot_pipeline_resting:
  assumes "resting n c" "is_pipeline_stopped n c"
  shows "resting n (boot_pipeline parse row c)" "is_pipeline_stopped n (boot_pipeline parse row c)"
proof -
  obtain m r where row: "row = (m, r)" by (cases row)
  have reg: "ct_registry (boot_pipeline parse row c) = ct_registry c"
    by (simp add: row boot_pipeline_def Let_def set_status_def do_schedule_def manager_register_def
        split: option.split prod.split)
  show "is_pipeline_stopped n (boot_pipeline parse row c)" using assms(2) by (simp add: is_pipeline_stopped_def reg)
  show "resting n (boot_pipeline parse row c)"
    using assms
    by (cases "n = m")
      (auto simp: row boot_pipeline_def boot_stopped_def resting_def Let_def set_status_def do_schedule_def
        manager_register_def split: option.split prod.split)
qed

lemma boot_pipelines_resting:
  "resting n c \<Longrightarrow> is_pipeline_stopped n c \<Longrightarrow> resting n (fold (boot_pipeline parse) rows c)"
  by (induction rows arbitrary: c) (simp_all add: boot_pipeline_resting)

lemma boot_resting:
  assumes "is_pipeline_stopped n c"
  shows "resting n (boot_load parse ev now c)"
proof -
  let ?c1 = "reset_orphan_dispatching_queued_runs
    (c\<lparr>ct_pipes := [], ct_jobs := [], ct_leases := [], ct_inflight := [], ct_busy := []\<rparr>)"
  let ?c2 = "fold (\<lambda>x. resolve_attempt_at_boot (ev (x_attempt x)) now x)
    (get_non_terminal_attempts (ct_ledger ?c1)) ?c1"
  have "ct_pipes ?c2 = [] \<and> ct_jobs ?c2 = [] \<and> ct_registry ?c2 = ct_registry c"
    using resolve_all_memory [of ?c1 ev now "get_non_terminal_attempts (ct_ledger ?c1)"]
    by (simp add: reset_orphan_dispatching_queued_runs_def Let_def)
  then have "resting n ?c2" "is_pipeline_stopped n ?c2"
    using assms by (simp_all add: resting_def is_pipeline_stopped_def)
  then show ?thesis unfolding boot_load_def Let_def by (rule boot_pipelines_resting)
qed

lemma stop_flags:
  assumes "dget (ct_registry c) n = Some r" "\<not> rg_deleted r"
  shows "is_pipeline_stopped n (snd (stop_pipeline now n c))"
proof -
  have "ct_registry (stop_execution n c) = ct_registry c"
    by (simp add: stop_execution_def set_status_def split: option.split)
  then show ?thesis using assms
    by (simp add: stop_pipeline_def Let_def is_pipeline_stopped_def terminal_cancel_pipeline_queued_def
        set_desired_status_def flag_stopped_def set_status_def split: option.split)
qed

text \<open>C16. An operator's stop survives a reboot: whatever the workers' journals say about the attempts
  left behind and however the YAML parses, after the boot the pipeline has no scheduler job and is
  not loaded in any status but \<open>stopped\<close>.\<close>

theorem stop_survives_boot:
  assumes "dget (ct_registry c) n = Some r" "\<not> rg_deleted r"
  shows "resting n (boot_load parse ev now' (snd (stop_pipeline now n c)))"
  by (rule boot_resting [OF stop_flags [OF assms]])

theorem stop_survives_boot_witness:
  "resting ''p'' (boot_load (\<lambda>_. Some (Interval, True)) (\<lambda>_. ActiveOn ''u'') 30
     (snd (stop_pipeline 20 ''p'' (fold ctl_next demo_running empty_ctl))))"
proof -
  have "dget (ct_registry (fold ctl_next demo_running empty_ctl)) ''p'' =
      Some \<lparr>rg_yaml = ''y'', rg_stopped = False, rg_deleted = False\<rparr>" by code_simp
  then show ?thesis by (rule stop_survives_boot) simp
qed

definition status_of :: "string \<Rightarrow> ctl \<Rightarrow> string option" where
  "status_of n c = map_option pl_status (dget (ct_pipes c) n)"


text \<open>A pipeline deleted and registered again keeps the tombstone of its desired state.\<close>

lemma reregister_lost_at_boot:
  "let boot = CBoot (\<lambda>_. Some (Interval, True)) (\<lambda>_. NoReply) 9;
       c = fold ctl_next [CRegister ''p'' Interval True ''y'', CDelete 5 ''p'',
             CRegister ''p'' Interval True ''y''] empty_ctl
   in status_of ''p'' c = Some ''scheduled'' \<and> status_of ''p'' (ctl_next boot c) = Some ''stopped''"
  by code_simp


text \<open>The count bound of the queue is not kept: a row being dispatched is not counted, so with a
  bound of one a second pipeline is admitted, and the revert of the dispatch leaves two rows queued.\<close>

theorem queue_bound_exceeded:
  "let c = fold ctl_next [CRegister ''p'' Interval True ''y'', CRegister ''q'' Interval True ''y'',
             CTrigger demo_cfg False True ''r1'' 5 ''p'', CClaim ''r1'' ''f'' 6,
             CTrigger demo_cfg False True ''r2'' 7 ''q'', CRevert ''r1'' 8] empty_ctl
   in cc_max_count demo_cfg = 1 \<and> map qr_run (get_active_queued_runs c) = [''r1'', ''r2'']"
  by code_simp

section \<open>The drain\<close>

definition row_status :: "string \<Rightarrow> ctl \<Rightarrow> string option" where
  "row_status r c = map_option qr_status (tbl_find qr_run r (ct_queue c))"

lemma row_status_move:
  "row_status r (snd (move_queued_run_row r' s t c)) =
     (if r = r' \<and> row_status r c = Some s then Some t else row_status r c)"
  by (cases "tbl_find qr_run r (ct_queue c)")
    (auto simp: row_status_def move_queued_run_row_def Let_def tbl_find_update_where dest: tbl_find_SomeD)

lemma row_status_helpers [simp]:
  "row_status r (c\<lparr>ct_ledger := l\<rparr>) = row_status r c" "row_status r (set_status n s c) = row_status r c"
  "row_status r (finalize_batch_result h c) = row_status r c" "row_status r (add_lease n r' u c) = row_status r c"
  "row_status r (terminalize_open r' res now c) = row_status r c"
  by (simp_all add: row_status_def terminalize_open_def split: option.split)

lemma row_status_dispatched:
  "row_status r (mark_queued_run_dispatched r' now c) =
     (if r = r' \<and> row_status r c = Some ''dispatching'' then Some ''dispatched'' else row_status r c)"
  by (cases "tbl_find qr_run r (ct_queue c)")
    (auto simp: row_status_def mark_queued_run_dispatched_def tbl_find_update_where dest: tbl_find_SomeD)

lemma claim_queued_status:
  assumes "row_status r c = Some ''expired''"
  shows "row_status r (snd (claim_queued_run r' fence now c)) = Some ''expired''"
proof -
  obtain n c1 where mv: "move_queued_run_row r' ''queued'' ''dispatching'' c = (n, c1)" by fastforce
  have "row_status r c1 = Some ''expired''"
    using row_status_move [of r r' "''queued''" "''dispatching''" c] assms by (simp add: mv)
  then show ?thesis using assms
    by (simp add: claim_queued_run_def Let_def mv row_status_move split: option.split prod.split sum.split)
qed

lemma drain_dispatch_status:
  assumes "row_status r c = Some ''expired''"
  shows "row_status r (drain_dispatch out fence now q c) = Some ''expired''"
proof -
  obtain res c1 where cl: "claim_queued_run (qr_run q) (fence (qr_run q)) now c = (res, c1)" by fastforce
  have c1: "row_status r c1 = Some ''expired''"
    using claim_queued_status [OF assms, of "qr_run q" "fence (qr_run q)" now] by (simp add: cl)
  have "row_status r (snd (commit_queued_dispatch (qr_run q) url now c1)) = Some ''expired''" for url
    using c1 by (simp add: commit_queued_dispatch_def Let_def row_status_dispatched split: option.split)
  moreover have "row_status r (snd (revert_queued_claim (qr_run q) now c1)) = Some ''expired''"
  proof -
    obtain n c2 where mv: "move_queued_run_row (qr_run q) ''dispatching'' ''queued'' c1 = (n, c2)" by fastforce
    have "row_status r c2 = Some ''expired''"
      using row_status_move [of r "qr_run q" "''dispatching''" "''queued''" c1] c1 by (simp add: mv)
    then show ?thesis using c1
      by (simp add: revert_queued_claim_def mv retire_cancelled_claim_attempt_def split: option.split)
  qed
  ultimately show ?thesis using c1
    by (simp add: drain_dispatch_def cl split: sum.split option.split dispatch_answer.split)
qed

lemma expire_shape:
  "expire_queued_run r now c = (False, c') \<Longrightarrow> row_status s c' = row_status s c \<or> s = r"
  "expire_queued_run r now c = (True, c') \<Longrightarrow> s \<noteq> r \<Longrightarrow> row_status s c' = row_status s c"
  using row_status_move [of s r "''queued''" "''expired''" c]
  by (auto simp: expire_queued_run_def Let_def split: option.splits prod.splits if_splits)

lemma expire_other: "s \<noteq> r \<Longrightarrow> row_status s (snd (expire_queued_run r now c)) = row_status s c"
  using expire_shape [of r now c _ s] by (cases "expire_queued_run r now c") (metis (full_types) snd_conv)

lemma expire_pipes: "dhas n (ct_pipes (snd (expire_queued_run r now c))) \<longleftrightarrow> dhas n (ct_pipes c)"
proof -
  have mv: "ct_pipes (snd (move_queued_run_row r s t c)) = ct_pipes c" for s t
    by (simp add: move_queued_run_row_def Let_def)
  have st: "dhas n (ct_pipes (set_status m s d)) \<longleftrightarrow> dhas n (ct_pipes d)" for m s d
    using dget_None_iff [of "ct_pipes d" m]
    by (auto simp: set_status_def dhas_iff split: option.split dest: dget_SomeD)
  have fin: "dhas n (ct_pipes (finalize_batch_result h d)) \<longleftrightarrow> dhas n (ct_pipes d)" for h d
    by (simp add: finalize_batch_result_def on_run_complete_status_def do_schedule_def record_run_def st
        split: option.split)
  obtain k c1 where m: "move_queued_run_row r ''queued'' ''expired'' c = (k, c1)" by fastforce
  have "ct_pipes c1 = ct_pipes c" using mv [of "''queued''" "''expired''"] by (simp add: m)
  then show ?thesis by (simp add: expire_queued_run_def m Let_def fin split: option.split)
qed

lemma find_mem: "find P xs = Some x \<Longrightarrow> x \<in> set xs \<and> P x"
  by (induction xs) (auto split: if_splits)

lemma find_queued:
  assumes ok: "queue_ok (ct_queue c)" and q: "tbl_find qr_run r (ct_queue c) = Some q" "qr_status q = ''queued''"
  shows "find (\<lambda>x. qr_run x = r) (get_active_queued_runs c) = Some q"
    "rowcount (\<lambda>x. qr_run x = r \<and> qr_status x = ''queued'') (ct_queue c) = 1"
proof -
  have mem: "q \<in> set (ct_queue c)" "qr_run q = r" using tbl_find_SomeD [OF q(1)] by auto
  have uniq: "x = q" if "x \<in> set (ct_queue c)" "qr_run x = r" for x
    by (rule pk_ok_eq [of qr_run "ct_queue c"]) (use ok that mem in \<open>simp_all add: queue_ok_def\<close>)
  have "find (\<lambda>x. qr_run x = r) (get_active_queued_runs c) \<noteq> None"
    using mem q(2) by (auto simp: find_None_iff get_active_queued_runs_def)
  then obtain x where x: "find (\<lambda>x. qr_run x = r) (get_active_queued_runs c) = Some x" by blast
  then have "x \<in> set (get_active_queued_runs c)" "qr_run x = r" using find_mem [OF x] by auto
  then have "x = q" by (intro uniq) (simp_all add: get_active_queued_runs_def)
  then show "find (\<lambda>x. qr_run x = r) (get_active_queued_runs c) = Some q" using x by simp
  show "rowcount (\<lambda>x. qr_run x = r \<and> qr_status x = ''queued'') (ct_queue c) = 1"
    using rowcount_pk_key [of qr_run "ct_queue c" r "\<lambda>x. qr_status x = ''queued''"] ok q
    by (simp add: queue_ok_def)
qed

definition expired_and_recorded :: "string \<Rightarrow> ctl \<Rightarrow> bool" where
  "expired_and_recorded r c \<longleftrightarrow> row_status r c = Some ''expired'' \<and> get_run r c \<noteq> None"

lemma expire_queued:
  assumes ok: "ctl_ok c" and q: "tbl_find qr_run r (ct_queue c) = Some q" "qr_status q = ''queued''"
    and pipe: "dhas (qr_pipeline q) (ct_pipes c)"
  shows "expired_and_recorded r (snd (expire_queued_run r now c))"
proof -
  obtain k c1 where mv: "move_queued_run_row r ''queued'' ''expired'' c = (k, c1)" by fastforce
  then have k: "k = 1" and pipes: "ct_pipes c1 = ct_pipes c"
    using find_queued(2) [OF ctl_okD(2) [OF ok] q] by (auto simp: move_queued_run_row_def Let_def)
  have "row_status r c = Some ''queued''" using q by (simp add: row_status_def)
  then have st: "row_status r c1 = Some ''expired''"
    using row_status_move [of r r "''queued''" "''expired''" c] by (simp add: mv)
  define d where "d = c1\<lparr>ct_ledger := snd (resolve_intent r ''expired''
    (case active_attempt_for_run r (ct_ledger c1) of Some x \<Rightarrow> x_attempt x | None \<Rightarrow> []) now (ct_ledger c1))\<rparr>"
  have res: "snd (expire_queued_run r now c) = finalize_batch_result (failed_run r (qr_pipeline q)) d"
    using find_queued(1) [OF ctl_okD(2) [OF ok] q] by (simp add: expire_queued_run_def mv k Let_def d_def)
  have hist: "ct_history (on_run_complete_status n s e) = ct_history e" for n s e
    by (simp add: on_run_complete_status_def do_schedule_def set_status_def split: option.split)
  have "get_run r (finalize_batch_result (failed_run r (qr_pipeline q)) d) \<noteq> None"
    using pipe pipes
    by (auto simp: finalize_batch_result_def failed_run_def d_def get_run_def hist record_run_def
        tbl_has_def insert_ignore_def)
  then show ?thesis using st by (simp add: expired_and_recorded_def res d_def)
qed

lemma recorded_get_run: "get_run r c \<noteq> None \<longleftrightarrow> (\<exists>h. h_run h = r \<and> recorded h c)"
proof
  assume "get_run r c \<noteq> None"
  then obtain h where "get_run r c = Some h" by blast
  moreover from this have "h_run h = r" by (auto simp: get_run_def dest: tbl_find_SomeD)
  ultimately show "\<exists>h. h_run h = r \<and> recorded h c" by (auto simp: recorded_def)
qed (auto simp: recorded_def)

lemma drain_dispatch_recorded: "recorded h c \<Longrightarrow> recorded h (drain_dispatch out fence now q c)"
  using recorded_queue_ops(2) [of h c "qr_run q" "fence (qr_run q)" now]
  by (cases "claim_queued_run (qr_run q) (fence (qr_run q)) now c")
    (simp add: drain_dispatch_def recorded_queue_ops split: sum.split option.split dispatch_answer.split)

lemma drain_dispatch_stable:
  "expired_and_recorded r c \<Longrightarrow> expired_and_recorded r (drain_dispatch out fence now q c)"
  unfolding expired_and_recorded_def recorded_get_run
  using drain_dispatch_status drain_dispatch_recorded by blast

lemma drain_expire_recorded:
  assumes "get_run r c \<noteq> None"
  shows "get_run r (drain_expire now q c) \<noteq> None"
proof -
  obtain h where h: "h_run h = r" "recorded h c" using assms recorded_get_run by metis
  have "recorded h (drain_expire now q c)" using h(2) by (simp add: drain_expire_def recorded_queue_ops)
  then show ?thesis using h(1) recorded_get_run by metis
qed

lemma drain_expire_status:
  assumes "row_status r c = Some ''expired''"
  shows "row_status r (drain_expire now q c) = Some ''expired''"
proof -
  obtain k c1 where mv: "move_queued_run_row (qr_run q) ''queued'' ''expired'' c = (k, c1)" by fastforce
  have "row_status r c1 = Some ''expired''"
    using row_status_move [of r "qr_run q" "''queued''" "''expired''" c] assms by (simp add: mv)
  then show ?thesis using assms
    by (simp add: drain_expire_def expire_queued_run_def mv Let_def split: option.split)
qed

lemma drain_expire_stable:
  "expired_and_recorded r c \<Longrightarrow> expired_and_recorded r (drain_expire now q c)"
  unfolding expired_and_recorded_def using drain_expire_status drain_expire_recorded by blast

text \<open>A row still waiting for its turn: queued, on a registered pipeline.\<close>

definition waiting :: "qrow \<Rightarrow> ctl \<Rightarrow> bool" where
  "waiting q c \<longleftrightarrow> ctl_ok c \<and> tbl_find qr_run (qr_run q) (ct_queue c) = Some q \<and>
     qr_status q = ''queued'' \<and> dhas (qr_pipeline q) (ct_pipes c)"

lemma expire_other_row:
  assumes "r \<noteq> qr_run q" "tbl_find qr_run (qr_run q) (ct_queue c) = Some q"
  shows "tbl_find qr_run (qr_run q) (ct_queue (snd (expire_queued_run r now c))) = Some q"
proof -
  obtain k c1 where mv: "move_queued_run_row r ''queued'' ''expired'' c = (k, c1)" by fastforce
  then have "tbl_find qr_run (qr_run q) (ct_queue c1) = Some q"
    using assms by (auto simp: move_queued_run_row_def Let_def tbl_find_update_where)
  then show ?thesis using assms(2) by (simp add: expire_queued_run_def mv Let_def split: option.split)
qed

lemma drain_expire_waiting:
  assumes w: "waiting q c" and "qr_expires_at q \<le> now"
  shows "expired_and_recorded (qr_run q) (drain_expire now q c)"
    and "qr_run p \<noteq> qr_run q \<Longrightarrow> waiting q (drain_expire now p c)"
  using assms expire_queued [of c "qr_run q" q now] expire_other_row [of "qr_run p" q c now]
    expire_ok [of c "qr_run p" now]
  by (simp_all add: waiting_def drain_expire_def expire_pipes)

lemma drain_expire_all:
  assumes "waiting q c" "q \<in> set qs" "qr_expires_at q \<le> now" "\<forall>p \<in> set qs. qr_run p = qr_run q \<longrightarrow> p = q"
  shows "expired_and_recorded (qr_run q) (fold (drain_expire now) qs c)"
  using assms
proof (induction qs arbitrary: c)
  case (Cons p qs)
  show ?case
  proof (cases "p = q")
    case True
    have "expired_and_recorded (qr_run q) (drain_expire now p c)"
      using drain_expire_waiting(1) Cons.prems True by blast
    then show ?thesis
      using fold_inv [where P = "expired_and_recorded (qr_run q)", OF drain_expire_stable] by simp
  next
    case False
    then have "qr_run p \<noteq> qr_run q" using Cons.prems(4) by auto
    then have "waiting q (drain_expire now p c)" using drain_expire_waiting(2) Cons.prems(1,3) by blast
    then show ?thesis using Cons.IH Cons.prems False by simp
  qed
qed simp

lemma drainable_waiting:
  assumes "ctl_ok c" "q \<in> set (drainable_queued_runs c)"
  shows "waiting q c" "\<forall>p \<in> set (drainable_queued_runs c). qr_run p = qr_run q \<longrightarrow> p = q"
proof -
  have pk: "pk_ok qr_run (ct_queue c)" using ctl_okD(2) [OF assms(1)] by (simp add: queue_ok_def)
  have sub: "p \<in> set (drainable_queued_runs c) \<Longrightarrow> p \<in> set (ct_queue c) \<and> qr_status p = ''queued''" for p
    by (simp add: drainable_queued_runs_def get_active_queued_runs_def)
  have "dget (ct_pipes c) (qr_pipeline q) \<noteq> None"
    using assms(2) by (auto simp: drainable_queued_runs_def split: option.splits)
  then have "dhas (qr_pipeline q) (ct_pipes c)" by (auto simp: dhas_iff dget_None_iff)
  then show "waiting q c" using assms(1) sub [OF assms(2)] tbl_find_pk [OF pk] by (auto simp: waiting_def)
  show "\<forall>p \<in> set (drainable_queued_runs c). qr_run p = qr_run q \<longrightarrow> p = q"
    using sub assms(2) pk_ok_eq [OF pk] by blast
qed

text \<open>C17. The drain enforces the deadline even through a full worker outage: every drainable queued run
  whose deadline has passed is expired after the pass and has a run-history row, whether or not a
  worker is healthy and whatever the dispatches of the other runs return.\<close>

theorem drain_expires_overdue:
  assumes "ctl_reachable c" "q \<in> set (drainable_queued_runs c)" "qr_expires_at q \<le> now"
  shows "row_status (qr_run q) (drain_queued_runs healthy out fence now c) = Some ''expired'' \<and>
     get_run (qr_run q) (drain_queued_runs healthy out fence now c) \<noteq> None"
proof -
  have "expired_and_recorded (qr_run q) (fold (drain_expire now) (drainable_queued_runs c) c)"
    using drain_expire_all drainable_waiting [OF reachable_ok [OF assms(1)] assms(2)] assms(2,3) by blast
  moreover from fold_inv [where P = "expired_and_recorded (qr_run q)", OF drain_dispatch_stable this]
  have "expired_and_recorded (qr_run q) (fold (drain_dispatch out fence now) qs
      (fold (drain_expire now) (drainable_queued_runs c) c))" for qs .
  ultimately have "expired_and_recorded (qr_run q) (drain_queued_runs healthy out fence now c)"
    by (simp add: drain_queued_runs_def Let_def)
  then show ?thesis unfolding expired_and_recorded_def .
qed

theorem drain_expires_overdue_witness:
  "row_status ''r1'' (drain_queued_runs False (\<lambda>_. NoCapacity) (\<lambda>r. r) 900000005
     (fold ctl_next demo_queued empty_ctl)) = Some ''expired''"
proof -
  let ?q = "\<lparr>qr_run = ''r1'', qr_pipeline = ''p'', qr_yaml = ''y'', qr_status = ''queued'',
      qr_requested_at = 5, qr_expires_at = 900000005, qr_dispatched_at = None\<rparr>"
  have "drainable_queued_runs (fold ctl_next demo_queued empty_ctl) = [?q]" by code_simp
  then have "?q \<in> set (drainable_queued_runs (fold ctl_next demo_queued empty_ctl))" by simp
  from drain_expires_overdue [OF reachable_run [OF ctl_init] this, of 900000005 False "\<lambda>_. NoCapacity" "\<lambda>r. r",
      THEN conjunct1]
  show ?thesis by (simp only: qrow.simps order_refl)
qed

end
