(* ===== verification/Spec2Isabelle.thy ===== *)
theory Spec2Isabelle
  imports Journal_Props Ledger_Props Run_Completion Executor_Runs Stream_Props Pool_Fairness Json_Flatten Window_Props
    Serializers Controller_Props
begin

text \<open>
  A verification development for TRAM, a daemon that runs data pipelines on one manager and a set
  of workers. All paths below are under \<open>src/tram\<close>.

  \<^bold>\<open>The program.\<close> The manager (\<open>pipeline/controller.py\<close>) decides when a pipeline runs, claims the
  run in a durable ledger (\<open>persistence/ledger.py\<close>), picks a worker (\<open>agent/worker_pool.py\<close>) and
  sends it the run with a signed start authorization (\<open>agent/auth_tokens.py\<close>). The worker
  (\<open>agent/server.py\<close>) admits the attempt in its own journal (\<open>agent/journal.py\<close>), executes it
  (\<open>pipeline/executor.py\<close>: source, serializer, transforms, sinks, acknowledgements) and reports the
  result through the outbox of the journal until the manager has answered.

  \<^bold>\<open>Shared theories.\<close>
  \<^item> \<open>Prelude\<close>: strings, decimal numbers and list facts. \<open>Py_Dict\<close>: dictionaries as association
    lists in insertion order, with the locale of dictionary laws.
  \<^item> \<open>Sql_Table\<close>: tables as lists of rows, the forms of SQL statement, and two locales: a store in
    which the first row of a key wins, and a machine whose operations keep an invariant
    (\<open>op_machine\<close>). The latter is interpreted on the journal, the ledger, the worker, the statistics
    and the controller, and the theorems about whole histories come from it.

  \<^bold>\<open>Components, their sources and what is shown.\<close>
  \<^item> \<open>Auth_Tokens\<close> (\<open>agent/auth_tokens.py\<close>): minting and validation; round trip, authenticity of
    what is accepted, bound on the acceptance window.
  \<^item> \<open>Journal\<close>, \<open>Journal_Machine\<close>, \<open>Journal_Props\<close> (\<open>agent/journal.py\<close>): one definition per method
    over the SQLite tables; the database invariant, at most one admission per attempt, finality of
    revocations and of collected tokens, an outbox row for every unacknowledged completion.
  \<^item> \<open>Ledger\<close>, \<open>Ledger_Props\<close> (\<open>persistence/ledger.py\<close>, the transform-state rows of
    \<open>persistence/db.py\<close>, the atomic checkpoint of \<open>api/routers/internal.py\<close>): exclusion by guards,
    finality of resolved intents, monotone checkpoints.
  \<^item> \<open>Controller\<close>, \<open>Controller_Props\<close> (\<open>pipeline/controller.py\<close>, \<open>pipeline/manager.py\<close>, the queue of
    \<open>persistence/db.py\<close>, the drain of \<open>agent/reconciler.py\<close>): batch pipelines on the manager. The
    record \<open>ctl\<close> holds the database tables and the memory of the process; \<open>ctl_next\<close> makes one step
    under the lifecycle lock and \<open>ctl_reachable\<close> is the set of states of any interleaving, reboots
    included. At most one live attempt and one active queued run per pipeline; an idle pipeline is
    never blocked by a guard; a recorded result is final; a stop survives a reboot; overdue queued
    runs expire; and two histories in which the records disagree.
  \<^item> \<open>Worker_Server\<close>, \<open>Worker_Props\<close>, \<open>Run_Completion\<close> (\<open>agent/server.py\<close>): request handlers, boot,
    thread ends, the outbox pass and completion payloads; at most one thread per attempt over all
    lives of a worker, delivery of a batch, how a stream run is reported.
  \<^item> \<open>Run_Stats\<close> (\<open>core/context.py\<close>, \<open>agent/metrics.py\<close>), \<open>Delivery\<close>, \<open>Executor\<close>, \<open>Executor_Props\<close>,
    \<open>Executor_Demo\<close>, \<open>Executor_Runs\<close>, \<open>Stream_Run\<close>, \<open>Stream_Props\<close> (\<open>pipeline/executor.py\<close>): a unit
    is acknowledged only when it is durable, broker offsets are acknowledged in order, what a clean
    success means, and where data is lost without a trace.
  \<^item> \<open>Worker_Pool\<close>, \<open>Pool_Props\<close>, \<open>Pool_Fairness\<close> (\<open>agent/worker_pool.py\<close>, \<open>agent/stats_store.py\<close>):
    consistent bookkeeping, the health debounce, fairness of placement.
  \<^item> \<open>Records\<close>, \<open>Transforms\<close>, \<open>Transform_Props\<close>, \<open>Json_Flatten\<close>, \<open>Counter_Delta\<close>,
    \<open>Window_Aggregate\<close>, \<open>Window_Props\<close> (\<open>transforms/\<close>): records stay well-formed; flattening agrees
    with dotted paths; deltas are the true increments; windows equal a batch computation.
  \<^item> \<open>Framing\<close>, \<open>Framing_Props\<close>, \<open>Serializers\<close> (\<open>serializers/asn1_serializer.py\<close>,
    \<open>serializers/protobuf_serializer.py\<close>, \<open>schema_registry/client.py\<close>, the default of
    \<open>interfaces/base_serializer.py\<close>): the BER splitter terminates and accepts exactly a grammar of
    elements; protobuf frames round-trip; batched parsing equals parsing at once.

  \<^bold>\<open>The outside.\<close> Clocks, random tokens, hash functions, workers, sinks, sources, codecs and parsers
  are arguments. The executor and stream models number their external calls and take the answer to
  call \<open>n\<close> from the environment, so that every call may answer differently; the interval flusher of a
  stream fires at points the environment chooses. Floats are exact rationals, strings are ASCII.

  \<^bold>\<open>Bounds and termination.\<close> No model uses fuel. Loops that advance by parsed lengths are partial
  functions whose termination on every input is the theorem \<open>splitting_terminates\<close>; retry loops recurse
  on the number of attempts left; Python's recursion limit is not modelled. The one freshness
  assumption of the controller machine is that \<open>uuid4\<close> does not repeat a run id that already has an
  attempt; it is a guard of the step \<open>CBatch\<close>.

  \<^bold>\<open>Not modelled.\<close> Stream placements and standalone runs in the controller, the journal probe before a
  run is declared lost, the placement reconciler, the bounded executor and pipeline versions; threaded
  readers of the batch and stream executors; \<open>choice_unwrap\<close> of \<open>json_flatten\<close> and transforms that
  evaluate expressions with third-party packages; formats whose parsing is a third-party package; the
  connectors, HTTP routes, configuration models, alerts, Kubernetes client, MIB tools, CLI, metrics and
  logging, which are input and output, declarations or calls to packages outside the repository.
\<close>

end
